(* ===== verification/Rotator_Prelude.thy ===== *)
theory Rotator_Prelude
  imports
    Main
    "HOL-Library.Word"
    "HOL-Library.AList"
    "HOL-Library.Multiset"
    "HOL-Library.Char_ord"
    "HOL-Library.List_Lexorder"
begin

text \<open>
  Shared vocabulary of the development: the Go types the operator uses and the generic facts
  about lists, association lists and words that the component theories rely on.

  A Go string is a byte sequence, hence a \<^typ>\<open>string\<close> (HOL characters are 8 bits wide); a
  \<open>[]byte\<close> is a list of 8-bit words.  A Go map is an association list with distinct keys whose
  order is the order in which one \<open>range\<close> loop visits it; the collection \<open>go_map\<close> holds the facts
  on lookup and update.  A function that returns \<open>(T, error)\<close> and may panic returns an
  \<open>outcome\<close>; one that cannot panic returns a sum with \<^const>\<open>Inl\<close> for the error.
\<close>

unbundle bit_operations_syntax

named_theorems go_map \<open>lookup and update in Go maps\<close>
named_theorems go_string \<open>Go string and byte slice operations\<close>

type_synonym byte = "8 word"
type_synonym bytes = "byte list"

lemma unat_byte_lt [simp]: "unat (b :: byte) < 256"
proof -
  have "unat b < 2 ^ LENGTH(8)" by (rule unsigned_less)
  then show ?thesis by simp
qed

lemma uint_byte_lt [simp]: "uint (b :: byte) < 256"
proof -
  have "uint b < 2 ^ LENGTH(8)" by (rule unsigned_less)
  then show ?thesis by simp
qed

section \<open>Errors and panics\<close>

text \<open>
  \<open>ReconcileError\<close> is the error struct of internal/operations/types.go; it has no \<open>Unwrap\<close> method, so
  its cause is not part of the chain that \<open>errors.As\<close> searches.  \<open>FmtError\<close> is an error built by
  \<open>fmt.Errorf\<close> or \<open>errors.New\<close>: its text and the error wrapped by \<open>%w\<close>, if any.  \<open>ExtError\<close> is an
  error value that comes from code outside the repository, known by its text.
\<close>

datatype goerror =
    ReconcileError (RetryIn: int) (Message: string) (Cause: "goerror option")
  | FmtError string "goerror option"
  | ExtError string

fun Error :: "goerror \<Rightarrow> string" where
  "Error (ReconcileError _ m _) = m"
| "Error (FmtError m _) = m"
| "Error (ExtError m) = m"

text \<open>\<open>errors.As(err, &status)\<close> for a \<open>*ReconcileError\<close> target: the first one in the chain.\<close>

fun as_ReconcileError :: "goerror \<Rightarrow> goerror option" where
  "as_ReconcileError (ReconcileError r m c) = Some (ReconcileError r m c)"
| "as_ReconcileError (FmtError _ (Some e)) = as_ReconcileError e"
| "as_ReconcileError (FmtError _ None) = None"
| "as_ReconcileError (ExtError _) = None"

lemma as_ReconcileError_shape:
  "as_ReconcileError e = Some r \<Longrightarrow> \<exists>t m c. r = ReconcileError t m c"
  by (induction e rule: as_ReconcileError.induct) auto

datatype 'a outcome = Ok 'a | Err goerror | Panic string

fun is_Ok :: "'a outcome \<Rightarrow> bool" where
  "is_Ok (Ok _) = True"
| "is_Ok (Err _) = False"
| "is_Ok (Panic _) = False"

lemma is_Ok_iff: "is_Ok r \<longleftrightarrow> (\<exists>x. r = Ok x)"
  by (cases r) auto

section \<open>Integers and slices\<close>

text \<open>Go's integer division truncates towards zero.\<close>

definition go_quot :: "int \<Rightarrow> int \<Rightarrow> int" where
  "go_quot a b = sgn a * sgn b * (\<bar>a\<bar> div \<bar>b\<bar>)"

text \<open>\<open>s[:k]\<close> panics for a \<open>k\<close> that is negative or beyond the slice.\<close>

definition slice_to :: "'a list \<Rightarrow> int \<Rightarrow> 'a list outcome" where
  "slice_to s k = (if 0 \<le> k \<and> k \<le> int (length s) then Ok (take (nat k) s)
                   else Panic ''slice bounds out of range'')"

section \<open>Go maps\<close>

type_synonym 'v gomap = "(string \<times> 'v) list"

abbreviation wf_map :: "'v gomap \<Rightarrow> bool" where
  "wf_map m \<equiv> distinct (map fst m)"

text \<open>Indexing a map with a missing key yields the zero value of the element type.\<close>

definition map_get :: "'v \<Rightarrow> 'v gomap \<Rightarrow> string \<Rightarrow> 'v" where
  "map_get zero m k = (case map_of m k of None \<Rightarrow> zero | Some v \<Rightarrow> v)"

lemma wf_map_update [simp, intro]: "wf_map m \<Longrightarrow> wf_map (AList.update k v m)"
  by (rule distinct_update)

lemma map_of_update [simp, go_map]: "map_of (AList.update k v m) = (map_of m)(k \<mapsto> v)"
  by (rule update_conv')

lemma keys_update [simp, go_map]: "fst ` set (AList.update k v m) = insert k (fst ` set m)"
  by (simp flip: dom_map_of_conv_image_fst)

lemma map_get_update [simp, go_map]:
  "map_get z (AList.update k v m) k' = (if k' = k then v else map_get z m k')"
  by (simp add: map_get_def)

lemma map_get_Nil [simp, go_map]: "map_get z [] k = z"
  by (simp add: map_get_def)

lemma map_get_Cons [go_map]: "map_get z ((a, b) # m) k = (if k = a then b else map_get z m k)"
  by (simp add: map_get_def)

lemma mset_short_eq: "length us \<le> 1 \<Longrightarrow> mset us = mset vs \<Longrightarrow> us = vs"
  by (cases us) (auto dest: sym)

text \<open>
  Lookups do not depend on the order in which the entries of a map are listed.
\<close>

lemma map_of_mset_eq: "wf_map m \<Longrightarrow> mset m = mset m' \<Longrightarrow> map_of m = map_of m'"
  by (metis distinct_map map_of_eqI mset_eq_imp_distinct_iff mset_map set_mset_mset
      map_of_inject_set)

end
