(* ===== verification/Go_Lib.thy ===== *)
theory Go_Lib
  imports Rotator_Prelude
begin

text \<open>
  The parts of Go's standard library that the operator's own code is built from: the \<open>strings\<close>
  functions, decimal formatting, \<open>encoding/hex\<close>, \<open>encoding/base64\<close> and the conversion between
  strings and byte slices.  Case mapping and trimming are those of the ASCII path of the library:
  the operator applies them to HTTP header names and values and to URL schemes.
\<close>

section \<open>Strings and bytes\<close>

definition bytes_of :: "string \<Rightarrow> bytes" where
  "bytes_of s = map (\<lambda>c. word_of_nat (of_char c)) s"

definition string_of :: "bytes \<Rightarrow> string" where
  "string_of bs = map (\<lambda>b. char_of (unat b)) bs"

lemma string_of_bytes_of [simp, go_string]: "string_of (bytes_of s) = s"
  by (simp add: bytes_of_def string_of_def comp_def unat_of_nat map_idI)

lemma bytes_of_string_of [simp, go_string]: "bytes_of (string_of bs) = bs"
proof -
  have "of_char (char_of (unat b)) = unat b" for b :: byte
    using unat_byte_lt [of b] by simp
  then show ?thesis by (simp add: bytes_of_def string_of_def comp_def)
qed

lemma length_bytes_of [simp, go_string]: "length (bytes_of s) = length s"
  by (simp add: bytes_of_def)

lemma length_string_of [simp, go_string]: "length (string_of bs) = length bs"
  by (simp add: string_of_def)

lemma bytes_of_append [simp, go_string]: "bytes_of (s @ t) = bytes_of s @ bytes_of t"
  by (simp add: bytes_of_def)

lemma bytes_of_inj [simp, go_string]: "bytes_of s = bytes_of t \<longleftrightarrow> s = t"
  by (metis string_of_bytes_of)

section \<open>Package strings\<close>

definition HasPrefix :: "string \<Rightarrow> string \<Rightarrow> bool" where
  "HasPrefix s p \<longleftrightarrow> take (length p) s = p"

definition TrimPrefix :: "string \<Rightarrow> string \<Rightarrow> string" where
  "TrimPrefix s p = (if HasPrefix s p then drop (length p) s else s)"

text \<open>\<open>strings.Index\<close>: the first position of a substring, \<^const>\<open>None\<close> for Go's \<open>-1\<close>.\<close>

fun Index :: "string \<Rightarrow> string \<Rightarrow> nat option" where
  "Index [] sub = (if sub = [] then Some 0 else None)"
| "Index (c # cs) sub = (if HasPrefix (c # cs) sub then Some 0 else map_option Suc (Index cs sub))"

definition Contains :: "string \<Rightarrow> string \<Rightarrow> bool" where
  "Contains s sub \<longleftrightarrow> Index s sub \<noteq> None"

fun IndexByte :: "string \<Rightarrow> char \<Rightarrow> nat option" where
  "IndexByte [] b = None"
| "IndexByte (c # cs) b = (if c = b then Some 0 else map_option Suc (IndexByte cs b))"

definition LastIndexByte :: "string \<Rightarrow> char \<Rightarrow> nat option" where
  "LastIndexByte s b = map_option (\<lambda>i. length s - Suc i) (IndexByte (rev s) b)"

text \<open>\<open>strings.Split\<close> with a one-byte separator, and \<open>strings.Join\<close>.\<close>

fun Split :: "string \<Rightarrow> char \<Rightarrow> string list" where
  "Split [] sep = [[]]"
| "Split (c # cs) sep =
     (if c = sep then [] # Split cs sep
      else (case Split cs sep of [] \<Rightarrow> [[c]] | p # ps \<Rightarrow> (c # p) # ps))"

fun Join :: "string list \<Rightarrow> string \<Rightarrow> string" where
  "Join [] sep = []"
| "Join [s] sep = s"
| "Join (s # t # ss) sep = s @ sep @ Join (t # ss) sep"

text \<open>\<open>strings.Replace(s, c, new, -1)\<close> for a one-byte \<open>c\<close>.\<close>

fun ReplaceByte :: "string \<Rightarrow> char \<Rightarrow> string \<Rightarrow> string" where
  "ReplaceByte [] c new = []"
| "ReplaceByte (x # xs) c new = (if x = c then new else [x]) @ ReplaceByte xs c new"

definition lower_char :: "char \<Rightarrow> char" where
  "lower_char c = (if CHR ''A'' \<le> c \<and> c \<le> CHR ''Z'' then char_of (of_char c + 32 :: nat) else c)"

definition upper_char :: "char \<Rightarrow> char" where
  "upper_char c = (if CHR ''a'' \<le> c \<and> c \<le> CHR ''z'' then char_of (of_char c - 32 :: nat) else c)"

definition ToLower :: "string \<Rightarrow> string" where
  "ToLower s = map lower_char s"

definition EqualFold :: "string \<Rightarrow> string \<Rightarrow> bool" where
  "EqualFold s t \<longleftrightarrow> ToLower s = ToLower t"

definition is_space :: "char \<Rightarrow> bool" where
  "is_space c \<longleftrightarrow> c = CHR '' '' \<or> (CHR 0x09 \<le> c \<and> c \<le> CHR 0x0D)"

definition TrimSpace :: "string \<Rightarrow> string" where
  "TrimSpace s = rev (dropWhile is_space (rev (dropWhile is_space s)))"

lemma HasPrefix_iff: "HasPrefix s p \<longleftrightarrow> (\<exists>t. s = p @ t)"
  unfolding HasPrefix_def by (metis append_eq_conv_conj append_take_drop_id)

lemma HasPrefix_length: "HasPrefix s p \<Longrightarrow> length p \<le> length s"
  by (auto simp: HasPrefix_iff)

lemma HasPrefix_append [simp, go_string]: "HasPrefix (p @ t) p"
  by (simp add: HasPrefix_def)

lemma TrimPrefix_append [simp, go_string]: "TrimPrefix (p @ t) p = t"
  by (simp add: TrimPrefix_def)

lemma Index_Some:
  "Index s sub = Some i \<Longrightarrow> s = take i s @ sub @ drop (i + length sub) s"
proof (induction s sub arbitrary: i rule: Index.induct)
  case (1 sub)
  then show ?case by (simp split: if_splits)
next
  case (2 c cs sub)
  show ?case
  proof (cases "HasPrefix (c # cs) sub")
    case True
    with 2 show ?thesis by (auto simp: HasPrefix_iff)
  next
    case False
    with 2 show ?thesis by auto
  qed
qed

lemma Index_le: "Index s sub = Some i \<Longrightarrow> i + length sub \<le> length s"
proof (induction s sub arbitrary: i rule: Index.induct)
  case (2 c cs sub)
  then show ?case by (auto dest: HasPrefix_length split: if_splits)
qed (simp split: if_splits)

lemma IndexByte_None_iff [go_string]: "IndexByte s b = None \<longleftrightarrow> b \<notin> set s"
  by (induction s) auto

lemma IndexByte_append [go_string]:
  "b \<notin> set s \<Longrightarrow> IndexByte (s @ b # t) b = Some (length s)"
  by (induction s) auto

lemma IndexByte_Some:
  "IndexByte s b = Some i \<Longrightarrow> i < length s \<and> s ! i = b \<and> b \<notin> set (take i s)"
  by (induction s arbitrary: i) (auto split: if_splits)

lemma LastIndexByte_append [go_string]:
  "b \<notin> set t \<Longrightarrow> LastIndexByte (s @ b # t) b = Some (length s)"
  using IndexByte_append [of b "rev t" "rev s"] by (simp add: LastIndexByte_def)

lemma LastIndexByte_None_iff [go_string]: "LastIndexByte s b = None \<longleftrightarrow> b \<notin> set s"
  by (simp add: LastIndexByte_def IndexByte_None_iff)

lemma Split_not_Nil [simp]: "Split s sep \<noteq> []"
  by (induction s) (auto split: list.splits)

lemma Split_no_sep [go_string]: "sep \<notin> set s \<Longrightarrow> Split s sep = [s]"
  by (induction s) auto

lemma Split_append [go_string]: "sep \<notin> set s \<Longrightarrow> Split (s @ sep # t) sep = s # Split t sep"
  by (induction s) auto

lemma Join_Split: "Join (Split s sep) [sep] = s"
proof (induction s)
  case Nil
  then show ?case by simp
next
  case (Cons c cs)
  then show ?case
    by (cases "Split cs sep" rule: list.exhaust; cases "tl (Split cs sep)") auto
qed

lemma set_Split: "p \<in> set (Split s sep) \<Longrightarrow> sep \<notin> set p"
  by (induction s arbitrary: p) (fastforce split: if_splits list.splits)+

lemma length_Split: "length (Split s sep) = Suc (count_list s sep)"
  by (induction s) (auto split: list.splits)

lemma Join_Cons [go_string]: "ss \<noteq> [] \<Longrightarrow> Join (s # ss) sep = s @ sep @ Join ss sep"
  by (cases ss) auto

lemma lower_char_idem [simp]: "lower_char (lower_char c) = lower_char c"
  by (simp add: lower_char_def less_eq_char_def)

lemma ToLower_idem [simp, go_string]: "ToLower (ToLower s) = ToLower s"
  by (simp add: ToLower_def)

lemma length_ToLower [simp, go_string]: "length (ToLower s) = length s"
  by (simp add: ToLower_def)

section \<open>Decimal formatting\<close>

definition digit_char :: "nat \<Rightarrow> char" where
  "digit_char n = char_of (48 + n)"

fun dec_of_nat :: "nat \<Rightarrow> string" where
  "dec_of_nat n = (if n < 10 then [digit_char n] else dec_of_nat (n div 10) @ [digit_char (n mod 10)])"

declare dec_of_nat.simps [simp del]

text \<open>\<open>%d\<close> and \<open>strconv.FormatInt(n, 10)\<close>; \<open>pad_left\<close> is the zero padding of time fields.\<close>

definition FormatInt :: "int \<Rightarrow> string" where
  "FormatInt n = (if n < 0 then ''-'' @ dec_of_nat (nat (- n)) else dec_of_nat (nat n))"

definition pad_left :: "nat \<Rightarrow> string \<Rightarrow> string" where
  "pad_left n s = replicate (n - length s) (CHR ''0'') @ s"

lemma dec_of_nat_not_Nil [simp]: "dec_of_nat n \<noteq> []"
  by (subst dec_of_nat.simps) simp

lemma digit_char_digit: "n < 10 \<Longrightarrow> CHR ''0'' \<le> digit_char n \<and> digit_char n \<le> CHR ''9''"
  by (simp add: digit_char_def less_eq_char_def)

lemma dec_of_nat_digits: "c \<in> set (dec_of_nat n) \<Longrightarrow> CHR ''0'' \<le> c \<and> c \<le> CHR ''9''"
proof (induction n arbitrary: c rule: dec_of_nat.induct)
  case (1 n)
  then show ?case
    by (subst (asm) (2) dec_of_nat.simps)
       (auto simp: digit_char_digit split: if_splits)
qed

end
