(* ===== verification/Go_Codec.thy ===== *)
theory Go_Codec
  imports Go_Lib
begin

text \<open>
  \<open>encoding/hex\<close> and \<open>encoding/base64\<close> (standard alphabet, padded), each with a decoder as the
  reference for the round trip.  The locale \<open>codec\<close> is the contract the operator relies on: an
  encoding that can be read back is injective.
\<close>

section \<open>The contract of an encoding\<close>

locale codec =
  fixes enc :: "bytes \<Rightarrow> string"
    and dec :: "string \<Rightarrow> bytes option"
    and alphabet :: "char set"
  assumes dec_enc: "dec (enc bs) = Some bs"
    and enc_alphabet: "set (enc bs) \<subseteq> alphabet"
begin

lemma enc_inj: "enc bs = enc bs' \<longleftrightarrow> bs = bs'"
  by (metis dec_enc option.inject)

lemma enc_no_byte: "c \<notin> alphabet \<Longrightarrow> c \<notin> set (enc bs)"
  using enc_alphabet by blast

end

section \<open>Hexadecimal\<close>

definition hextable :: string where
  "hextable = ''0123456789abcdef''"

definition hex_EncodeToString :: "bytes \<Rightarrow> string" where
  "hex_EncodeToString bs =
     concat (map (\<lambda>b. [hextable ! (unat b div 16), hextable ! (unat b mod 16)]) bs)"

fun hex_decode :: "string \<Rightarrow> bytes option" where
  "hex_decode [] = Some []"
| "hex_decode [_] = None"
| "hex_decode (h # l # r) =
     (case (IndexByte hextable h, IndexByte hextable l, hex_decode r) of
        (Some i, Some j, Some bs) \<Rightarrow> Some (word_of_nat (16 * i + j) # bs)
      | _ \<Rightarrow> None)"

lemma IndexByte_nth: "distinct s \<Longrightarrow> i < length s \<Longrightarrow> IndexByte s (s ! i) = Some i"
  by (induction s arbitrary: i) (auto simp: nth_Cons split: nat.splits)

lemma IndexByte_hextable: "n < 16 \<Longrightarrow> IndexByte hextable (hextable ! n) = Some n"
  by (rule IndexByte_nth) (simp_all add: hextable_def)

lemma unat_byte_div_16 [simp]: "unat (b :: byte) div 16 < 16"
  using unat_byte_lt [of b] by (simp add: less_mult_imp_div_less)

lemma hex_decode_encode: "hex_decode (hex_EncodeToString bs) = Some bs"
  by (induction bs) (simp_all add: hex_EncodeToString_def IndexByte_hextable)

lemma hextable_nth_in: "n < 16 \<Longrightarrow> hextable ! n \<in> set hextable"
  by (rule nth_mem) (simp add: hextable_def)

lemma hex_alphabet: "set (hex_EncodeToString bs) \<subseteq> set hextable"
  by (auto simp: hex_EncodeToString_def hextable_nth_in)

lemma length_hex [simp]: "length (hex_EncodeToString bs) = 2 * length bs"
  by (induction bs) (simp_all add: hex_EncodeToString_def)

interpretation hexc: codec hex_EncodeToString hex_decode "set hextable"
  by unfold_locales (rule hex_decode_encode, rule hex_alphabet)

section \<open>Base64\<close>

definition b64_alphabet :: string where
  "b64_alphabet = ''ABCDEFGHIJKLMNOPQRSTUVWXYZabcdefghijklmnopqrstuvwxyz0123456789+/''"

definition b64_char :: "nat \<Rightarrow> char" where
  "b64_char n = b64_alphabet ! (n mod 64)"

fun base64_EncodeToString :: "bytes \<Rightarrow> string" where
  "base64_EncodeToString [] = []"
| "base64_EncodeToString [a] =
     (let v = 65536 * unat a in [b64_char (v div 262144), b64_char (v div 4096), CHR ''='', CHR ''=''])"
| "base64_EncodeToString [a, b] =
     (let v = 65536 * unat a + 256 * unat b
      in [b64_char (v div 262144), b64_char (v div 4096), b64_char (v div 64), CHR ''=''])"
| "base64_EncodeToString (a # b # c # r) =
     (let v = 65536 * unat a + 256 * unat b + unat c
      in [b64_char (v div 262144), b64_char (v div 4096), b64_char (v div 64), b64_char v]
         @ base64_EncodeToString r)"

definition b64_value :: "char \<Rightarrow> nat" where
  "b64_value c = (case IndexByte b64_alphabet c of None \<Rightarrow> 0 | Some n \<Rightarrow> n)"

fun b64_quad :: "char \<Rightarrow> char \<Rightarrow> char \<Rightarrow> char \<Rightarrow> nat" where
  "b64_quad p q r s = 262144 * b64_value p + 4096 * b64_value q + 64 * b64_value r + b64_value s"

fun base64_decode :: "string \<Rightarrow> bytes option" where
  "base64_decode [] = Some []"
| "base64_decode (p # q # r # s # t) =
     (if s = CHR ''='' then
        if t \<noteq> [] then None
        else if r = CHR ''='' then Some [word_of_nat (b64_quad p q r s div 65536)]
        else Some [word_of_nat (b64_quad p q r s div 65536), word_of_nat (b64_quad p q r s div 256)]
      else (case base64_decode t of
              None \<Rightarrow> None
            | Some bs \<Rightarrow> Some (word_of_nat (b64_quad p q r s div 65536)
                              # word_of_nat (b64_quad p q r s div 256)
                              # word_of_nat (b64_quad p q r s) # bs)))"
| "base64_decode _ = None"

lemma IndexByte_b64: "IndexByte b64_alphabet (b64_char n) = Some (n mod 64)"
  unfolding b64_char_def by (rule IndexByte_nth) (simp_all add: b64_alphabet_def)

lemma b64_value_char [simp]: "b64_value (b64_char n) = n mod 64"
  by (simp add: b64_value_def IndexByte_b64)

lemma b64_value_pad [simp]: "b64_value (CHR ''='') = 0"
  by (simp add: b64_value_def b64_alphabet_def)

lemma b64_char_not_pad [simp]: "b64_char n \<noteq> CHR ''=''"
  using IndexByte_b64 [of n] by (auto simp: b64_alphabet_def)

lemma word8_eq_mod: "n mod 256 = unat b \<Longrightarrow> word_of_nat n = (b :: byte)"
  by (rule word_unat_eq_iff [THEN iffD2]) (simp add: unat_of_nat)

lemma radix_64:
  "64 * p + q = x \<Longrightarrow> 64 * x + r = w \<Longrightarrow> 64 * w + s = v \<Longrightarrow>
    262144 * p + 4096 * q + 64 * r + s = (v :: nat)"
  by simp

lemma b64_quad_digits:
  assumes "v < 16777216"
  shows "262144 * (v div 262144 mod 64) + 4096 * (v div 4096 mod 64) + 64 * (v div 64 mod 64) + v mod 64
    = (v :: nat)"
proof (rule radix_64)
  have "v div 262144 < 64"
    using assms by (simp add: less_mult_imp_div_less)
  then show "64 * (v div 262144 mod 64) + v div 4096 mod 64 = v div 4096"
    using mult_div_mod_eq [of 64 "v div 4096"] by (simp flip: div_mult2_eq)
  show "64 * (v div 4096) + v div 64 mod 64 = v div 64"
    using mult_div_mod_eq [of 64 "v div 64"] by (simp flip: div_mult2_eq)
  show "64 * (v div 64) + v mod 64 = v"
    by simp
qed

lemma radix_256_mod: "c < 256 \<Longrightarrow> (256 * d + c) mod 256 = (c :: nat)"
  by simp

lemma radix_div: "c < k \<Longrightarrow> (k * d + c) div k = (d :: nat)"
  by simp

lemma b64_quad_bytes:
  fixes a b c :: byte
  defines "v \<equiv> 65536 * unat a + 256 * unat b + unat c"
  shows "v < 16777216"
    and "word_of_nat (v div 65536) = a"
    and "word_of_nat (v div 256) = b"
    and "word_of_nat v = c"
proof -
  note bounds = unat_byte_lt [of a] unat_byte_lt [of b] unat_byte_lt [of c]
  show "v < 16777216"
    using bounds unfolding v_def by linarith
  have v: "v = 256 * (256 * unat a + unat b) + unat c"
    by (simp add: v_def)
  have d: "v div 256 = 256 * unat a + unat b"
    unfolding v by (rule radix_div [OF bounds(3)])
  have "v div 65536 = v div 256 div 256" by (simp flip: div_mult2_eq)
  also have "\<dots> = unat a" unfolding d by (rule radix_div [OF bounds(2)])
  finally show "word_of_nat (v div 65536) = a" by simp
  show "word_of_nat (v div 256) = b"
    by (rule word8_eq_mod) (simp only: d radix_256_mod [OF bounds(2)])
  show "word_of_nat v = c"
    by (rule word8_eq_mod) (simp only: v radix_256_mod [OF bounds(3)])
qed

lemma b64_quad_chars:
  assumes "v < 16777216"
  shows "b64_quad (b64_char (v div 262144)) (b64_char (v div 4096)) (b64_char (v div 64)) (b64_char v) = v"
    and "v mod 64 = 0 \<Longrightarrow>
      b64_quad (b64_char (v div 262144)) (b64_char (v div 4096)) (b64_char (v div 64)) (CHR ''='') = v"
    and "v mod 64 = 0 \<Longrightarrow> v div 64 mod 64 = 0 \<Longrightarrow>
      b64_quad (b64_char (v div 262144)) (b64_char (v div 4096)) (CHR ''='') (CHR ''='') = v"
  using b64_quad_digits [OF assms]
  unfolding b64_quad.simps b64_value_char b64_value_pad by (simp_all only: mult_0_right add_0_right)

declare b64_quad.simps [simp del]

lemma base64_decode_encode: "base64_decode (base64_EncodeToString bs) = Some bs"
proof (induction bs rule: base64_EncodeToString.induct)
  case (2 a)
  define v where "v = 65536 * unat a"
  have "v mod 64 = 0" "v div 64 mod 64 = 0"
    by (simp_all add: v_def)
  with b64_quad_bytes [of a 0 0] b64_quad_chars [of v] show ?case
    by (simp add: Let_def flip: v_def)
next
  case (3 a b)
  define v where "v = 65536 * unat a + 256 * unat b"
  have "v = 64 * (1024 * unat a + 4 * unat b)"
    by (simp add: v_def)
  then have "v mod 64 = 0" by simp
  with b64_quad_bytes [of a b 0] b64_quad_chars [of v] show ?case
    by (simp add: Let_def flip: v_def)
next
  case (4 a b c r)
  define v where "v = 65536 * unat a + 256 * unat b + unat c"
  show ?case
    using 4 b64_quad_bytes [of a b c] b64_quad_chars [of v] by (simp add: Let_def flip: v_def)
qed simp

lemma b64_char_in: "b64_char n \<in> set b64_alphabet"
  unfolding b64_char_def by (rule nth_mem) (simp add: b64_alphabet_def)

lemma base64_alphabet: "set (base64_EncodeToString bs) \<subseteq> insert (CHR ''='') (set b64_alphabet)"
  by (induction bs rule: base64_EncodeToString.induct) (auto simp: Let_def b64_char_in)

interpretation b64c: codec base64_EncodeToString base64_decode "insert (CHR ''='') (set b64_alphabet)"
  by unfold_locales (rule base64_decode_encode, rule base64_alphabet)

end
