(* ===== verification/Go_Crypto.thy ===== *)
theory Go_Crypto
  imports Go_Codec
begin

text \<open>
  The cryptographic parts of Go's standard library under the request signer: \<open>math/big\<close>
  conversions, \<open>crypto/sha256\<close>, \<open>crypto/hmac\<close> over any \<open>hash.Hash\<close>, and scalar multiplication of
  the base point of \<open>elliptic.P256()\<close>.  The locale \<open>hash_alg\<close> is what the key derivation relies on
  of a hash function; SHA-256 is its interpretation.
\<close>

section \<open>Big-endian integers\<close>

text \<open>\<open>big.Int.SetBytes\<close> and \<open>big.Int.Bytes\<close> (no leading zero bytes).\<close>

definition SetBytes :: "bytes \<Rightarrow> nat" where
  "SetBytes bs = foldl (\<lambda>n b. 256 * n + unat b) 0 bs"

fun big_Bytes :: "nat \<Rightarrow> bytes" where
  "big_Bytes n = (if n = 0 then [] else big_Bytes (n div 256) @ [word_of_nat n])"

declare big_Bytes.simps [simp del]

text \<open>\<open>binary.Write(_, binary.BigEndian, int32(i))\<close>.\<close>

definition be32 :: "int \<Rightarrow> bytes" where
  "be32 i = map (\<lambda>k. word_of_int (i div 256 ^ k)) [3, 2, 1, 0]"

lemma SetBytes_foldl: "foldl (\<lambda>n b. 256 * n + unat b) a bs = 256 ^ length bs * a + SetBytes bs"
proof (induction bs rule: rev_induct)
  case Nil
  then show ?case by (simp add: SetBytes_def)
next
  case (snoc b bs)
  then show ?case by (simp add: SetBytes_def algebra_simps)
qed

lemma SetBytes_Nil [simp]: "SetBytes [] = 0"
  by (simp add: SetBytes_def)

lemma SetBytes_Cons: "SetBytes (b # bs) = 256 ^ length bs * unat b + SetBytes bs"
  using SetBytes_foldl [of "unat b" bs] by (simp add: SetBytes_def)

lemma SetBytes_snoc [simp]: "SetBytes (bs @ [b]) = 256 * SetBytes bs + unat b"
  by (simp add: SetBytes_def)

lemma SetBytes_less: "SetBytes bs < 256 ^ length bs"
proof (induction bs rule: rev_induct)
  case Nil
  then show ?case by simp
next
  case (snoc b bs)
  then have "Suc (SetBytes bs) \<le> 256 ^ length bs" by simp
  then have "256 * Suc (SetBytes bs) \<le> 256 * 256 ^ length bs" by (rule mult_le_mono2)
  moreover have "256 * SetBytes bs + unat b < 256 * Suc (SetBytes bs)"
    by simp
  ultimately have "256 * SetBytes bs + unat b < 256 * 256 ^ length bs" by (rule less_le_trans [rotated])
  then show ?case by simp
qed

lemma SetBytes_big_Bytes [simp]: "SetBytes (big_Bytes n) = n"
proof (induction n rule: big_Bytes.induct)
  case (1 n)
  then show ?case
    by (subst big_Bytes.simps) (simp add: unat_of_nat)
qed

lemma length_be32 [simp]: "length (be32 i) = 4"
  by (simp add: be32_def)

section \<open>SHA-256\<close>

type_synonym u32 = "32 word"
type_synonym sha_state = "u32 \<times> u32 \<times> u32 \<times> u32 \<times> u32 \<times> u32 \<times> u32 \<times> u32"

text \<open>
  The round constants and the initial state, in decimal: the first 32 bits of the fractional parts of the
  cube roots of the first 64 primes and of the square roots of the first 8.
\<close>

definition sha256_K :: "u32 list" where
  "sha256_K =
    [1116352408, 1899447441, 3049323471, 3921009573, 961987163, 1508970993, 2453635748, 2870763221,
     3624381080, 310598401, 607225278, 1426881987, 1925078388, 2162078206, 2614888103, 3248222580,
     3835390401, 4022224774, 264347078, 604807628, 770255983, 1249150122, 1555081692, 1996064986,
     2554220882, 2821834349, 2952996808, 3210313671, 3336571891, 3584528711, 113926993, 338241895,
     666307205, 773529912, 1294757372, 1396182291, 1695183700, 1986661051, 2177026350, 2456956037,
     2730485921, 2820302411, 3259730800, 3345764771, 3516065817, 3600352804, 4094571909, 275423344,
     430227734, 506948616, 659060556, 883997877, 958139571, 1322822218, 1537002063, 1747873779, 1955562222,
     2024104815, 2227730452, 2361852424, 2428436474, 2756734187, 3204031479, 3329325298]"

definition sha256_init :: sha_state where
  "sha256_init = (1779033703, 3144134277, 1013904242, 2773480762, 1359893119, 2600822924, 528734635,
     1541459225)"

definition rotr32 :: "nat \<Rightarrow> u32 \<Rightarrow> u32" where
  "rotr32 n x = drop_bit n x OR push_bit (32 - n) x"

definition sha_s0 :: "u32 \<Rightarrow> u32" where
  "sha_s0 x = rotr32 7 x XOR rotr32 18 x XOR drop_bit 3 x"

definition sha_s1 :: "u32 \<Rightarrow> u32" where
  "sha_s1 x = rotr32 17 x XOR rotr32 19 x XOR drop_bit 10 x"

definition sha_S0 :: "u32 \<Rightarrow> u32" where
  "sha_S0 x = rotr32 2 x XOR rotr32 13 x XOR rotr32 22 x"

definition sha_S1 :: "u32 \<Rightarrow> u32" where
  "sha_S1 x = rotr32 6 x XOR rotr32 11 x XOR rotr32 25 x"

text \<open>The message schedule, newest word first.\<close>

fun sha_expand :: "nat \<Rightarrow> u32 list \<Rightarrow> u32 list" where
  "sha_expand 0 ws = ws"
| "sha_expand (Suc n) ws =
     sha_expand n ((sha_s1 (ws ! 1) + ws ! 6 + sha_s0 (ws ! 14) + ws ! 15) # ws)"

fun sha_round :: "sha_state \<Rightarrow> u32 \<times> u32 \<Rightarrow> sha_state" where
  "sha_round (a, b, c, d, e, f, g, h) (k, w) =
     (let t1 = h + sha_S1 e + ((e AND f) XOR (NOT e AND g)) + k + w;
          t2 = sha_S0 a + ((a AND b) XOR (a AND c) XOR (b AND c))
      in (t1 + t2, a, b, c, d + t1, e, f, g))"

fun word_of_be :: "bytes \<Rightarrow> u32" where
  "word_of_be [a, b, c, d] =
     push_bit 24 (ucast a) OR push_bit 16 (ucast b) OR push_bit 8 (ucast c) OR ucast d"
| "word_of_be _ = 0"

definition be_of_word :: "u32 \<Rightarrow> bytes" where
  "be_of_word w = [ucast (drop_bit 24 w), ucast (drop_bit 16 w), ucast (drop_bit 8 w), ucast w]"

fun words_of_block :: "nat \<Rightarrow> bytes \<Rightarrow> u32 list" where
  "words_of_block 0 bs = []"
| "words_of_block (Suc n) bs = word_of_be (take 4 bs) # words_of_block n (drop 4 bs)"

fun sha_add :: "sha_state \<Rightarrow> sha_state \<Rightarrow> sha_state" where
  "sha_add (a, b, c, d, e, f, g, h) (a', b', c', d', e', f', g', h') =
     (a + a', b + b', c + c', d + d', e + e', f + f', g + g', h + h')"

definition sha_compress :: "sha_state \<Rightarrow> bytes \<Rightarrow> sha_state" where
  "sha_compress st bs =
     sha_add st (foldl sha_round st (zip sha256_K (rev (sha_expand 48 (rev (words_of_block 16 bs))))))"

definition sha_pad :: "bytes \<Rightarrow> bytes" where
  "sha_pad m = m @ [0x80] @ replicate ((119 - length m mod 64) mod 64) 0 @
     (let n = word_of_nat (8 * length m) :: 64 word
      in be_of_word (ucast (drop_bit 32 n)) @ be_of_word (ucast n))"

function sha_blocks :: "sha_state \<Rightarrow> bytes \<Rightarrow> sha_state" where
  "sha_blocks st bs =
     (if length bs < 64 then st else sha_blocks (sha_compress st (take 64 bs)) (drop 64 bs))"
  by pat_completeness auto
termination
  by (relation "measure (\<lambda>(st, bs). length bs)") auto

declare sha_blocks.simps [simp del]

fun sha_bytes :: "sha_state \<Rightarrow> bytes" where
  "sha_bytes (a, b, c, d, e, f, g, h) =
     be_of_word a @ be_of_word b @ be_of_word c @ be_of_word d @
     be_of_word e @ be_of_word f @ be_of_word g @ be_of_word h"

definition sha256 :: "bytes \<Rightarrow> bytes" where
  "sha256 m = sha_bytes (sha_blocks sha256_init (sha_pad m))"

lemma length_be_of_word [simp]: "length (be_of_word w) = 4"
  by (simp add: be_of_word_def)

lemma length_sha_bytes [simp]: "length (sha_bytes st) = 32"
  by (cases st rule: sha_bytes.cases) simp

lemma length_sha256 [simp]: "length (sha256 m) = 32"
  by (simp add: sha256_def)

section \<open>Hash functions and HMAC\<close>

text \<open>A \<open>hash.Hash\<close> constructor: its output size, its block size and the digest of a message.\<close>

record go_hash =
  h_Size :: nat
  h_BlockSize :: nat
  h_Sum :: "bytes \<Rightarrow> bytes"

definition sha256_hash :: go_hash where
  "sha256_hash = \<lparr>h_Size = 32, h_BlockSize = 64, h_Sum = sha256\<rparr>"

definition hmac :: "go_hash \<Rightarrow> bytes \<Rightarrow> bytes \<Rightarrow> bytes" where
  "hmac H key msg =
     (let k0 = (if length key > h_BlockSize H then h_Sum H key else key);
          k = k0 @ replicate (h_BlockSize H - length k0) 0
      in h_Sum H (map (\<lambda>b. b XOR 0x5c) k @ h_Sum H (map (\<lambda>b. b XOR 0x36) k @ msg)))"

locale hash_alg =
  fixes H :: go_hash
  assumes length_Sum: "length (h_Sum H m) = h_Size H"
    and Size_pos: "0 < h_Size H"
begin

lemma length_hmac: "length (hmac H key msg) = h_Size H"
  by (simp add: hmac_def Let_def length_Sum)

lemma length_hmac_concat: "length (concat (map (\<lambda>i. hmac H key (f i)) is)) = h_Size H * length is"
  by (induction "is") (simp_all add: length_hmac)

end

interpretation sha: hash_alg sha256_hash
  by unfold_locales (simp_all add: sha256_hash_def)

section \<open>The curve P-256\<close>

text \<open>
  Short Weierstrass arithmetic over the prime field, with \<^const>\<open>None\<close> for the point at infinity.
\<close>

definition P256_P :: int where
  "P256_P = 0xffffffff00000001000000000000000000000000ffffffffffffffffffffffff"

definition P256_N :: nat where
  "P256_N = 0xffffffff00000000ffffffffffffffffbce6faada7179e84f3b9cac2fc632551"

definition P256_B :: int where
  "P256_B = 0x5ac635d8aa3a93e7b3ebbd55769886bc651d06b0cc53b0f63bce3c3e27d2604b"

definition P256_Gx :: int where
  "P256_Gx = 0x6b17d1f2e12c4247f8bce6e563a440f277037d812deb33a0f4a13945d898c296"

definition P256_Gy :: int where
  "P256_Gy = 0x4fe342e2fe1a7f9b8ee7eb4a7c0f9e162bce33576b315ececbb6406837bf51f5"

definition P256_BitSize :: int where
  "P256_BitSize = 256"

type_synonym point = "(int \<times> int) option"

fun pow_mod :: "int \<Rightarrow> nat \<Rightarrow> int" where
  "pow_mod b e =
     (if e = 0 then 1
      else let h = pow_mod (b * b mod P256_P) (e div 2)
           in if e mod 2 = 1 then b * h mod P256_P else h)"

declare pow_mod.simps [simp del]

definition inv_mod :: "int \<Rightarrow> int" where
  "inv_mod a = pow_mod (a mod P256_P) (nat P256_P - 2)"

fun ec_add :: "point \<Rightarrow> point \<Rightarrow> point" where
  "ec_add None q = q"
| "ec_add p None = p"
| "ec_add (Some (x1, y1)) (Some (x2, y2)) =
     (if x1 = x2 \<and> (y1 + y2) mod P256_P = 0 then None
      else let l = (if x1 = x2 then (3 * x1 * x1 - 3) * inv_mod (2 * y1)
                    else (y2 - y1) * inv_mod (x2 - x1)) mod P256_P;
               x3 = (l * l - x1 - x2) mod P256_P
           in Some (x3, (l * (x1 - x3) - y1) mod P256_P))"

fun ec_mul :: "nat \<Rightarrow> point \<Rightarrow> point" where
  "ec_mul k p =
     (if k = 0 then None
      else let h = ec_mul (k div 2) (ec_add p p)
           in if k mod 2 = 1 then ec_add p h else h)"

declare ec_mul.simps [simp del]

definition ScalarBaseMult :: "bytes \<Rightarrow> int \<times> int" where
  "ScalarBaseMult k =
     (case ec_mul (SetBytes k mod P256_N) (Some (P256_Gx, P256_Gy)) of
        None \<Rightarrow> (0, 0) | Some xy \<Rightarrow> xy)"

text \<open>\<open>elliptic.Curve.IsOnCurve\<close>: coordinates in range that satisfy the curve equation.\<close>

definition IsOnCurve :: "int \<Rightarrow> int \<Rightarrow> bool" where
  "IsOnCurve x y \<longleftrightarrow> 0 \<le> x \<and> x < P256_P \<and> 0 \<le> y \<and> y < P256_P \<and>
     (y * y - (x * x * x - 3 * x + P256_B)) mod P256_P = 0"

end
