(* ===== verification/V4a_Crypto.thy ===== *)
theory V4a_Crypto
  imports Go_Crypto
begin

text \<open>
  Package internal/sign/v4a/crypto: the constant-time comparison (compare.go) and the key
  derivation and ECDSA key helpers (ecc.go).
\<close>

section \<open>compare.go\<close>

text \<open>
  One iteration of the loop of \<open>ConstantTimeByteCompare\<close>: the borrow bit of each difference of the
  two bytes, recorded only while the other side has not been found larger.  The Go code works on
  \<open>int\<close>; all values stay in \<open>[-255, 255]\<close>, so no operation overflows.
\<close>

fun ct_step :: "int \<times> int \<Rightarrow> byte \<times> byte \<Rightarrow> int \<times> int" where
  "ct_step (xLarger, yLarger) (xb, yb) =
     (let xByte = uint xb; yByte = uint yb;
          x = drop_bit 8 (yByte - xByte) AND 1;
          y = drop_bit 8 (xByte - yByte) AND 1;
          xLarger' = xLarger OR (x AND NOT yLarger);
          yLarger' = yLarger OR (y AND NOT xLarger')
      in (xLarger', yLarger'))"

definition ConstantTimeByteCompare :: "bytes \<Rightarrow> bytes \<Rightarrow> int outcome" where
  "ConstantTimeByteCompare x y =
     (if length x \<noteq> length y then Err (FmtError ''slice lengths do not match'' None)
      else let (xLarger, yLarger) = foldl ct_step (0, 0) (zip x y) in Ok (xLarger - yLarger))"

lemma borrow_bit:
  assumes "0 \<le> a" "a < 256" "0 \<le> b" "b < (256 :: int)"
  shows "drop_bit 8 (b - a) AND 1 = of_bool (b < a)"
proof -
  have "(b - a) div 256 = (if b < a then -1 else 0)"
    using assms by (simp split: if_split) linarith
  then show ?thesis by (simp add: drop_bit_eq_div)
qed

lemma ct_step_bits:
  "ct_step (s, t) (a, b) =
     (let s' = s OR (of_bool (b < a) AND NOT t) in (s', t OR (of_bool (a < b) AND NOT s')))"
  unfolding ct_step.simps Let_def
  by (simp only: borrow_bit uint_ge_0 uint_byte_lt word_less_def)

declare ct_step.simps [simp del]

lemma ct_step_equal:
  "ct_step (0, 0) (a, b) = (if b < a then (1, 0) else if a < b then (0, 1) else (0, 0))"
  by (cases a b rule: linorder_cases) (auto simp: ct_step_bits)

lemma ct_step_decided: "ct_step (1, 0) ab = (1, 0)" "ct_step (0, 1) ab = (0, 1)"
  by (cases ab; cases "fst ab" "snd ab" rule: linorder_cases; simp add: ct_step_bits)+

lemma foldl_ct_decided: "foldl ct_step (1, 0) l = (1, 0)" "foldl ct_step (0, 1) l = (0, 1)"
  by (induction l) (simp_all add: ct_step_decided)

text \<open>The fold decides the order of the two big-endian numbers at the first differing byte.\<close>

lemma foldl_ct_SetBytes:
  "length x = length y \<Longrightarrow>
   foldl ct_step (0, 0) (zip x y) =
     (if SetBytes y < SetBytes x then (1, 0) else if SetBytes x < SetBytes y then (0, 1) else (0, 0))"
proof (induction x y rule: list_induct2)
  case Nil
  then show ?case by simp
next
  case (Cons a x b y)
  have lt: "SetBytes (c # u) < SetBytes (d # v)" if "c < d" "length u = length v" for c d u v
  proof -
    have "unat c + 1 \<le> unat d" using that(1) by (simp add: word_less_nat_alt)
    then have "256 ^ length v * (unat c + 1) \<le> 256 ^ length v * unat d" by (rule mult_le_mono2)
    then show ?thesis
      using SetBytes_less [of u] that(2) by (simp add: SetBytes_Cons)
  qed
  show ?case
  proof (cases a b rule: linorder_cases)
    case less
    with \<open>length x = length y\<close> show ?thesis
      using lt [of a b x y] by (simp add: ct_step_equal foldl_ct_decided)
  next
    case equal
    with Cons show ?thesis by (simp add: ct_step_equal SetBytes_Cons)
  next
    case greater
    with \<open>length x = length y\<close> show ?thesis
      using lt [of b a y x] by (simp add: ct_step_equal foldl_ct_decided)
  qed
qed

lemma ConstantTimeByteCompare_eq:
  "ConstantTimeByteCompare x y =
     (if length x = length y then Ok (sgn (int (SetBytes x) - int (SetBytes y)))
      else Err (FmtError ''slice lengths do not match'' None))"
  by (auto simp: ConstantTimeByteCompare_def foldl_ct_SetBytes sgn_if)

section \<open>ecc.go: keys\<close>

record elliptic_curve =
  cv_N :: nat
  cv_BitSize :: int
  cv_ScalarBaseMult :: "bytes \<Rightarrow> int \<times> int"
  cv_IsOnCurve :: "int \<Rightarrow> int \<Rightarrow> bool"

definition elliptic_P256 :: elliptic_curve where
  "elliptic_P256 =
     \<lparr>cv_N = P256_N, cv_BitSize = P256_BitSize,
      cv_ScalarBaseMult = ScalarBaseMult, cv_IsOnCurve = IsOnCurve\<rparr>"

record ecdsa_public_key =
  pub_X :: int
  pub_Y :: int

record ecdsa_private_key =
  priv_Public :: ecdsa_public_key
  priv_D :: nat

definition ECDSAKeyFromPoint :: "elliptic_curve \<Rightarrow> nat \<Rightarrow> ecdsa_private_key" where
  "ECDSAKeyFromPoint curve d =
     (let (pX, pY) = cv_ScalarBaseMult curve (big_Bytes d)
      in \<lparr>priv_Public = \<lparr>pub_X = pX, pub_Y = pY\<rparr>, priv_D = d\<rparr>)"

definition ECDSAKey :: "elliptic_curve \<Rightarrow> bytes \<Rightarrow> ecdsa_private_key" where
  "ECDSAKey curve d = ECDSAKeyFromPoint curve (SetBytes d)"

definition ECDSAPublicKey :: "elliptic_curve \<Rightarrow> bytes \<Rightarrow> bytes \<Rightarrow> ecdsa_public_key outcome" where
  "ECDSAPublicKey curve x y =
     (let xPoint = int (SetBytes x); yPoint = int (SetBytes y)
      in if \<not> cv_IsOnCurve curve xPoint yPoint
         then Err (FmtError (''point('' @ FormatInt xPoint @ '', '' @ FormatInt yPoint @
                             '') is not on the given curve'') None)
         else Ok \<lparr>pub_X = xPoint, pub_Y = yPoint\<rparr>)"

section \<open>ecc.go: key derivation in counter mode\<close>

text \<open>
  \<open>HMACKeyDerivation\<close>.  The number of iterations is the ceiling of \<open>bitLen/8\<close> over the digest size;
  the Go code computes it in \<open>float64\<close>, which is exact for every \<open>bitLen\<close> that passes the second
  check, and both checks fail alike above it.  The loop runs on an \<open>int64\<close> counter and appends one
  HMAC per iteration.
\<close>

function kdf_loop :: "go_hash \<Rightarrow> bytes \<Rightarrow> bytes \<Rightarrow> int \<Rightarrow> int \<Rightarrow> bytes \<Rightarrow> bytes" where
  "kdf_loop H key fixedInput i n out =
     (if i \<le> n
      then kdf_loop H key fixedInput (i + 1) n (out @ hmac H key (be32 i @ fixedInput))
      else out)"
  by pat_completeness auto
termination
  by (relation "measure (\<lambda>(H, key, fixedInput, i, n, out). nat (n + 1 - i))") auto

declare kdf_loop.simps [simp del]

definition HMACKeyDerivation ::
    "go_hash \<Rightarrow> int \<Rightarrow> bytes \<Rightarrow> bytes \<Rightarrow> bytes \<Rightarrow> bytes outcome" where
  "HMACKeyDerivation H bitLen key label context =
     (let n = - ((- bitLen) div (8 * int (h_Size H)))
      in if n > 0x7FFFFFFF
         then Err (FmtError (''unable to derive key of size '' @ FormatInt bitLen @
                             '' using 32-bit counter'') None)
         else if bitLen > 0x7FFFFFFF
         then Err (FmtError ''bitLen is greater than 32-bits'' None)
         else let fixedInput = label @ [0x00] @ context @ be32 bitLen
              in slice_to (kdf_loop H key fixedInput 1 n []) (go_quot bitLen 8))"

lemma kdf_loop_eq:
  "kdf_loop H key fixedInput i n out =
     out @ concat (map (\<lambda>j. hmac H key (be32 j @ fixedInput)) [i..n])"
proof (induction H key fixedInput i n out rule: kdf_loop.induct)
  case (1 H key fixedInput i n out)
  show ?case
  proof (cases "i \<le> n")
    case True
    with 1 show ?thesis
      by (simp add: kdf_loop.simps [of H key fixedInput i n] upto_rec1)
  next
    case False
    then show ?thesis by (simp add: kdf_loop.simps [of H key fixedInput i n])
  qed
qed

lemma ceil_div_le: "0 \<le> b \<Longrightarrow> 0 < m \<Longrightarrow> - ((- b) div m) \<le> (b :: int)"
  using zdiv_mono2_neg [of "- b" 1 m] by (cases "b = 0") auto

text \<open>
  Within a hash function's contract the derivation succeeds for every bit length of 31 bits, and
  returns the leading bytes of the concatenated PRF outputs \<open>HMAC(key, [i] || label || 0 || context || [L])\<close>.
\<close>

definition kdf_stream :: "go_hash \<Rightarrow> int \<Rightarrow> bytes \<Rightarrow> bytes \<Rightarrow> bytes \<Rightarrow> bytes" where
  "kdf_stream H bitLen key label context =
     concat (map (\<lambda>i. hmac H key (be32 i @ label @ [0] @ context @ be32 bitLen))
                 [1..- ((- bitLen) div (8 * int (h_Size H)))])"

context hash_alg
begin

lemma kdf_iterations_enough:
  assumes "0 \<le> bitLen"
  shows "bitLen div 8 \<le> int (length (kdf_stream H bitLen key label context))"
proof -
  define m where "m = 8 * int (h_Size H)"
  have m: "0 < m" using Size_pos by (simp add: m_def)
  have "m * ((- bitLen) div m) \<le> - bitLen"
    by (metis m mult.commute mult_div_mod_eq le_add_same_cancel1 pos_mod_sign add.commute)
  then have "bitLen \<le> 8 * (int (h_Size H) * (- ((- bitLen) div m)))"
    by (simp add: m_def)
  moreover have "0 \<le> - ((- bitLen) div m)"
    using assms m by (simp add: div_nonpos_pos_le0)
  ultimately show ?thesis
    unfolding m_def by (simp add: kdf_stream_def length_hmac_concat)
qed

lemma HMACKeyDerivation_stream:
  assumes "0 \<le> bitLen" "bitLen \<le> 0x7FFFFFFF"
  shows "HMACKeyDerivation H bitLen key label context =
      Ok (take (nat (bitLen div 8)) (kdf_stream H bitLen key label context))"
    and "length (take (nat (bitLen div 8)) (kdf_stream H bitLen key label context)) = nat (bitLen div 8)"
proof -
  have "- ((- bitLen) div (8 * int (h_Size H))) \<le> bitLen"
    using assms Size_pos by (intro ceil_div_le) auto
  moreover have "go_quot bitLen 8 = bitLen div 8"
    using assms by (cases "bitLen = 0") (auto simp: go_quot_def)
  ultimately show "HMACKeyDerivation H bitLen key label context =
      Ok (take (nat (bitLen div 8)) (kdf_stream H bitLen key label context))"
    using assms kdf_iterations_enough [OF assms(1), of key label "context"]
    by (auto simp: HMACKeyDerivation_def Let_def slice_to_def kdf_loop_eq kdf_stream_def)
  show "length (take (nat (bitLen div 8)) (kdf_stream H bitLen key label context)) = nat (bitLen div 8)"
    using kdf_iterations_enough [OF assms(1), of key label "context"] by simp
qed

end

end
