(* ===== verification/Go_Url.thy ===== *)
theory Go_Url
  imports Go_Codec
begin

text \<open>
  The parts of \<open>net/url\<close> and \<open>net/http\<close> the request signer uses: the URL record, percent
  encoding, query parsing and encoding, parsing of absolute URLs, header maps with canonical keys,
  and \<open>http.NewRequest\<close>.
\<close>

section \<open>Percent encoding\<close>

datatype encoding = encodePath | encodeQueryComponent

definition is_alnum :: "char \<Rightarrow> bool" where
  "is_alnum c \<longleftrightarrow> (CHR ''a'' \<le> c \<and> c \<le> CHR ''z'') \<or> (CHR ''A'' \<le> c \<and> c \<le> CHR ''Z'') \<or>
                  (CHR ''0'' \<le> c \<and> c \<le> CHR ''9'')"

fun shouldEscape :: "char \<Rightarrow> encoding \<Rightarrow> bool" where
  "shouldEscape c mode =
     (if is_alnum c \<or> c \<in> set ''-_.~'' then False
      else if c \<in> set ''$&+,/:;=?@'' then
        (case mode of encodePath \<Rightarrow> c = CHR ''?'' | encodeQueryComponent \<Rightarrow> True)
      else True)"

definition upperhex :: string where
  "upperhex = ''0123456789ABCDEF''"

definition percent :: "char \<Rightarrow> string" where
  "percent c = [CHR ''%'', upperhex ! (of_char c div 16), upperhex ! (of_char c mod 16)]"

definition escape :: "encoding \<Rightarrow> string \<Rightarrow> string" where
  "escape mode s =
     concat (map (\<lambda>c. if c = CHR '' '' \<and> mode = encodeQueryComponent then ''+''
                      else if shouldEscape c mode then percent c else [c]) s)"

definition unhex :: "char \<Rightarrow> nat option" where
  "unhex c =
     (if CHR ''0'' \<le> c \<and> c \<le> CHR ''9'' then Some (of_char c - 48)
      else if CHR ''a'' \<le> c \<and> c \<le> CHR ''f'' then Some (of_char c - 87)
      else if CHR ''A'' \<le> c \<and> c \<le> CHR ''F'' then Some (of_char c - 55)
      else None)"

text \<open>\<open>unescape\<close>; \<^const>\<open>None\<close> is an invalid escape.\<close>

fun unescape :: "encoding \<Rightarrow> string \<Rightarrow> string option" where
  "unescape mode [] = Some []"
| "unescape mode (c # cs) =
     (if c = CHR ''%'' then
        (case cs of
           h # l # r \<Rightarrow>
             (case (unhex h, unhex l, unescape mode r) of
                (Some i, Some j, Some t) \<Rightarrow> Some (char_of (16 * i + j) # t)
              | _ \<Rightarrow> None)
         | _ \<Rightarrow> None)
      else map_option ((#) (if c = CHR ''+'' \<and> mode = encodeQueryComponent then CHR '' '' else c))
                      (unescape mode cs))"

lemma unhex_upperhex: "n < 16 \<Longrightarrow> unhex (upperhex ! n) = Some n"
proof -
  have "\<forall>n < 16. unhex (upperhex ! n) = Some n"
    by (simp add: upperhex_def unhex_def less_eq_char_def All_less_Suc numeral_eq_Suc)
  then show "n < 16 \<Longrightarrow> ?thesis" by simp
qed

lemma unescape_percent [simp]:
  "unescape mode (percent c @ t) = map_option ((#) c) (unescape mode t)"
proof -
  have "of_char c div 16 < (16 :: nat)"
    using nat_of_char_less_256 [of c] by (simp add: less_mult_imp_div_less)
  then show ?thesis
    by (simp add: percent_def unhex_upperhex split: option.splits)
qed

text \<open>Escaping is undone by unescaping, in both modes.\<close>

lemma unescape_escape: "unescape mode (escape mode s) = Some s"
proof (induction s)
  case Nil
  then show ?case by (simp add: escape_def)
next
  case (Cons c s)
  have esc: "shouldEscape (CHR ''%'') mode" "mode = encodeQueryComponent \<Longrightarrow> shouldEscape (CHR ''+'') mode"
    by (simp_all add: is_alnum_def less_eq_char_def)
  have "escape mode (c # s) =
      (if c = CHR '' '' \<and> mode = encodeQueryComponent then ''+''
       else if shouldEscape c mode then percent c else [c]) @ escape mode s"
    by (simp add: escape_def)
  with Cons esc show ?case by (auto simp del: shouldEscape.simps)
qed

section \<open>URLs\<close>

record go_url =
  u_Scheme :: string
  u_Opaque :: string
  u_Host :: string
  u_Path :: string
  u_RawPath :: string
  u_RawQuery :: string

fun validEncodedPath :: "string \<Rightarrow> bool" where
  "validEncodedPath [] = True"
| "validEncodedPath (c # cs) =
     ((c \<in> set ''!$&()*+,;=:@[]%'' \<or> c = CHR 0x27 \<or> \<not> shouldEscape c encodePath) \<and> validEncodedPath cs)"

definition EscapedPath :: "go_url \<Rightarrow> string" where
  "EscapedPath u =
     (if u_RawPath u \<noteq> [] \<and> validEncodedPath (u_RawPath u) \<and>
         unescape encodePath (u_RawPath u) = Some (u_Path u)
      then u_RawPath u
      else if u_Path u = ''*'' then ''*''
      else escape encodePath (u_Path u))"

section \<open>Query values\<close>

type_synonym url_values = "string list gomap"

definition values_Set :: "string \<Rightarrow> string \<Rightarrow> url_values \<Rightarrow> url_values" where
  "values_Set k v q = AList.update k [v] q"

definition values_Add :: "string \<Rightarrow> string \<Rightarrow> url_values \<Rightarrow> url_values" where
  "values_Add k v q = AList.update k (map_get [] q k @ [v]) q"

text \<open>\<open>strings.Cut(s, c)\<close>.\<close>

definition Cut :: "string \<Rightarrow> char \<Rightarrow> string \<times> string" where
  "Cut s c = (case IndexByte s c of None \<Rightarrow> (s, []) | Some i \<Rightarrow> (take i s, drop (Suc i) s))"

text \<open>\<open>URL.Query\<close>: parts that hold a semicolon or do not decode are dropped.\<close>

definition query_part :: "string \<Rightarrow> url_values \<Rightarrow> url_values" where
  "query_part part q =
     (if part = [] \<or> CHR '';'' \<in> set part then q
      else let (k, v) = Cut part (CHR ''='')
           in (case (unescape encodeQueryComponent k, unescape encodeQueryComponent v) of
                 (Some k', Some v') \<Rightarrow> values_Add k' v' q
               | _ \<Rightarrow> q))"

definition ParseQuery :: "string \<Rightarrow> url_values" where
  "ParseQuery s = foldl (\<lambda>q part. query_part part q) [] (Split s (CHR ''&''))"

text \<open>\<open>Values.Encode\<close>: sorted by key, every value of a key in order.\<close>

definition values_Encode :: "url_values \<Rightarrow> string" where
  "values_Encode q =
     Join (concat (map (\<lambda>k. map (\<lambda>v. escape encodeQueryComponent k @ ''='' @
                                      escape encodeQueryComponent v) (map_get [] q k))
                       (sort (map fst q))))
          ''&''"

lemma wf_query_part [intro]: "wf_map q \<Longrightarrow> wf_map (query_part part q)"
  by (auto simp: query_part_def values_Add_def split: prod.splits option.splits)

lemma wf_ParseQuery [simp, intro]: "wf_map (ParseQuery s)"
proof -
  have "wf_map q \<Longrightarrow> wf_map (foldl (\<lambda>q part. query_part part q) q ps)" for q ps
    by (induction ps arbitrary: q) auto
  then show ?thesis by (simp add: ParseQuery_def)
qed

section \<open>Parsing\<close>

definition url_error :: "string \<Rightarrow> string \<Rightarrow> goerror" where
  "url_error raw msg = FmtError (''parse '' @ raw @ '': '' @ msg) None"

text \<open>\<open>getScheme\<close>: the scheme and the rest; no scheme where the first colon comes too late.\<close>

fun getScheme :: "string \<Rightarrow> string \<Rightarrow> (string \<times> string) option" where
  "getScheme pre [] = Some ([], pre)"
| "getScheme pre (c # cs) =
     (if (CHR ''a'' \<le> c \<and> c \<le> CHR ''z'') \<or> (CHR ''A'' \<le> c \<and> c \<le> CHR ''Z'')
      then getScheme (pre @ [c]) cs
      else if is_alnum c \<or> c \<in> set ''+-.''
      then (if pre = [] then Some ([], c # cs) else getScheme (pre @ [c]) cs)
      else if c = CHR '':'' then (if pre = [] then None else Some (pre, cs))
      else Some ([], pre @ c # cs))"

definition validOptionalPort :: "string \<Rightarrow> bool" where
  "validOptionalPort p \<longleftrightarrow>
     p = [] \<or> (hd p = CHR '':'' \<and> (\<forall>c \<in> set (tl p). CHR ''0'' \<le> c \<and> c \<le> CHR ''9''))"

text \<open>
  \<open>parseHost\<close> for host names, IPv4 addresses and bracketed IPv6 addresses.  Hosts with user
  information, percent escapes or zones do not occur in the program and are reported as errors.
\<close>

definition host_char :: "char \<Rightarrow> bool" where
  "host_char c \<longleftrightarrow> is_alnum c \<or> c \<in> set ''-_.~!$&()*+,;=:[]<>'' \<or> c = CHR 0x27 \<or> c = CHR 0x22 \<or>
                   CHR 0x80 \<le> c"

definition parseHost :: "string \<Rightarrow> string option" where
  "parseHost host =
     (if \<not> list_all host_char host then None
      else if HasPrefix host ''['' then
        (case LastIndexByte host (CHR '']'') of
           None \<Rightarrow> None
         | Some i \<Rightarrow> if validOptionalPort (drop (Suc i) host) then Some host else None)
      else (case LastIndexByte host (CHR '':'') of
              None \<Rightarrow> Some host
            | Some i \<Rightarrow> if validOptionalPort (drop i host) then Some host else None))"

definition is_ctl :: "char \<Rightarrow> bool" where
  "is_ctl c \<longleftrightarrow> c < CHR '' '' \<or> c = CHR 0x7F"

text \<open>\<open>setPath\<close>: the decoded path, and the raw one where it is not the default encoding.\<close>

definition setPath :: "string \<Rightarrow> go_url \<Rightarrow> go_url option" where
  "setPath p u =
     (case unescape encodePath p of
        None \<Rightarrow> None
      | Some path \<Rightarrow>
          Some (u\<lparr>u_Path := path, u_RawPath := (if p = escape encodePath path then [] else p)\<rparr>))"

definition url_Parse :: "string \<Rightarrow> go_url outcome" where
  "url_Parse raw0 =
     (let raw = fst (Cut raw0 (CHR ''#'')); zero = \<lparr>u_Scheme = [], u_Opaque = [], u_Host = [],
            u_Path = [], u_RawPath = [], u_RawQuery = []\<rparr>
      in if list_ex is_ctl raw then Err (url_error raw ''invalid control character in URL'')
         else if raw = ''*'' then Ok (zero\<lparr>u_Path := ''*''\<rparr>)
         else case getScheme [] raw of
           None \<Rightarrow> Err (url_error raw ''missing protocol scheme'')
         | Some (scheme, rest0) \<Rightarrow>
             let (rest, rawQuery) = Cut rest0 (CHR ''?'');
                 u = zero\<lparr>u_Scheme := ToLower scheme, u_RawQuery := rawQuery\<rparr>
             in if \<not> HasPrefix rest ''/'' \<and> scheme \<noteq> [] then Ok (u\<lparr>u_Opaque := rest\<rparr>)
                else if \<not> HasPrefix rest ''/'' \<and> CHR '':'' \<in> set (fst (Cut rest (CHR ''/'')))
                then Err (url_error raw ''first path segment in URL cannot contain colon'')
                else if (scheme \<noteq> [] \<or> \<not> HasPrefix rest ''///'') \<and> HasPrefix rest ''//'' then
                  (let auth = drop 2 rest;
                       (authority, path) = (case IndexByte auth (CHR ''/'') of
                                              None \<Rightarrow> (auth, []) | Some i \<Rightarrow> (take i auth, drop i auth))
                   in case parseHost authority of
                        None \<Rightarrow> Err (url_error raw ''invalid host'')
                      | Some host \<Rightarrow>
                          (case setPath path (u\<lparr>u_Host := host\<rparr>) of
                             None \<Rightarrow> Err (url_error raw ''invalid URL escape'')
                           | Some u' \<Rightarrow> Ok u'))
                else (case setPath rest u of
                        None \<Rightarrow> Err (url_error raw ''invalid URL escape'')
                      | Some u' \<Rightarrow> Ok u'))"

section \<open>Headers and requests\<close>

type_synonym http_header = "string list gomap"

definition token_char :: "char \<Rightarrow> bool" where
  "token_char c \<longleftrightarrow> is_alnum c \<or> c \<in> set ''!#$%&*+-.^_`|~'' \<or> c = CHR 0x27"

fun canonical_chars :: "bool \<Rightarrow> string \<Rightarrow> string" where
  "canonical_chars upper [] = []"
| "canonical_chars upper (c # cs) =
     (if upper then upper_char c else lower_char c) # canonical_chars (c = CHR ''-'') cs"

definition CanonicalMIMEHeaderKey :: "string \<Rightarrow> string" where
  "CanonicalMIMEHeaderKey s = (if list_all token_char s then canonical_chars True s else s)"

definition header_Set :: "string \<Rightarrow> string \<Rightarrow> http_header \<Rightarrow> http_header" where
  "header_Set k v h = AList.update (CanonicalMIMEHeaderKey k) [v] h"

definition header_Add :: "string \<Rightarrow> string \<Rightarrow> http_header \<Rightarrow> http_header" where
  "header_Add k v h =
     (let c = CanonicalMIMEHeaderKey k in AList.update c (map_get [] h c @ [v]) h)"

record http_request =
  r_Method :: string
  r_URL :: go_url
  r_Header :: http_header
  r_Host :: string
  r_ContentLength :: int
  r_Body :: bytes

definition removeEmptyPort :: "string \<Rightarrow> string" where
  "removeEmptyPort host =
     (if LastIndexByte host (CHR '':'') = Some (length host - 1) \<and>
         (case LastIndexByte host (CHR '']'') of None \<Rightarrow> True | Some j \<Rightarrow> j < length host - 1)
      then butlast host else host)"

definition http_NewRequest :: "string \<Rightarrow> string \<Rightarrow> bytes \<Rightarrow> http_request outcome" where
  "http_NewRequest method0 url body =
     (let method = (if method0 = [] then ''GET'' else method0)
      in if \<not> list_all token_char method
         then Err (FmtError (''net/http: invalid method '' @ method) None)
         else case url_Parse url of
           Err e \<Rightarrow> Err e
         | Panic p \<Rightarrow> Panic p
         | Ok u \<Rightarrow>
             let host = removeEmptyPort (u_Host u)
             in Ok \<lparr>r_Method = method, r_URL = u\<lparr>u_Host := host\<rparr>, r_Header = [], r_Host = host,
                    r_ContentLength = int (length body), r_Body = body\<rparr>)"

lemma wf_header_Set [simp, intro]: "wf_map h \<Longrightarrow> wf_map (header_Set k v h)"
  by (simp add: header_Set_def)

lemma http_NewRequest_no_panic: "http_NewRequest m u b \<noteq> Panic p"
  by (auto simp: http_NewRequest_def url_Parse_def Let_def split: outcome.splits option.splits prod.splits)

end
