(* ===== verification/V4_Util.thy ===== *)
theory V4_Util
  imports Go_Url Go_Crypto
begin

text \<open>
  Package internal/sign/v4a/v4, files const.go and util.go: the constants, \<open>StripExcessSpaces\<close> with
  its proof against a reference definition, and \<open>GetURIPath\<close>.
\<close>

section \<open>const.go\<close>

definition EmptyStringSHA256 :: string where
  "EmptyStringSHA256 = ''e3b0c44298fc1c149afbf4c8996fb92427ae41e4649b934ca495991b7852b855''"

definition AmzAlgorithmKey :: string where "AmzAlgorithmKey = ''X-Amz-Algorithm''"
definition AmzSecurityTokenKey :: string where "AmzSecurityTokenKey = ''X-Amz-Security-Token''"
definition AmzDateKey :: string where "AmzDateKey = ''X-Amz-Date''"
definition AmzCredentialKey :: string where "AmzCredentialKey = ''X-Amz-Credential''"
definition AmzSignedHeadersKey :: string where "AmzSignedHeadersKey = ''X-Amz-SignedHeaders''"

definition TimeFormatLayout :: string where "TimeFormatLayout = ''20060102T150405Z''"
definition ShortTimeFormatLayout :: string where "ShortTimeFormatLayout = ''20060102''"

lemmas v4_consts = EmptyStringSHA256_def AmzAlgorithmKey_def AmzSecurityTokenKey_def AmzDateKey_def
  AmzCredentialKey_def AmzSignedHeadersKey_def TimeFormatLayout_def ShortTimeFormatLayout_def

section \<open>util.go: StripExcessSpaces\<close>

text \<open>
  The three loops of \<open>StripExcessSpaces\<close>.  \<open>trim_trailing\<close> walks \<open>j\<close> down over trailing spaces,
  \<open>trim_leading\<close> walks \<open>k\<close> up to at most \<open>j\<close>, and \<open>squeeze_loop\<close> rewrites the buffer in place from
  the first double space on: \<open>k\<close> reads, \<open>m\<close> writes, \<open>spaces\<close> counts the current run.
\<close>

function trim_trailing :: "string \<Rightarrow> int \<Rightarrow> int" where
  "trim_trailing str j =
     (if j \<ge> 0 \<and> str ! nat j = CHR '' '' then trim_trailing str (j - 1) else j)"
  by pat_completeness auto
termination
  by (relation "measure (\<lambda>(str, j). nat (j + 1))") auto

function trim_leading :: "string \<Rightarrow> int \<Rightarrow> nat \<Rightarrow> nat" where
  "trim_leading str j k =
     (if int k < j \<and> str ! k = CHR '' '' then trim_leading str j (Suc k) else k)"
  by pat_completeness auto
termination
  by (relation "measure (\<lambda>(str, j, k). nat (j - int k))") auto

function squeeze_loop :: "string \<Rightarrow> nat \<Rightarrow> nat \<Rightarrow> nat \<Rightarrow> string \<times> nat" where
  "squeeze_loop buf k m spaces =
     (if k < length buf then
        if buf ! k = CHR '' '' then
          (if spaces = 0 then squeeze_loop (buf[m := buf ! k]) (Suc k) (Suc m) (Suc spaces)
           else squeeze_loop buf (Suc k) m (Suc spaces))
        else squeeze_loop (buf[m := buf ! k]) (Suc k) (Suc m) 0
      else (buf, m))"
  by pat_completeness auto
termination
  by (relation "measure (\<lambda>(buf, k, m, spaces). length buf - k)") auto

declare trim_trailing.simps [simp del] trim_leading.simps [simp del] squeeze_loop.simps [simp del]

definition doubleSpace :: string where
  "doubleSpace = ''  ''"

definition StripExcessSpaces :: "string \<Rightarrow> string" where
  "StripExcessSpaces str0 =
     (let j = trim_trailing str0 (int (length str0) - 1);
          k = trim_leading str0 j 0;
          str = drop k (take (nat (j + 1)) str0)
      in case Index str doubleSpace of
           None \<Rightarrow> str
         | Some i \<Rightarrow> (let (buf, m) = squeeze_loop str i i 0 in take m buf))"

text \<open>The reference: the maximal runs of non-space bytes, joined by single spaces.\<close>

definition space_words :: "string \<Rightarrow> string list" where
  "space_words s = filter (\<lambda>w. w \<noteq> []) (Split s (CHR '' ''))"

subsection \<open>The trimming loops\<close>

lemma take_nat_Suc:
  "0 \<le> j \<Longrightarrow> j < int (length s) \<Longrightarrow> take (nat (j + 1)) s = take (nat j) s @ [s ! nat j]"
  by (metis Suc_nat_eq_nat_zadd1 add.commute nat_less_iff take_Suc_conv_app_nth)

lemma trim_trailing_eq:
  "j < int (length str) \<Longrightarrow> - 1 \<le> j \<Longrightarrow>
   trim_trailing str j + 1 =
     int (length (dropWhile (\<lambda>c. c = CHR '' '') (rev (take (nat (j + 1)) str))))"
proof (induction str j rule: trim_trailing.induct)
  case (1 str j)
  show ?case
  proof (cases "j \<ge> 0")
    case True
    with 1 take_nat_Suc [of j str] show ?thesis
      by (subst trim_trailing.simps) auto
  next
    case False
    with 1 have "j = -1" by simp
    then show ?thesis by (subst trim_trailing.simps) simp
  qed
qed

lemma trim_leading_eq:
  "k < length t \<Longrightarrow> last t \<noteq> CHR '' '' \<Longrightarrow> take (length t) str = t \<Longrightarrow>
   drop (trim_leading str (int (length t) - 1) k) t = dropWhile (\<lambda>c. c = CHR '' '') (drop k t)"
proof (induction str "int (length t) - 1" k rule: trim_leading.induct)
  case (1 str k)
  have k: "str ! k = t ! k" "drop k t = t ! k # drop (Suc k) t"
    using "1.prems" by (metis nth_take, simp add: Cons_nth_drop_Suc)
  show ?case
  proof (cases "Suc k < length t")
    case True
    with 1 k show ?thesis by (subst trim_leading.simps) auto
  next
    case False
    with "1.prems" have "k = length t - 1" by simp
    moreover have "t \<noteq> []" using "1.prems" by auto
    ultimately have "t ! k \<noteq> CHR '' ''" using "1.prems"(2) by (simp add: last_conv_nth)
    with False k show ?thesis by (subst trim_leading.simps) auto
  qed
qed

definition trim_spaces :: "string \<Rightarrow> string" where
  "trim_spaces s =
     dropWhile (\<lambda>c. c = CHR '' '') (rev (dropWhile (\<lambda>c. c = CHR '' '') (rev s)))"

lemma take_length_trimr:
  "take (length (dropWhile P (rev s))) s = rev (dropWhile P (rev s))"
proof -
  have "s = rev (dropWhile P (rev s)) @ rev (takeWhile P (rev s))"
    by (metis rev_append rev_rev_ident takeWhile_dropWhile_id)
  then show ?thesis by (metis append_eq_conv_conj length_rev)
qed

lemma trim_loops:
  fixes str
  defines "j \<equiv> trim_trailing str (int (length str) - 1)"
  shows "drop (trim_leading str j 0) (take (nat (j + 1)) str) = trim_spaces str"
proof -
  define t where "t = rev (dropWhile (\<lambda>c. c = CHR '' '') (rev str))"
  have j: "j = int (length t) - 1"
    using trim_trailing_eq [of "int (length str) - 1" str] by (simp add: j_def t_def)
  have t: "take (length t) str = t"
    using take_length_trimr [of "\<lambda>c. c = CHR '' ''" str] by (simp add: t_def)
  show ?thesis
  proof (cases "t = []")
    case True
    then show ?thesis by (simp add: j trim_spaces_def flip: t_def)
  next
    case False
    then have "last t \<noteq> CHR '' ''"
      using hd_dropWhile [of "\<lambda>c. c = CHR '' ''" "rev str"] by (simp add: t_def last_rev)
    with False t trim_leading_eq [of 0 t str] show ?thesis
      by (simp add: j trim_spaces_def flip: t_def)
  qed
qed

subsection \<open>The in-place loop\<close>

text \<open>What the loop computes: every run of spaces keeps its first space only.\<close>

fun squeeze :: "bool \<Rightarrow> string \<Rightarrow> string" where
  "squeeze seen [] = []"
| "squeeze seen (c # cs) =
     (if c = CHR '' '' then (if seen then squeeze True cs else c # squeeze True cs)
      else c # squeeze False cs)"

lemma squeeze_loop_eq:
  "m \<le> k \<Longrightarrow> k \<le> length buf \<Longrightarrow>
   (let (buf', m') = squeeze_loop buf k m spaces in take m' buf')
     = take m buf @ squeeze (0 < spaces) (drop k buf)"
proof (induction buf k m spaces rule: squeeze_loop.induct)
  case (1 buf k m spaces)
  show ?case
  proof (cases "k < length buf")
    case True
    with "1.prems" have upd: "take (Suc m) (buf[m := c]) = take m buf @ [c]"
        "drop (Suc k) (buf[m := c]) = drop (Suc k) buf" for c
      by (simp_all add: take_Suc_conv_app_nth)
    have "drop k buf = buf ! k # drop (Suc k) buf" using True by (simp add: Cons_nth_drop_Suc)
    with True 1 upd show ?thesis
      by (subst squeeze_loop.simps) simp
  next
    case False
    with "1.prems" show ?thesis by (subst squeeze_loop.simps) simp
  qed
qed

lemma squeeze_no_space: "\<not> HasPrefix s '' '' \<Longrightarrow> squeeze b s = squeeze False s"
  by (cases s) (auto simp: HasPrefix_def)

lemma HasPrefix_double: "HasPrefix (c # cs) doubleSpace \<longleftrightarrow> c = CHR '' '' \<and> HasPrefix cs '' ''"
  by (cases cs) (auto simp: doubleSpace_def HasPrefix_def)

lemma squeeze_from_double:
  "squeeze False s = (case Index s doubleSpace of
      None \<Rightarrow> s | Some i \<Rightarrow> take i s @ squeeze False (drop i s))"
proof (induction s)
  case Nil
  then show ?case by (simp add: doubleSpace_def)
next
  case (Cons c cs)
  show ?case
  proof (cases "HasPrefix (c # cs) doubleSpace")
    case True
    then show ?thesis by simp
  next
    case False
    then have "squeeze False (c # cs) = c # squeeze False cs"
      using squeeze_no_space [of cs True] by (auto simp: HasPrefix_double)
    with False Cons show ?thesis by (auto split: option.splits)
  qed
qed

lemma StripExcessSpaces_squeeze: "StripExcessSpaces s = squeeze False (trim_spaces s)"
proof (cases "Index (trim_spaces s) doubleSpace")
  case None
  then show ?thesis
    using squeeze_from_double [of "trim_spaces s"]
    by (simp add: StripExcessSpaces_def Let_def trim_loops)
next
  case (Some i)
  then have "i \<le> length (trim_spaces s)"
    using Index_le [OF Some] by simp
  with Some show ?thesis
    using squeeze_from_double [of "trim_spaces s"] squeeze_loop_eq [of i i "trim_spaces s" 0]
    by (simp add: StripExcessSpaces_def Let_def trim_loops)
qed

subsection \<open>Words\<close>

lemma Split_Cons_other:
  "c \<noteq> sep \<Longrightarrow> Split (c # cs) sep = (c # hd (Split cs sep)) # tl (Split cs sep)"
  by (auto split: list.splits)

lemma space_words_Nil [simp]: "space_words [] = []"
  by (simp add: space_words_def)

lemma space_words_space [simp]: "space_words (CHR '' '' # s) = space_words s"
  by (simp add: space_words_def)

lemma space_words_other:
  "c \<noteq> CHR '' '' \<Longrightarrow>
   space_words (c # s) = (c # hd (Split s (CHR '' ''))) #
                         filter (\<lambda>w. w \<noteq> []) (tl (Split s (CHR '' '')))"
  by (simp add: space_words_def Split_Cons_other del: Split.simps(2))

text \<open>
  Two strings with the same first part and the same non-empty further parts have the same words,
  also after a common first byte.
\<close>

definition same_words :: "string \<Rightarrow> string \<Rightarrow> bool" where
  "same_words s t \<longleftrightarrow>
     hd (Split s (CHR '' '')) = hd (Split t (CHR '' '')) \<and>
     filter (\<lambda>w. w \<noteq> []) (tl (Split s (CHR '' ''))) = filter (\<lambda>w. w \<noteq> []) (tl (Split t (CHR '' '')))"

lemma same_words_Cons: "same_words s t \<Longrightarrow> same_words (c # s) (c # t)"
  by (cases "c = CHR '' ''"; cases "Split s (CHR '' '')"; cases "Split t (CHR '' '')")
     (auto simp: same_words_def)

lemma same_words_space: "same_words (CHR '' '' # s) (CHR '' '' # t) \<longleftrightarrow> space_words s = space_words t"
  by (simp add: same_words_def space_words_def)

lemma same_words_words: "same_words s t \<Longrightarrow> space_words s = space_words t"
  by (cases "Split s (CHR '' '')"; cases "Split t (CHR '' '')")
     (auto simp: same_words_def space_words_def)

lemma squeeze_words: "same_words (squeeze False s) s \<and> space_words (squeeze True s) = space_words s"
proof (induction s)
  case Nil
  then show ?case by (simp add: same_words_def)
next
  case (Cons c s)
  then show ?case
    using same_words_Cons [of "squeeze False s" s c]
    by (cases "c = CHR '' ''") (auto simp: same_words_space dest: same_words_words)
qed

lemma trim_words: "space_words (trim_spaces s) = space_words s"
proof -
  have left: "space_words (dropWhile (\<lambda>c. c = CHR '' '') t) = space_words t" for t
    by (induction t) auto
  have right: "\<forall>c \<in> set r. c = CHR '' '' \<Longrightarrow> same_words (t @ r) t" for t r
  proof (induction t)
    case Nil
    then have "space_words r = []" by (induction r) auto
    moreover have "hd (Split r (CHR '' '')) = []" using Nil by (cases r) auto
    ultimately show ?case
      by (cases "Split r (CHR '' '')") (auto simp: same_words_def space_words_def)
  next
    case (Cons c t)
    then show ?case by (simp add: same_words_Cons)
  qed
  define t where "t = rev (dropWhile (\<lambda>c. c = CHR '' '') (rev s))"
  define r where "r = rev (takeWhile (\<lambda>c. c = CHR '' '') (rev s))"
  have "s = t @ r"
    unfolding t_def r_def by (metis rev_append rev_rev_ident takeWhile_dropWhile_id)
  moreover have "\<forall>c \<in> set r. c = CHR '' ''"
    by (auto simp: r_def dest: set_takeWhileD)
  ultimately have "space_words s = space_words t"
    using right [of r t] by (simp add: same_words_words)
  then show ?thesis by (simp add: trim_spaces_def left flip: t_def)
qed

lemma squeeze_no_double:
  "Index (squeeze b s) doubleSpace = None \<and> (b \<longrightarrow> \<not> HasPrefix (squeeze b s) '' '')"
proof (induction b s rule: squeeze.induct)
  case (1 seen)
  then show ?case by (simp add: doubleSpace_def HasPrefix_def)
next
  case (2 seen c cs)
  then show ?case
    by (cases "c = CHR '' ''"; cases seen) (auto simp: HasPrefix_double, auto simp: HasPrefix_def)
qed

lemma squeeze_ends:
  "s \<noteq> [] \<Longrightarrow> last s \<noteq> CHR '' '' \<Longrightarrow> squeeze b s \<noteq> [] \<and> last (squeeze b s) = last s"
  by (induction b s rule: squeeze.induct) (auto split: if_splits)

lemma Split_nonempty_parts:
  "s \<noteq> [] \<Longrightarrow> hd s \<noteq> CHR '' '' \<Longrightarrow> last s \<noteq> CHR '' '' \<Longrightarrow> Index s doubleSpace = None \<Longrightarrow>
   [] \<notin> set (Split s (CHR '' ''))"
proof (induction s rule: induct_list012)
  case (3 c d cs)
  show ?case
  proof (cases "d = CHR '' ''")
    case True
    with 3 have "cs \<noteq> []" "\<not> HasPrefix cs '' ''"
      by (auto simp: HasPrefix_double split: if_splits)
    then have "cs \<noteq> []" "hd cs \<noteq> CHR '' ''"
      by (cases cs; simp add: HasPrefix_def)+
    with 3 True show ?thesis by (auto split: if_splits)
  next
    case False
    with 3 show ?thesis
      by (cases "Split (d # cs) (CHR '' '')") (auto simp del: Split.simps(2) simp: Split_Cons_other split: if_splits)
  qed
qed auto

lemma trim_spaces_ends:
  "trim_spaces s \<noteq> [] \<Longrightarrow> hd (trim_spaces s) \<noteq> CHR '' '' \<and> last (trim_spaces s) \<noteq> CHR '' ''"
proof -
  assume ne: "trim_spaces s \<noteq> []"
  define t where "t = rev (dropWhile (\<lambda>c. c = CHR '' '') (rev s))"
  have tr: "trim_spaces s = dropWhile (\<lambda>c. c = CHR '' '') t"
    by (simp add: trim_spaces_def t_def)
  have "t \<noteq> []" using ne by (auto simp: tr)
  then have "last t \<noteq> CHR '' ''"
    using hd_dropWhile [of "\<lambda>c. c = CHR '' ''" "rev s"] by (simp add: t_def last_rev)
  moreover have "last (trim_spaces s) = last t"
    using ne unfolding tr by (metis last_append takeWhile_dropWhile_id)
  ultimately show ?thesis
    using ne hd_dropWhile [of "\<lambda>c. c = CHR '' ''" t] by (simp add: tr)
qed

lemma squeeze_hd: "hd s \<noteq> CHR '' '' \<Longrightarrow> hd (squeeze False s) = hd s"
  by (cases s) auto

lemma StripExcessSpaces_words: "StripExcessSpaces s = Join (space_words s) '' ''"
proof (cases "trim_spaces s = []")
  case True
  then show ?thesis
    using trim_words [of s] by (simp add: StripExcessSpaces_squeeze)
next
  case False
  define t where "t = squeeze False (trim_spaces s)"
  note ends = trim_spaces_ends [OF False]
  have "[] \<notin> set (Split t (CHR '' ''))"
    unfolding t_def
    using ends False squeeze_ends [of "trim_spaces s" False] squeeze_no_double [of False "trim_spaces s"]
    by (intro Split_nonempty_parts) (simp_all add: squeeze_hd)
  then have "space_words t = Split t (CHR '' '')"
    by (simp add: space_words_def filter_id_conv) metis
  moreover have "space_words t = space_words s"
    using squeeze_words [of "trim_spaces s"]
    by (auto simp: t_def trim_words dest: same_words_words)
  ultimately show ?thesis
    using Join_Split [of t "CHR '' ''"] by (simp add: StripExcessSpaces_squeeze t_def)
qed

section \<open>util.go: GetURIPath\<close>

text \<open>\<open>strings.Split(u.Opaque, "/")[3:]\<close> panics when there are fewer than three parts.\<close>

definition GetURIPath :: "go_url \<Rightarrow> string outcome" where
  "GetURIPath u =
     (if u_Opaque u \<noteq> [] then
        (let parts = Split (u_Opaque u) (CHR ''/'')
         in if length parts < 3 then Panic ''slice bounds out of range''
            else Ok (''/'' @ Join (drop 3 parts) ''/''))
      else let uri = EscapedPath u in Ok (if uri = [] then ''/'' else uri))"

lemma GetURIPath_nonempty: "GetURIPath u = Ok p \<Longrightarrow> p \<noteq> []"
  by (auto simp: GetURIPath_def Let_def split: if_splits)

lemma GetURIPath_opaque:
  "CHR ''/'' \<notin> set h \<Longrightarrow> u_Opaque u = ''//'' @ h @ ''/'' @ p \<Longrightarrow> GetURIPath u = Ok (''/'' @ p)"
  by (simp add: GetURIPath_def Let_def Split_append Join_Split)

end
