(* ===== verification/V4_Request.thy ===== *)
theory V4_Request
  imports V4_Util
begin

text \<open>
  Package internal/sign/v4a/v4: host names (host.go), the header rules (header_rules.go,
  headers.go), the cached signing time (time.go) and HMAC-SHA256 (hmac.go).
\<close>

section \<open>host.go\<close>

definition getHost :: "http_request \<Rightarrow> string" where
  "getHost r = (if r_Host r \<noteq> [] then r_Host r else u_Host (r_URL r))"

definition stripPort :: "string \<Rightarrow> string" where
  "stripPort hostport =
     (case IndexByte hostport (CHR '':'') of
        None \<Rightarrow> hostport
      | Some colon \<Rightarrow>
          (case IndexByte hostport (CHR '']'') of
             Some i \<Rightarrow> TrimPrefix (take i hostport) ''[''
           | None \<Rightarrow> take colon hostport))"

definition portOnly :: "string \<Rightarrow> string" where
  "portOnly hostport =
     (case IndexByte hostport (CHR '':'') of
        None \<Rightarrow> []
      | Some colon \<Rightarrow>
          (case Index hostport '']:'' of
             Some i \<Rightarrow> drop (i + length '']:'') hostport
           | None \<Rightarrow> if Contains hostport '']'' then [] else drop (colon + length '':'') hostport))"

definition isDefaultPort :: "string \<Rightarrow> string \<Rightarrow> bool" where
  "isDefaultPort scheme port =
     (if port = [] then True
      else let lowerCaseScheme = ToLower scheme
           in (lowerCaseScheme = ''http'' \<and> port = ''80'') \<or> (lowerCaseScheme = ''https'' \<and> port = ''443''))"

definition SanitizeHostForHeader :: "http_request \<Rightarrow> http_request" where
  "SanitizeHostForHeader r =
     (let host = getHost r; port = portOnly host
      in if port \<noteq> [] \<and> isDefaultPort (u_Scheme (r_URL r)) port then r\<lparr>r_Host := stripPort host\<rparr> else r)"

lemma Index_single: "Index s [c] = IndexByte s c"
  by (induction s) (auto simp: HasPrefix_def)

lemma Index_absent: "hd sub \<notin> set s \<Longrightarrow> sub \<noteq> [] \<Longrightarrow> Index s sub = None"
  by (induction s) (auto simp: HasPrefix_iff, metis hd_append2 list.sel(1))

lemma host_port_split:
  assumes "CHR '':'' \<notin> set h" "CHR '']'' \<notin> set h" "CHR '']'' \<notin> set p"
  shows "stripPort (h @ '':'' @ p) = h" and "portOnly (h @ '':'' @ p) = p"
proof -
  have colon: "IndexByte (h @ '':'' @ p) (CHR '':'') = Some (length h)"
    using assms by (simp add: IndexByte_append)
  have "IndexByte (h @ '':'' @ p) (CHR '']'') = None"
    using assms by (simp add: IndexByte_None_iff)
  moreover have "Index (h @ '':'' @ p) '']:'' = None"
    using assms by (intro Index_absent) auto
  ultimately show "stripPort (h @ '':'' @ p) = h" "portOnly (h @ '':'' @ p) = p"
    using colon by (simp_all add: stripPort_def portOnly_def Contains_def Index_single)
qed

lemma portOnly_no_colon: "CHR '':'' \<notin> set h \<Longrightarrow> portOnly h = []"
  by (simp add: portOnly_def IndexByte_None_iff [THEN iffD2])

section \<open>header_rules.go\<close>

text \<open>
  The implementations of the interface \<open>Rule\<close> as one datatype; the lists of \<open>Rules\<close>,
  \<open>InclusiveRules\<close> and \<open>Patterns\<close> are searched in order.
\<close>

datatype rule =
    Rules "rule list"
  | MapRule "string list"
  | AllowList rule
  | DenyList rule
  | Patterns "string list"
  | InclusiveRules "rule list"

definition hasPrefixFold :: "string \<Rightarrow> string \<Rightarrow> bool" where
  "hasPrefixFold s prefix \<longleftrightarrow> length s \<ge> length prefix \<and> EqualFold (take (length prefix) s) prefix"

fun IsValid :: "rule \<Rightarrow> string \<Rightarrow> bool" where
  "IsValid (Rules rs) v = list_ex (\<lambda>r. IsValid r v) rs"
| "IsValid (MapRule ks) v = List.member ks v"
| "IsValid (AllowList r) v = IsValid r v"
| "IsValid (DenyList r) v = (\<not> IsValid r v)"
| "IsValid (Patterns ps) v = list_ex (hasPrefixFold v) ps"
| "IsValid (InclusiveRules rs) v = list_all (\<lambda>r. IsValid r v) rs"

section \<open>headers.go\<close>

definition IgnoredHeaders :: rule where
  "IgnoredHeaders = Rules [DenyList (MapRule [''Authorization'', ''User-Agent'', ''X-Amzn-Trace-Id''])]"

definition required_header_names :: "string list" where
  "required_header_names =
     [''Cache-Control'', ''Content-Disposition'', ''Content-Encoding'', ''Content-Language'',
      ''Content-Md5'', ''Content-Type'', ''Expires'', ''If-Match'', ''If-Modified-Since'',
      ''If-None-Match'', ''If-Unmodified-Since'', ''Range'', ''X-Amz-Acl'', ''X-Amz-Copy-Source'',
      ''X-Amz-Copy-Source-If-Match'', ''X-Amz-Copy-Source-If-Modified-Since'',
      ''X-Amz-Copy-Source-If-None-Match'', ''X-Amz-Copy-Source-If-Unmodified-Since'',
      ''X-Amz-Copy-Source-Range'',
      ''X-Amz-Copy-Source-Server-Side-Encryption-Customer-Algorithm'',
      ''X-Amz-Copy-Source-Server-Side-Encryption-Customer-Key'',
      ''X-Amz-Copy-Source-Server-Side-Encryption-Customer-Key-Md5'',
      ''X-Amz-Grant-Full-control'', ''X-Amz-Grant-Read'', ''X-Amz-Grant-Read-Acp'',
      ''X-Amz-Grant-Write'', ''X-Amz-Grant-Write-Acp'', ''X-Amz-Metadata-Directive'', ''X-Amz-Mfa'',
      ''X-Amz-Request-Payer'', ''X-Amz-Server-Side-Encryption'',
      ''X-Amz-Server-Side-Encryption-Aws-Kms-Key-Id'',
      ''X-Amz-Server-Side-Encryption-Customer-Algorithm'',
      ''X-Amz-Server-Side-Encryption-Customer-Key'',
      ''X-Amz-Server-Side-Encryption-Customer-Key-Md5'', ''X-Amz-Storage-Class'',
      ''X-Amz-Website-Redirect-Location'', ''X-Amz-Content-Sha256'', ''X-Amz-Tagging'']"

definition RequiredSignedHeaders :: rule where
  "RequiredSignedHeaders = Rules [AllowList (MapRule required_header_names), Patterns [''X-Amz-Meta-'']]"

definition AllowedQueryHoisting :: rule where
  "AllowedQueryHoisting = InclusiveRules [DenyList RequiredSignedHeaders, Patterns [''X-Amz-'']]"

lemma IsValid_IgnoredHeaders:
  "IsValid IgnoredHeaders h \<longleftrightarrow> h \<notin> {''Authorization'', ''User-Agent'', ''X-Amzn-Trace-Id''}"
  by (simp add: IgnoredHeaders_def)

lemma IsValid_AllowedQueryHoisting:
  "IsValid AllowedQueryHoisting h \<longleftrightarrow>
     hasPrefixFold h ''X-Amz-'' \<and> h \<notin> set required_header_names \<and> \<not> hasPrefixFold h ''X-Amz-Meta-''"
  by (auto simp: AllowedQueryHoisting_def RequiredSignedHeaders_def)

section \<open>time.go\<close>

text \<open>A UTC time by its calendar fields, formatted by the chunks of the two signing layouts.\<close>

record go_time =
  t_Year :: nat
  t_Month :: nat
  t_Day :: nat
  t_Hour :: nat
  t_Minute :: nat
  t_Second :: nat

function time_Format :: "go_time \<Rightarrow> string \<Rightarrow> string" where
  "time_Format t layout =
     (if layout = [] then []
      else if HasPrefix layout ''2006'' then pad_left 4 (dec_of_nat (t_Year t)) @ time_Format t (drop 4 layout)
      else if HasPrefix layout ''01'' then pad_left 2 (dec_of_nat (t_Month t)) @ time_Format t (drop 2 layout)
      else if HasPrefix layout ''02'' then pad_left 2 (dec_of_nat (t_Day t)) @ time_Format t (drop 2 layout)
      else if HasPrefix layout ''15'' then pad_left 2 (dec_of_nat (t_Hour t)) @ time_Format t (drop 2 layout)
      else if HasPrefix layout ''04'' then pad_left 2 (dec_of_nat (t_Minute t)) @ time_Format t (drop 2 layout)
      else if HasPrefix layout ''05'' then pad_left 2 (dec_of_nat (t_Second t)) @ time_Format t (drop 2 layout)
      else hd layout # time_Format t (tl layout))"
  by pat_completeness auto
termination
  by (relation "measure (\<lambda>(t, layout). length layout)") (auto simp: neq_Nil_conv)

declare time_Format.simps [simp del]

record SigningTime =
  st_Time :: go_time
  st_timeFormat :: string
  st_shortTimeFormat :: string

definition NewSigningTime :: "go_time \<Rightarrow> SigningTime" where
  "NewSigningTime t = \<lparr>st_Time = t, st_timeFormat = [], st_shortTimeFormat = []\<rparr>"

text \<open>\<open>format\<close> returns a non-empty cached value and otherwise stores what it computes.\<close>

definition st_format :: "SigningTime \<Rightarrow> string \<Rightarrow> string \<Rightarrow> string \<times> string" where
  "st_format m target layout =
     (if length target > 0 then (target, target)
      else let v = time_Format (st_Time m) layout in (v, v))"

definition TimeFormat :: "SigningTime \<Rightarrow> string \<times> SigningTime" where
  "TimeFormat m =
     (let (v, target) = st_format m (st_timeFormat m) TimeFormatLayout
      in (v, m\<lparr>st_timeFormat := target\<rparr>))"

definition ShortTimeFormat :: "SigningTime \<Rightarrow> string \<times> SigningTime" where
  "ShortTimeFormat m =
     (let (v, target) = st_format m (st_shortTimeFormat m) ShortTimeFormatLayout
      in (v, m\<lparr>st_shortTimeFormat := target\<rparr>))"

lemma time_Format_short:
  "time_Format t ShortTimeFormatLayout =
     pad_left 4 (dec_of_nat (t_Year t)) @ pad_left 2 (dec_of_nat (t_Month t)) @
     pad_left 2 (dec_of_nat (t_Day t))"
  by (simp add: ShortTimeFormatLayout_def time_Format.simps HasPrefix_def)

lemma time_Format_long:
  "time_Format t TimeFormatLayout =
     time_Format t ShortTimeFormatLayout @ ''T'' @ pad_left 2 (dec_of_nat (t_Hour t)) @
     pad_left 2 (dec_of_nat (t_Minute t)) @ pad_left 2 (dec_of_nat (t_Second t)) @ ''Z''"
  unfolding time_Format_short
  by (simp add: TimeFormatLayout_def time_Format.simps HasPrefix_def)

text \<open>The cache never holds anything but the formatted time, whatever calls are made.\<close>

definition st_ok :: "SigningTime \<Rightarrow> bool" where
  "st_ok m \<longleftrightarrow> st_timeFormat m \<in> {[], time_Format (st_Time m) TimeFormatLayout} \<and>
              st_shortTimeFormat m \<in> {[], time_Format (st_Time m) ShortTimeFormatLayout}"

lemma st_ok_New: "st_ok (NewSigningTime t)"
  by (simp add: st_ok_def NewSigningTime_def)

lemma TimeFormat_ok:
  "st_ok m \<Longrightarrow> fst (TimeFormat m) = time_Format (st_Time m) TimeFormatLayout \<and>
             st_ok (snd (TimeFormat m)) \<and> st_Time (snd (TimeFormat m)) = st_Time m"
  by (auto simp: TimeFormat_def st_format_def st_ok_def Let_def)

lemma ShortTimeFormat_ok:
  "st_ok m \<Longrightarrow> fst (ShortTimeFormat m) = time_Format (st_Time m) ShortTimeFormatLayout \<and>
             st_ok (snd (ShortTimeFormat m)) \<and> st_Time (snd (ShortTimeFormat m)) = st_Time m"
  by (auto simp: ShortTimeFormat_def st_format_def st_ok_def Let_def)

section \<open>hmac.go\<close>

definition HMACSHA256 :: "bytes \<Rightarrow> bytes \<Rightarrow> bytes" where
  "HMACSHA256 key msg = hmac sha256_hash key msg"

end
