(* ===== verification/Signer.thy ===== *)
theory Signer
  imports V4a_Crypto V4_Request
begin

text \<open>
  internal/sign/signer.go: derivation of the asymmetric key, its cache, and the construction of
  the SigV4a signed request.  The ECDSA signature itself is randomised; it is the argument \<open>sign\<close>
  of the definitions that use it, one run of \<open>PrivateKey.Sign\<close>.  The clock reading is an argument.
\<close>

section \<open>Constants\<close>

definition AmzRegionSetKey :: string where "AmzRegionSetKey = ''X-Amz-Region-Set''"
definition authorizationHeader :: string where "authorizationHeader = ''Authorization''"
definition signingAlgorithm :: string where "signingAlgorithm = ''AWS4-ECDSA-P256-SHA256''"

definition nMinusTwoP256 :: nat where
  "nMinusTwoP256 = P256_N - 2"

lemmas signer_consts = AmzRegionSetKey_def authorizationHeader_def signingAlgorithm_def

section \<open>Key derivation\<close>

text \<open>
  The loop of \<open>deriveKeyFromAccessKeyPair\<close>: the counter runs from 1 and is written as one byte; the
  first derived candidate below \<open>n - 2\<close> ends the loop, and the counter may not pass 255.
\<close>

function derive_loop :: "string \<Rightarrow> bytes \<Rightarrow> nat \<Rightarrow> nat outcome" where
  "derive_loop accessKey inputKey counter =
     (let kdfContext = bytes_of accessKey @ [word_of_nat counter]
      in case HMACKeyDerivation sha256_hash P256_BitSize inputKey (bytes_of signingAlgorithm) kdfContext of
           Err e \<Rightarrow> Err e
         | Panic p \<Rightarrow> Panic p
         | Ok key \<Rightarrow>
             (case ConstantTimeByteCompare key (big_Bytes nMinusTwoP256) of
                Err e \<Rightarrow> Err e
              | Panic p \<Rightarrow> Panic p
              | Ok cmp \<Rightarrow>
                  if cmp = -1 then Ok (SetBytes key)
                  else if Suc counter > 0xFF
                  then Err (FmtError ''exhausted single byte external counter'' None)
                  else derive_loop accessKey inputKey (Suc counter)))"
  by pat_completeness auto
termination
  by (relation "measure (\<lambda>(accessKey, inputKey, counter). 256 - counter)") auto

declare derive_loop.simps [simp del]

definition deriveKeyFromAccessKeyPair :: "string \<Rightarrow> string \<Rightarrow> ecdsa_private_key outcome" where
  "deriveKeyFromAccessKeyPair accessKey secretKey =
     (let inputKey = bytes_of ''AWS4A'' @ bytes_of secretKey
      in case derive_loop accessKey inputKey 1 of
           Err e \<Rightarrow> Err e
         | Panic p \<Rightarrow> Panic p
         | Ok d0 \<Rightarrow>
             let d = d0 + 1; (x, y) = ScalarBaseMult (big_Bytes d)
             in Ok \<lparr>priv_Public = \<lparr>pub_X = x, pub_Y = y\<rparr>, priv_D = d\<rparr>)"

text \<open>
  The candidate for a counter value, written from the specification of the KDF: one HMAC of
  \<open>[1] || label || 0 || accessKey || counter || [256]\<close> under the key \<open>AWS4A\<close> followed by the secret.
\<close>

definition candidate :: "string \<Rightarrow> string \<Rightarrow> nat \<Rightarrow> nat" where
  "candidate accessKey secretKey c =
     SetBytes (HMACSHA256 (bytes_of ''AWS4A'' @ bytes_of secretKey)
       (be32 1 @ bytes_of signingAlgorithm @ [0] @ bytes_of accessKey @ [word_of_nat c] @ be32 256))"

lemma kdf_one_block:
  "HMACKeyDerivation sha256_hash P256_BitSize key label ctx =
     Ok (HMACSHA256 key (be32 1 @ label @ [0] @ ctx @ be32 256))"
proof -
  have "kdf_stream sha256_hash 256 key label ctx = HMACSHA256 key (be32 1 @ label @ [0] @ ctx @ be32 256)"
    by (simp add: kdf_stream_def HMACSHA256_def sha256_hash_def upto.simps)
  moreover have "length (HMACSHA256 key msg) = 32" for msg
    using sha.length_hmac [of key msg] by (simp add: HMACSHA256_def sha256_hash_def)
  ultimately show ?thesis
    using sha.HMACKeyDerivation_stream [of 256 key label ctx] by (simp add: P256_BitSize_def)
qed

lemma length_nMinusTwo: "length (big_Bytes nMinusTwoP256) = 32"
  by (simp add: nMinusTwoP256_def P256_N_def big_Bytes.simps)

lemma derive_loop_step:
  "derive_loop accessKey (bytes_of ''AWS4A'' @ bytes_of secretKey) c =
     (if candidate accessKey secretKey c < nMinusTwoP256 then Ok (candidate accessKey secretKey c)
      else if Suc c > 0xFF then Err (FmtError ''exhausted single byte external counter'' None)
      else derive_loop accessKey (bytes_of ''AWS4A'' @ bytes_of secretKey) (Suc c))"
proof -
  have len: "length (HMACSHA256 key msg) = 32" for key msg
    using sha.length_hmac [of key msg] by (simp add: HMACSHA256_def sha256_hash_def)
  show ?thesis
    by (subst derive_loop.simps)
       (simp add: Let_def kdf_one_block ConstantTimeByteCompare_eq len length_nMinusTwo candidate_def
         sgn_if)
qed

lemma derive_loop_find:
  "0 < c \<Longrightarrow> c < 256 \<Longrightarrow>
   derive_loop accessKey (bytes_of ''AWS4A'' @ bytes_of secretKey) c =
     (case find (\<lambda>i. candidate accessKey secretKey i < nMinusTwoP256) [c..<256] of
        None \<Rightarrow> Err (FmtError ''exhausted single byte external counter'' None)
      | Some i \<Rightarrow> Ok (candidate accessKey secretKey i))"
proof (induction "256 - c" arbitrary: c)
  case 0
  then show ?case by simp
next
  case (Suc n)
  have upt: "[c..<256] = c # [Suc c..<256]"
    using Suc.prems by (simp add: upt_conv_Cons)
  show ?case
  proof (cases "Suc c < 256")
    case True
    with Suc show ?thesis by (subst derive_loop_step) (simp add: upt)
  next
    case False
    with Suc.prems have "c = 255" by simp
    then show ?thesis by (subst derive_loop_step) (simp add: upt)
  qed
qed

section \<open>The credential cache\<close>

record V4aCredentials =
  cr_Context :: string
  cr_PrivateKey :: ecdsa_private_key
  cr_SessionToken :: string

record AwsCredentials =
  aws_AccessKey :: string
  aws_SecretKey :: string
  aws_RegionName :: string
  aws_SessionToken :: string

text \<open>
  The package variable \<open>cache\<close>: one entry or none.  The mutex makes a call atomic, so a call is a
  function on the cache.
\<close>

type_synonym credsCache = "V4aCredentials option"

definition retrievePrivateKey :: "AwsCredentials \<Rightarrow> credsCache \<Rightarrow> V4aCredentials outcome \<times> credsCache" where
  "retrievePrivateKey symmetric cache =
     (let miss =
        (case deriveKeyFromAccessKeyPair (aws_AccessKey symmetric) (aws_SecretKey symmetric) of
           Err e \<Rightarrow> (Err (FmtError ''failed to derive asymmetric key from credentials'' None), cache)
         | Panic p \<Rightarrow> (Panic p, cache)
         | Ok privateKey \<Rightarrow>
             let creds = \<lparr>cr_Context = aws_AccessKey symmetric, cr_PrivateKey = privateKey,
                          cr_SessionToken = aws_SessionToken symmetric\<rparr>
             in (Ok creds, Some creds))
      in case cache of
           Some c \<Rightarrow> if cr_Context c = aws_AccessKey symmetric then (Ok c, cache) else miss
         | None \<Rightarrow> miss)"

text \<open>
  Where the access key determines the secret key (as AWS key pairs do), the invariant of the cache
  is that its entry is the key derived for its context.
\<close>

definition cache_ok :: "(string \<Rightarrow> string) \<Rightarrow> credsCache \<Rightarrow> bool" where
  "cache_ok secret_of cache \<longleftrightarrow>
     (case cache of None \<Rightarrow> True
      | Some c \<Rightarrow> deriveKeyFromAccessKeyPair (cr_Context c) (secret_of (cr_Context c)) = Ok (cr_PrivateKey c))"

lemma cache_ok_retrieve:
  assumes "cache_ok secret_of cache" "aws_SecretKey a = secret_of (aws_AccessKey a)"
  shows "cache_ok secret_of (snd (retrievePrivateKey a cache))"
    and "fst (retrievePrivateKey a cache) = Ok c \<Longrightarrow>
      cr_Context c = aws_AccessKey a \<and>
      deriveKeyFromAccessKeyPair (aws_AccessKey a) (aws_SecretKey a) = Ok (cr_PrivateKey c)"
  using assms
  by (auto simp: retrievePrivateKey_def cache_ok_def Let_def split: option.splits outcome.splits if_splits)

section \<open>The request signer\<close>

record httpSigner =
  hs_Request :: http_request
  hs_ServiceName :: string
  hs_RegionSet :: "string list"
  hs_Time :: go_time
  hs_Credentials :: V4aCredentials
  hs_PayloadHash :: string

definition setRequiredSigningFields :: "httpSigner \<Rightarrow> http_header \<Rightarrow> http_header" where
  "setRequiredSigningFields s headers =
     (let amzDate = time_Format (hs_Time s) TimeFormatLayout;
          headers = header_Set AmzRegionSetKey (Join (hs_RegionSet s) '','') headers;
          headers = header_Set AmzDateKey amzDate headers
      in if length (cr_SessionToken (hs_Credentials s)) > 0
         then header_Set AmzSecurityTokenKey (cr_SessionToken (hs_Credentials s)) headers
         else headers)"

definition buildCredentialScope :: "httpSigner \<Rightarrow> string" where
  "buildCredentialScope s =
     Join [time_Format (hs_Time s) ShortTimeFormatLayout, hs_ServiceName s, ''aws4_request''] ''/''"

definition buildAuthorizationHeader :: "string \<Rightarrow> string \<Rightarrow> string \<Rightarrow> string" where
  "buildAuthorizationHeader credentialStr signedHeadersStr signingSignature =
     signingAlgorithm @ '' '' @ ''Credential='' @ credentialStr @ '', '' @
     ''SignedHeaders='' @ signedHeadersStr @ '', '' @ ''Signature='' @ signingSignature"

text \<open>
  One iteration of the loop over the header map in \<open>buildCanonicalHeaders\<close>: the lower-cased names
  seen so far, in order, and the values collected under each.
\<close>

fun canonical_step ::
    "rule \<Rightarrow> string list \<times> http_header \<Rightarrow> string \<times> string list \<Rightarrow> string list \<times> http_header" where
  "canonical_step rule (headers, sgnd) (k, v) =
     (if \<not> IsValid rule k then (headers, sgnd)
      else let lowerCaseKey = ToLower k
           in case map_of sgnd lowerCaseKey of
                Some vs \<Rightarrow> (headers, AList.update lowerCaseKey (vs @ v) sgnd)
              | None \<Rightarrow> (headers @ [lowerCaseKey], AList.update lowerCaseKey v sgnd))"

definition canonical_line :: "string \<Rightarrow> http_header \<Rightarrow> string \<Rightarrow> string" where
  "canonical_line host sgnd h =
     (if h = ''host'' then ''host'' @ '':'' @ StripExcessSpaces host
      else h @ '':'' @ Join (map (\<lambda>v. TrimSpace (StripExcessSpaces v)) (map_get [] sgnd h)) '','')
     @ [CHR 0x0A]"

text \<open>The part after the loop: sort the names, join them, and write one line per name.\<close>

definition canonical_finish ::
    "string \<Rightarrow> string list \<times> http_header \<Rightarrow> http_header \<times> string \<times> string" where
  "canonical_finish host st =
     (let (headers0, sgnd) = st; headers = sort headers0
      in (sgnd, Join headers '';'', concat (map (canonical_line host sgnd) headers)))"

definition buildCanonicalHeaders ::
    "string \<Rightarrow> rule \<Rightarrow> http_header \<Rightarrow> int \<Rightarrow> http_header \<times> string \<times> string" where
  "buildCanonicalHeaders host rule header len =
     (let start = (if len > 0 then ([''content-length''], [(''content-length'', [FormatInt len])])
                   else ([], []))
      in canonical_finish host (foldl (canonical_step rule) start header))"

definition buildCanonicalString ::
    "httpSigner \<Rightarrow> string \<Rightarrow> string \<Rightarrow> string \<Rightarrow> string \<Rightarrow> string \<Rightarrow> string" where
  "buildCanonicalString s method uri query signedHeaders canonicalHeaders =
     Join [method, uri, query, canonicalHeaders, signedHeaders, hs_PayloadHash s] [CHR 0x0A]"

definition makeHash :: "go_hash \<Rightarrow> bytes \<Rightarrow> bytes" where
  "makeHash hash b = h_Sum hash b"

definition buildStringToSign :: "httpSigner \<Rightarrow> string \<Rightarrow> string \<Rightarrow> string" where
  "buildStringToSign s credentialScope canonicalRequestString =
     Join [signingAlgorithm, time_Format (hs_Time s) TimeFormatLayout, credentialScope,
           hex_EncodeToString (makeHash sha256_hash (bytes_of canonicalRequestString))] [CHR 0x0A]"

type_synonym ecdsa_sign = "ecdsa_private_key \<Rightarrow> bytes \<Rightarrow> bytes outcome"

definition buildSignature :: "ecdsa_sign \<Rightarrow> httpSigner \<Rightarrow> string \<Rightarrow> string outcome" where
  "buildSignature sign s strToSign =
     (case sign (cr_PrivateKey (hs_Credentials s)) (makeHash sha256_hash (bytes_of strToSign)) of
        Err e \<Rightarrow> Err e
      | Panic p \<Rightarrow> Panic p
      | Ok sig \<Rightarrow> Ok (hex_EncodeToString sig))"

record signedRequest =
  sg_Request :: http_request
  sg_SignedHeaders :: http_header
  sg_CanonicalString :: string
  sg_StringToSign :: string

text \<open>
  \<open>Build\<close>.  The request's header map is updated in place by the Go code; the model returns the new
  request.  The \<open>append(headers[...][:0], v)\<close> of the last step leaves exactly one value.
\<close>

definition Build :: "ecdsa_sign \<Rightarrow> httpSigner \<Rightarrow> signedRequest outcome" where
  "Build sign s =
     (let req = hs_Request s;
          query = ParseQuery (u_RawQuery (r_URL req));
          headers = header_Set ''host'' (u_Host (r_URL req)) (r_Header req);
          headers = setRequiredSigningFields s headers;
          query = map (\<lambda>(k, vs). (k, sort vs)) query;
          req = SanitizeHostForHeader (req\<lparr>r_Header := headers\<rparr>);
          credentialScope = buildCredentialScope s;
          credentialStr = cr_Context (hs_Credentials s) @ ''/'' @ credentialScope;
          host = (if length (r_Host req) > 0 then r_Host req else u_Host (r_URL req));
          (signedHeaders, signedHeadersStr, canonicalHeaderStr) =
             buildCanonicalHeaders host IgnoredHeaders headers (r_ContentLength req);
          rawQuery = ReplaceByte (values_Encode query) (CHR ''+'') ''%20''
      in case GetURIPath (r_URL req) of
           Err e \<Rightarrow> Err e
         | Panic p \<Rightarrow> Panic p
         | Ok canonicalURI \<Rightarrow>
             let canonicalString = buildCanonicalString s (r_Method req) canonicalURI rawQuery
                                     signedHeadersStr canonicalHeaderStr;
                 strToSign = buildStringToSign s credentialScope canonicalString
             in case buildSignature sign s strToSign of
                  Err e \<Rightarrow> Err e
                | Panic p \<Rightarrow> Panic p
                | Ok signingSignature \<Rightarrow>
                    let auth = buildAuthorizationHeader credentialStr signedHeadersStr signingSignature;
                        headers = AList.update authorizationHeader [auth] headers;
                        req = req\<lparr>r_Header := headers, r_URL := (r_URL req)\<lparr>u_RawQuery := rawQuery\<rparr>\<rparr>
                    in Ok \<lparr>sg_Request = req, sg_SignedHeaders = signedHeaders,
                            sg_CanonicalString = canonicalString, sg_StringToSign = strToSign\<rparr>)"

text \<open>
  \<open>SignV4a\<close>.  The error of \<open>http.NewRequest\<close> is dropped by the code, so a URL that does not parse
  makes \<open>Build\<close> dereference a nil request.
\<close>

definition SignV4a ::
    "ecdsa_sign \<Rightarrow> go_time \<Rightarrow> string \<Rightarrow> string \<Rightarrow> string \<Rightarrow> AwsCredentials \<Rightarrow> credsCache \<Rightarrow>
     http_request outcome \<times> credsCache" where
  "SignV4a sign now method url service awsCreds cache =
     (case retrievePrivateKey awsCreds cache of
        (Err e, cache') \<Rightarrow> (Err e, cache')
      | (Panic p, cache') \<Rightarrow> (Panic p, cache')
      | (Ok key, cache') \<Rightarrow>
          (case http_NewRequest method url [] of
             Ok req \<Rightarrow>
               (case Build sign \<lparr>hs_Request = req, hs_ServiceName = service, hs_RegionSet = [''*''],
                                hs_Time = now, hs_Credentials = key,
                                hs_PayloadHash = EmptyStringSHA256\<rparr> of
                  Err e \<Rightarrow> (Err e, cache')
                | Panic p \<Rightarrow> (Panic p, cache')
                | Ok sr \<Rightarrow> (Ok (sg_Request sr), cache'))
           | _ \<Rightarrow> (Panic ''invalid memory address or nil pointer dereference'', cache')))"

section \<open>Canonical headers do not depend on map order\<close>

definition header_values :: "rule \<Rightarrow> http_header \<Rightarrow> string \<Rightarrow> string list" where
  "header_values rule h n = concat (map snd (filter (\<lambda>(k, v). IsValid rule k \<and> ToLower k = n) h))"

definition header_names :: "rule \<Rightarrow> http_header \<Rightarrow> string set" where
  "header_names rule h = {ToLower k |k v. (k, v) \<in> set h \<and> IsValid rule k}"

lemma canonical_step_inv:
  assumes "distinct hs" "set hs = fst ` set m" "canonical_step rule (hs, m) (k, v) = (hs1, m1)"
  shows "distinct hs1 \<and> set hs1 = fst ` set m1 \<and> set hs1 = set hs \<union> header_names rule [(k, v)] \<and>
    (\<forall>n. map_get [] m1 n = map_get [] m n @ header_values rule [(k, v)] n)"
proof (cases "IsValid rule k")
  case False
  with assms show ?thesis by (simp add: header_names_def header_values_def)
next
  case valid: True
  then have names: "header_names rule [(k, v)] = {ToLower k}"
    and vals: "header_values rule [(k, v)] n = (if n = ToLower k then v else [])" for n
    by (auto simp: header_names_def header_values_def)
  show ?thesis
  proof (cases "map_of m (ToLower k)")
    case None
    then have new: "ToLower k \<notin> fst ` set m" by (simp add: map_of_eq_None_iff)
    from None valid assms(3) have st: "hs1 = hs @ [ToLower k]" "m1 = AList.update (ToLower k) v m"
      by (simp_all add: Let_def)
    show ?thesis
      using assms(1,2) new None unfolding st by (auto simp: names vals map_get_def)
  next
    case (Some vs)
    then have old: "ToLower k \<in> fst ` set m"
      by (metis map_of_eq_None_iff option.distinct(1))
    from Some valid assms(3) have st: "hs1 = hs" "m1 = AList.update (ToLower k) (vs @ v) m"
      by (simp_all add: Let_def)
    show ?thesis
      using assms(1,2) old Some unfolding st
      by (simp add: names vals insert_absorb) (simp add: map_get_def)
  qed
qed

declare canonical_step.simps [simp del]

lemma canonical_fold:
  "distinct hs \<Longrightarrow> set hs = fst ` set m \<Longrightarrow> foldl (canonical_step rule) (hs, m) h = (hs', m') \<Longrightarrow>
   distinct hs' \<and> set hs' = set hs \<union> header_names rule h \<and>
   (\<forall>n. map_get [] m' n = map_get [] m n @ header_values rule h n)"
proof (induction h arbitrary: hs m)
  case Nil
  then show ?case by (simp add: header_names_def header_values_def)
next
  case (Cons kv h)
  obtain k v where kv: "kv = (k, v)" by (cases kv)
  obtain hs1 m1 where step: "canonical_step rule (hs, m) (k, v) = (hs1, m1)" by fastforce
  note inv = canonical_step_inv [OF Cons.prems(1,2) step]
  moreover have "foldl (canonical_step rule) (hs1, m1) h = (hs', m')"
    using Cons.prems(3) step by (simp add: kv)
  moreover have "header_names rule (kv # h) = header_names rule [(k, v)] \<union> header_names rule h"
    "header_values rule (kv # h) n = header_values rule [(k, v)] n @ header_values rule h n" for n
    by (auto simp: kv header_names_def header_values_def)
  ultimately show ?case
    using Cons.IH [of hs1 m1] by auto
qed

text \<open>
  The header loop started from some already signed names, as both signers of the repository start
  it.  Its result is determined by the sorted set of names and by the values under each, so that
  it is the same for every visiting order of a header map without two spellings of one name.
\<close>

definition one_spelling :: "rule \<Rightarrow> http_header \<Rightarrow> bool" where
  "one_spelling rule h \<longleftrightarrow> distinct (map (\<lambda>(k, v). ToLower k) (filter (\<lambda>(k, v). IsValid rule k) h))"

lemma header_names_mset: "mset h = mset h' \<Longrightarrow> header_names rule h = header_names rule h'"
  by (auto simp: header_names_def dest: mset_eq_setD)

lemma filter_distinct_key:
  "distinct (map f xs) \<Longrightarrow> mset xs = mset ys \<Longrightarrow> filter (\<lambda>x. f x = n) xs = filter (\<lambda>x. f x = n) ys"
proof -
  assume d: "distinct (map f xs)" and m: "mset xs = mset ys"
  have len: "length (filter (\<lambda>x. f x = n) xs) \<le> 1"
    using d by (induction xs) (auto simp: filter_empty_conv image_iff)
  have eq: "mset (filter (\<lambda>x. f x = n) xs) = mset (filter (\<lambda>x. f x = n) ys)"
    using m by (metis mset_filter)
  from mset_short_eq [OF len eq] show ?thesis .
qed

lemma header_values_mset:
  assumes "one_spelling rule h" "mset h = mset h'"
  shows "header_values rule h n = header_values rule h' n"
proof -
  define f where "f = filter (\<lambda>(k, v :: string list). IsValid rule k)"
  have vals: "header_values rule x n = concat (map snd (filter (\<lambda>kv. ToLower (fst kv) = n) (f x)))" for x
    unfolding header_values_def f_def filter_filter by (rule arg_cong, rule arg_cong, rule filter_cong) auto
  have "filter (\<lambda>kv. ToLower (fst kv) = n) (f h) = filter (\<lambda>kv. ToLower (fst kv) = n) (f h')"
  proof (rule filter_distinct_key)
    show "distinct (map (\<lambda>kv. ToLower (fst kv)) (f h))"
      using assms(1) by (simp add: one_spelling_def f_def case_prod_beta')
    show "mset (f h) = mset (f h')"
      unfolding f_def using assms(2) by (metis mset_filter)
  qed
  then show ?thesis by (simp add: vals)
qed

locale canonical_seed =
  fixes hs :: "string list" and m :: http_header
  assumes distinct_seed: "distinct hs"
    and keys_seed: "set hs = fst ` set m"
begin

abbreviation names_of :: "rule \<Rightarrow> http_header \<Rightarrow> string list" where
  "names_of rule h \<equiv> sorted_list_of_set (set hs \<union> header_names rule h)"

lemma finish_eq:
  "\<exists>sgnd. canonical_finish host (foldl (canonical_step rule) (hs, m) h) =
     (sgnd, Join (names_of rule h) '';'', concat (map (canonical_line host sgnd) (names_of rule h))) \<and>
     (\<forall>n. map_get [] sgnd n = map_get [] m n @ header_values rule h n)"
proof -
  obtain hs' m' where f: "foldl (canonical_step rule) (hs, m) h = (hs', m')" by fastforce
  note inv = canonical_fold [OF distinct_seed keys_seed f]
  then have "sort hs' = names_of rule h"
    by (metis distinct_remdups_id sorted_list_of_set_sort_remdups)
  with f inv show ?thesis by (auto simp: canonical_finish_def Let_def)
qed

lemma canonical_line_cong:
  "(\<And>n. map_get [] s n = map_get [] s' n) \<Longrightarrow> canonical_line host s = canonical_line host s'"
  by (rule ext) (simp add: canonical_line_def)

lemma finish_order:
  assumes "one_spelling rule h" "mset h = mset h'"
  shows "snd (canonical_finish host (foldl (canonical_step rule) (hs, m) h)) =
         snd (canonical_finish host (foldl (canonical_step rule) (hs, m) h'))"
proof -
  obtain s s' where "canonical_finish host (foldl (canonical_step rule) (hs, m) h) =
      (s, Join (names_of rule h) '';'', concat (map (canonical_line host s) (names_of rule h)))"
    and "canonical_finish host (foldl (canonical_step rule) (hs, m) h') =
      (s', Join (names_of rule h') '';'', concat (map (canonical_line host s') (names_of rule h')))"
    and "\<forall>n. map_get [] s n = map_get [] m n @ header_values rule h n"
    and "\<forall>n. map_get [] s' n = map_get [] m n @ header_values rule h' n"
    using finish_eq by metis
  moreover from this have "canonical_line host s = canonical_line host s'"
    by (intro canonical_line_cong) (simp add: header_values_mset [OF assms])
  ultimately show ?thesis by (simp add: header_names_mset [OF assms(2)])
qed

end

interpretation canon_empty: canonical_seed "[]" "[]"
  by unfold_locales simp_all

interpretation canon_length: canonical_seed "[''content-length'']" "[(''content-length'', [FormatInt n])]"
  for n
  by unfold_locales simp_all

end
