(* ===== verification/Signer_STS.thy ===== *)
theory Signer_STS
  imports Signer
begin

text \<open>
  The one request the operator signs: the STS call \<open>GetCallerIdentity\<close> of internal/handler/aws.go and
  podidentity.go.  The signer's output for it is computed in closed form, for every key, session
  token, clock reading and signature.
\<close>

section \<open>The expected request\<close>


definition sts_url :: string where
  "sts_url = ''https://sts.amazonaws.com?Action=GetCallerIdentity&Version=2011-06-15''"

definition sts_names :: "string \<Rightarrow> string" where
  "sts_names token = ''host;x-amz-date;x-amz-region-set'' @
     (if token = [] then [] else '';x-amz-security-token'')"

definition sts_canonical :: "go_time \<Rightarrow> string \<Rightarrow> string" where
  "sts_canonical now token =
     Join ([''GET'', ''/'', ''Action=GetCallerIdentity&Version=2011-06-15'',
            ''host:sts.amazonaws.com'',
            ''x-amz-date:'' @ time_Format now TimeFormatLayout,
            ''x-amz-region-set:*''] @
           (if token = [] then []
            else [''x-amz-security-token:'' @ TrimSpace (StripExcessSpaces token)]) @
           [[], sts_names token, EmptyStringSHA256]) [CHR 0x0A]"

section \<open>Evaluation of the concrete parts\<close>

lemma sts_request:
  "http_NewRequest ''GET'' sts_url [] =
     Ok \<lparr>r_Method = ''GET'',
         r_URL = \<lparr>u_Scheme = ''https'', u_Opaque = [], u_Host = ''sts.amazonaws.com'', u_Path = [],
                  u_RawPath = [], u_RawQuery = ''Action=GetCallerIdentity&Version=2011-06-15''\<rparr>,
         r_Header = [], r_Host = ''sts.amazonaws.com'', r_ContentLength = 0, r_Body = []\<rparr>"
  unfolding sts_url_def by code_simp

lemma sts_query:
  "ReplaceByte (values_Encode (map (\<lambda>(k, vs). (k, sort vs))
     (ParseQuery ''Action=GetCallerIdentity&Version=2011-06-15''))) (CHR ''+'') ''%20''
   = ''Action=GetCallerIdentity&Version=2011-06-15''"
  by code_simp

lemma key_canonical:
  "CanonicalMIMEHeaderKey ''host'' = ''Host''"
  "CanonicalMIMEHeaderKey AmzRegionSetKey = AmzRegionSetKey"
  "CanonicalMIMEHeaderKey AmzDateKey = AmzDateKey"
  "CanonicalMIMEHeaderKey AmzSecurityTokenKey = AmzSecurityTokenKey"
  by code_simp+
lemma lower_names:
  "ToLower ''Host'' = ''host''"
  "ToLower ''X-Amz-Region-Set'' = ''x-amz-region-set''"
  "ToLower ''X-Amz-Date'' = ''x-amz-date''"
  "ToLower ''X-Amz-Security-Token'' = ''x-amz-security-token''"
  by code_simp+
lemma sort_names:
  "sort [''host'', ''x-amz-region-set'', ''x-amz-date''] = [''host'', ''x-amz-date'', ''x-amz-region-set'']"
  "sort [''host'', ''x-amz-region-set'', ''x-amz-date'', ''x-amz-security-token''] =
    [''host'', ''x-amz-date'', ''x-amz-region-set'', ''x-amz-security-token'']"
  by code_simp+

definition sts_scope :: "go_time \<Rightarrow> string" where
  "sts_scope now = time_Format now ShortTimeFormatLayout @ ''/sts/aws4_request''"

definition sts_to_sign :: "go_time \<Rightarrow> string \<Rightarrow> string" where
  "sts_to_sign now token =
     Join [signingAlgorithm, time_Format now TimeFormatLayout, sts_scope now,
           hex_EncodeToString (sha256 (bytes_of (sts_canonical now token)))] [CHR 0x0A]"

definition sts_authorization :: "string \<Rightarrow> go_time \<Rightarrow> string \<Rightarrow> bytes \<Rightarrow> string" where
  "sts_authorization keyId now token sig =
     ''AWS4-ECDSA-P256-SHA256 Credential='' @ keyId @ ''/'' @ sts_scope now @
     '', SignedHeaders='' @ sts_names token @ '', Signature='' @ hex_EncodeToString sig"

definition sts_headers :: "string \<Rightarrow> go_time \<Rightarrow> string \<Rightarrow> http_header" where
  "sts_headers auth now token =
     [(''Host'', [''sts.amazonaws.com'']), (''X-Amz-Region-Set'', [''*'']),
      (''X-Amz-Date'', [time_Format now TimeFormatLayout])] @
     (if token = [] then [] else [(''X-Amz-Security-Token'', [token])]) @
     (if auth = [] then [] else [(''Authorization'', [auth])])"

section \<open>Values without spaces\<close>

lemma space_words_no_space: "CHR '' '' \<notin> set s \<Longrightarrow> s \<noteq> [] \<Longrightarrow> space_words s = [s]"
  by (simp add: space_words_def Split_no_sep)

lemma StripExcessSpaces_no_space: "CHR '' '' \<notin> set s \<Longrightarrow> StripExcessSpaces s = s"
  by (cases "s = []") (simp_all add: StripExcessSpaces_words space_words_no_space)

lemma TrimSpace_no_space: "\<forall>c \<in> set s. \<not> is_space c \<Longrightarrow> TrimSpace s = s"
proof -
  assume a: "\<forall>c \<in> set s. \<not> is_space c"
  then have "dropWhile is_space s = s" "dropWhile is_space (rev s) = rev s"
    by (cases "s = []"; simp add: dropWhile_eq_self_iff hd_rev)+
  then show ?thesis by (simp add: TrimSpace_def)
qed

lemma digits_no_space: "CHR ''0'' \<le> c \<Longrightarrow> c \<le> CHR ''9'' \<Longrightarrow> \<not> is_space c"
  by (auto simp: is_space_def less_eq_char_def)

lemma pad_digits: "c \<in> set (pad_left n (dec_of_nat k)) \<Longrightarrow> \<not> is_space c"
proof -
  assume "c \<in> set (pad_left n (dec_of_nat k))"
  then have "CHR ''0'' \<le> c \<and> c \<le> CHR ''9''"
    by (auto simp: pad_left_def dec_of_nat_digits split: if_splits)
  then show ?thesis by (simp add: digits_no_space)
qed

lemma time_no_space: "c \<in> set (time_Format t TimeFormatLayout) \<Longrightarrow> \<not> is_space c"
  by (auto simp: time_Format_long time_Format_short dest: pad_digits)
     (simp_all add: is_space_def less_eq_char_def)

lemma time_clean: "TrimSpace (StripExcessSpaces (time_Format t TimeFormatLayout)) = time_Format t TimeFormatLayout"
proof -
  have "\<forall>c \<in> set (time_Format t TimeFormatLayout). \<not> is_space c"
    using time_no_space by blast
  then show ?thesis
    by (subst StripExcessSpaces_no_space) (auto simp: TrimSpace_no_space is_space_def)
qed

section \<open>The signer on the STS request\<close>

definition sts_signer :: "go_time \<Rightarrow> V4aCredentials \<Rightarrow> httpSigner" where
  "sts_signer now key =
     \<lparr>hs_Request = \<lparr>r_Method = ''GET'',
         r_URL = \<lparr>u_Scheme = ''https'', u_Opaque = [], u_Host = ''sts.amazonaws.com'', u_Path = [],
                  u_RawPath = [], u_RawQuery = ''Action=GetCallerIdentity&Version=2011-06-15''\<rparr>,
         r_Header = [], r_Host = ''sts.amazonaws.com'', r_ContentLength = 0, r_Body = []\<rparr>,
      hs_ServiceName = ''sts'', hs_RegionSet = [''*''], hs_Time = now, hs_Credentials = key,
      hs_PayloadHash = EmptyStringSHA256\<rparr>"

lemma sts_fields:
  "setRequiredSigningFields (sts_signer now key) (header_Set ''host'' ''sts.amazonaws.com'' []) =
     sts_headers [] now (cr_SessionToken key)"
  by (simp add: setRequiredSigningFields_def sts_signer_def header_Set_def key_canonical sts_headers_def)
     (simp add: v4_consts signer_consts)

lemma sts_canonical_headers:
  "snd (buildCanonicalHeaders ''sts.amazonaws.com'' IgnoredHeaders (sts_headers [] now token) 0) =
     (sts_names token,
      ''host:sts.amazonaws.com'' @ [CHR 0x0A] @
      ''x-amz-date:'' @ time_Format now TimeFormatLayout @ [CHR 0x0A] @
      ''x-amz-region-set:*'' @ [CHR 0x0A] @
      (if token = [] then [] else
        ''x-amz-security-token:'' @ TrimSpace (StripExcessSpaces token) @ [CHR 0x0A]))"
proof -
  have clean: "StripExcessSpaces ''sts.amazonaws.com'' = ''sts.amazonaws.com''"
    "TrimSpace (StripExcessSpaces ''*'') = ''*''"
    by (simp_all add: StripExcessSpaces_no_space TrimSpace_no_space is_space_def)
  have fold: "foldl (canonical_step IgnoredHeaders) ([], []) (sts_headers [] now token) =
    ([''host'', ''x-amz-region-set'', ''x-amz-date''] @ (if token = [] then [] else [''x-amz-security-token'']),
     [(''host'', [''sts.amazonaws.com'']), (''x-amz-region-set'', [''*'']),
      (''x-amz-date'', [time_Format now TimeFormatLayout])] @
      (if token = [] then [] else [(''x-amz-security-token'', [token])]))" for token
    by (simp add: sts_headers_def canonical_step.simps Let_def IsValid_IgnoredHeaders lower_names)
  show ?thesis
    by (cases "token = []")
      (simp_all add: buildCanonicalHeaders_def fold canonical_finish_def Let_def sort_names
        sts_names_def canonical_line_def map_get_def clean time_clean del: sort_key_simps)
qed

lemma sts_signed:
  "\<exists>sgnd. buildCanonicalHeaders ''sts.amazonaws.com'' IgnoredHeaders (sts_headers [] now token) 0 =
     (sgnd, sts_names token, snd (snd (buildCanonicalHeaders ''sts.amazonaws.com'' IgnoredHeaders
       (sts_headers [] now token) 0)))"
  by (metis sts_canonical_headers fst_conv snd_conv prod.collapse)

lemma sts_host:
  "SanitizeHostForHeader (hs_Request (sts_signer now key)\<lparr>r_Header := h\<rparr>) =
     hs_Request (sts_signer now key)\<lparr>r_Header := h\<rparr>"
  by (simp add: SanitizeHostForHeader_def sts_signer_def getHost_def portOnly_def Let_def Index_single)

lemma sts_uri: "GetURIPath (r_URL (hs_Request (sts_signer now key))) = Ok ''/''"
  unfolding sts_signer_def by (simp add: GetURIPath_def Let_def, code_simp)

lemma sts_canonical_string:
  "buildCanonicalString (sts_signer now key) ''GET'' ''/'' ''Action=GetCallerIdentity&Version=2011-06-15''
     (sts_names token) (snd (snd (buildCanonicalHeaders ''sts.amazonaws.com'' IgnoredHeaders
       (sts_headers [] now token) 0))) = sts_canonical now token"
  by (simp add: sts_canonical_headers buildCanonicalString_def sts_canonical_def sts_signer_def)

lemma sts_string_to_sign:
  "buildStringToSign (sts_signer now key) (buildCredentialScope (sts_signer now key)) (sts_canonical now token) =
     sts_to_sign now token"
  by (simp add: buildStringToSign_def buildCredentialScope_def sts_to_sign_def sts_scope_def sts_signer_def
      makeHash_def sha256_hash_def)

text \<open>The request that leaves the signer.\<close>

definition sts_signed_request :: "string \<Rightarrow> go_time \<Rightarrow> string \<Rightarrow> bytes \<Rightarrow> http_request" where
  "sts_signed_request keyId now token sig =
     \<lparr>r_Method = ''GET'',
      r_URL = \<lparr>u_Scheme = ''https'', u_Opaque = [], u_Host = ''sts.amazonaws.com'', u_Path = [],
               u_RawPath = [], u_RawQuery = ''Action=GetCallerIdentity&Version=2011-06-15''\<rparr>,
      r_Header = sts_headers (sts_authorization keyId now token sig) now token,
      r_Host = ''sts.amazonaws.com'', r_ContentLength = 0, r_Body = []\<rparr>"

lemma sts_auth_header:
  "AList.update authorizationHeader
     [buildAuthorizationHeader (cr_Context key @ ''/'' @ buildCredentialScope (sts_signer now key))
        (sts_names token) (hex_EncodeToString sig)] (sts_headers [] now token) =
   sts_headers (sts_authorization (cr_Context key) now token sig) now token"
  by (simp add: sts_headers_def sts_authorization_def buildAuthorizationHeader_def buildCredentialScope_def
      sts_scope_def sts_signer_def signer_consts)

lemma sts_signer_request:
  "u_RawQuery (r_URL (hs_Request (sts_signer now key))) = ''Action=GetCallerIdentity&Version=2011-06-15''"
  "u_Host (r_URL (hs_Request (sts_signer now key))) = ''sts.amazonaws.com''"
  "r_Host (hs_Request (sts_signer now key)) = ''sts.amazonaws.com''"
  "r_Header (hs_Request (sts_signer now key)) = []"
  "r_Method (hs_Request (sts_signer now key)) = ''GET''"
  "r_ContentLength (hs_Request (sts_signer now key)) = 0"
  "hs_Credentials (sts_signer now key) = key"
  by (simp_all add: sts_signer_def)

lemma Build_sts:
  "map_outcome sg_Request (Build sign (sts_signer now key)) =
     (case sign (cr_PrivateKey key) (sha256 (bytes_of (sts_to_sign now (cr_SessionToken key)))) of
        Err e \<Rightarrow> Err e
      | Panic p \<Rightarrow> Panic p
      | Ok sig \<Rightarrow> Ok (sts_signed_request (cr_Context key) now (cr_SessionToken key) sig))"
proof -
  obtain sgnd can where b: "buildCanonicalHeaders ''sts.amazonaws.com'' IgnoredHeaders
      (sts_headers [] now (cr_SessionToken key)) 0 = (sgnd, sts_names (cr_SessionToken key), can)"
    using sts_signed by blast
  then have c: "buildCanonicalString (sts_signer now key) ''GET'' ''/''
      ''Action=GetCallerIdentity&Version=2011-06-15'' (sts_names (cr_SessionToken key)) can =
      sts_canonical now (cr_SessionToken key)"
    using sts_canonical_string [of now key "cr_SessionToken key"] by simp
  have r: "hs_Request (sts_signer now key)\<lparr>r_Header := sts_headers (sts_authorization (cr_Context key) now
      (cr_SessionToken key) sig) now (cr_SessionToken key), r_URL := r_URL (hs_Request (sts_signer now key))
      \<lparr>u_RawQuery := ''Action=GetCallerIdentity&Version=2011-06-15''\<rparr>\<rparr> =
      sts_signed_request (cr_Context key) now (cr_SessionToken key) sig" for sig
    by (simp add: sts_signer_def sts_signed_request_def)
  show ?thesis
    by (simp add: Build_def Let_def sts_signer_request sts_fields sts_host sts_query sts_uri b c
        sts_string_to_sign buildSignature_def makeHash_def sts_auth_header [simplified] r
        sha256_hash_def split: outcome.split)
qed

lemma SignV4a_sts:
  "SignV4a sign now ''GET'' sts_url ''sts'' creds cache =
     (case retrievePrivateKey creds cache of
        (Err e, c) \<Rightarrow> (Err e, c)
      | (Panic p, c) \<Rightarrow> (Panic p, c)
      | (Ok key, c) \<Rightarrow>
          (case sign (cr_PrivateKey key) (sha256 (bytes_of (sts_to_sign now (cr_SessionToken key)))) of
             Err e \<Rightarrow> (Err e, c)
           | Panic p \<Rightarrow> (Panic p, c)
           | Ok sig \<Rightarrow> (Ok (sts_signed_request (cr_Context key) now (cr_SessionToken key) sig), c)))"
proof -
  have build: "(case Build sign (sts_signer now key) of
      Err e \<Rightarrow> (Err e, c) | Panic p \<Rightarrow> (Panic p, c) | Ok sr \<Rightarrow> (Ok (sg_Request sr), c)) =
    (map_outcome sg_Request (Build sign (sts_signer now key)), c)" for key and c :: credsCache
    by (cases "Build sign (sts_signer now key)") simp_all
  obtain r c where r: "retrievePrivateKey creds cache = (r, c)" by fastforce
  show ?thesis
  proof (cases r)
    case (Ok key)
    then have "SignV4a sign now ''GET'' sts_url ''sts'' creds cache =
        (map_outcome sg_Request (Build sign (sts_signer now key)), c)"
      unfolding build [symmetric] by (simp add: SignV4a_def r sts_request) (simp add: sts_signer_def)
    with Ok r show ?thesis by (simp add: Build_sts split: outcome.split)
  qed (simp_all add: SignV4a_def r)
qed

end
