(* ===== verification/Signing_Theorems.thy ===== *)
theory Signing_Theorems
  imports Signer_STS
begin

text \<open>
  The theorems about request signing: the constant-time comparison, key derivation and its cache, the
  canonical headers, and the one request the operator signs.
\<close>

section \<open>Key derivation\<close>

text \<open>C26: \<open>ConstantTimeByteCompare\<close> on slices of equal length is the three-way comparison of the
  big-endian numbers they hold, and an error on slices of different length.\<close>

theorem constant_time_compare_order:
  "ConstantTimeByteCompare x y =
     (if length x = length y then Ok (sgn (int (SetBytes x) - int (SetBytes y)))
      else Err (FmtError ''slice lengths do not match'' None))"
  by (rule ConstantTimeByteCompare_eq)

text \<open>C22: the derived private key is one more than the first candidate below \<open>n - 2\<close> among the
  candidates for the counter values 1 to 255, its public point is the base point times the key, and
  without such a candidate the derivation ends with the error for the exhausted counter.\<close>

theorem derive_key_first_candidate:
  "deriveKeyFromAccessKeyPair accessKey secretKey =
     (case find (\<lambda>i. candidate accessKey secretKey i < nMinusTwoP256) [1..<256] of
        None \<Rightarrow> Err (FmtError ''exhausted single byte external counter'' None)
      | Some i \<Rightarrow>
          let d = candidate accessKey secretKey i + 1; (x, y) = ScalarBaseMult (big_Bytes d)
          in Ok \<lparr>priv_Public = \<lparr>pub_X = x, pub_Y = y\<rparr>, priv_D = d\<rparr>)"
  by (simp add: deriveKeyFromAccessKeyPair_def derive_loop_find Let_def split: option.split)

text \<open>C23: a derived private scalar is between 1 and \<open>n - 2\<close>, its public key is the base point times it,
  the only error is the exhausted counter, and the derivation never panics.\<close>

theorem derive_key_range:
  "case deriveKeyFromAccessKeyPair accessKey secretKey of
     Ok k \<Rightarrow> 1 \<le> priv_D k \<and> priv_D k \<le> P256_N - 2 \<and>
             (pub_X (priv_Public k), pub_Y (priv_Public k)) = ScalarBaseMult (big_Bytes (priv_D k))
   | Err e \<Rightarrow> e = FmtError ''exhausted single byte external counter'' None
   | Panic p \<Rightarrow> False"
proof (cases "find (\<lambda>i. candidate accessKey secretKey i < nMinusTwoP256) [1..<256]")
  case None
  then show ?thesis by (simp add: deriveKeyFromAccessKeyPair_def derive_loop_find)
next
  case (Some i)
  then have "candidate accessKey secretKey i < P256_N - 2"
    by (auto simp: find_Some_iff nMinusTwoP256_def)
  then have "Suc (candidate accessKey secretKey i) \<le> P256_N - 2" by simp
  with Some show ?thesis
    by (simp add: deriveKeyFromAccessKeyPair_def derive_loop_find Let_def case_prod_beta)
qed

text \<open>C24: for every bit length of at most 31 bits the counter-mode derivation with SHA-256 ends, without
  an error or panic, with exactly the requested number of bytes of the concatenated HMAC blocks.\<close>

theorem key_derivation_stream:
  assumes "0 \<le> bitLen" "bitLen \<le> 0x7FFFFFFF"
  shows "\<exists>key'. HMACKeyDerivation sha256_hash bitLen key label context = Ok key' \<and>
    key' = take (nat (bitLen div 8)) (kdf_stream sha256_hash bitLen key label context) \<and>
    length key' = nat (bitLen div 8)"
  using sha.HMACKeyDerivation_stream [OF assms, of key label "context"] by simp

theorem key_derivation_stream_witness:
  "\<exists>key'. HMACKeyDerivation sha256_hash 256 [1, 2] [3] [] = Ok key' \<and>
    key' = take (nat (256 div 8)) (kdf_stream sha256_hash 256 [1, 2] [3] []) \<and>
    length key' = nat (256 div 8)"
  by (rule key_derivation_stream) simp_all

section \<open>The key cache\<close>

text \<open>Consecutive calls of \<open>retrievePrivateKey\<close> on the package's cache, which starts empty.\<close>

fun retrieve_run :: "AwsCredentials list \<Rightarrow> credsCache \<Rightarrow> credsCache" where
  "retrieve_run [] cache = cache"
| "retrieve_run (a # as) cache = retrieve_run as (snd (retrievePrivateKey a cache))"

lemma cache_ok_run:
  "cache_ok secret_of cache \<Longrightarrow> \<forall>a \<in> set as. aws_SecretKey a = secret_of (aws_AccessKey a) \<Longrightarrow>
   cache_ok secret_of (retrieve_run as cache)"
  by (induction as arbitrary: cache) (simp_all add: cache_ok_retrieve(1))

text \<open>C21: after any sequence of calls in which an access key determines its secret, a call that succeeds
  returns the private key derived from its own access key and secret, cached or not; it never panics.\<close>

theorem cached_key_coherent:
  assumes "\<forall>a \<in> set (past @ [current]). aws_SecretKey a = secret_of (aws_AccessKey a)"
  shows "case fst (retrievePrivateKey current (retrieve_run past None)) of
      Ok c \<Rightarrow> cr_Context c = aws_AccessKey current \<and>
        deriveKeyFromAccessKeyPair (aws_AccessKey current) (aws_SecretKey current) = Ok (cr_PrivateKey c)
    | Err e \<Rightarrow> e = FmtError ''failed to derive asymmetric key from credentials'' None
    | Panic p \<Rightarrow> False"
proof -
  have ok: "cache_ok secret_of (retrieve_run past None)" "aws_SecretKey current = secret_of (aws_AccessKey current)"
    using assms cache_ok_run [of secret_of None past] by (simp_all add: cache_ok_def [of _ None])
  have "deriveKeyFromAccessKeyPair a b \<noteq> Panic p" for a b p
    by (simp add: deriveKeyFromAccessKeyPair_def derive_loop_find Let_def case_prod_beta split: option.split)
  then have "fst (retrievePrivateKey current c) \<noteq> Panic p" for c p
    by (simp add: retrievePrivateKey_def Let_def split: option.split outcome.split)
  moreover have "fst (retrievePrivateKey current c) = Err e \<Longrightarrow>
      e = FmtError ''failed to derive asymmetric key from credentials'' None" for c e
    by (auto simp: retrievePrivateKey_def Let_def split: option.splits outcome.splits if_splits)
  ultimately show ?thesis
    using cache_ok_retrieve(2) [OF ok] by (simp split: outcome.split)
qed

theorem cached_key_coherent_witness:
  "case fst (retrievePrivateKey \<lparr>aws_AccessKey = ''AKID'', aws_SecretKey = ''s'', aws_RegionName = [], aws_SessionToken = ''t2''\<rparr>
      (retrieve_run [\<lparr>aws_AccessKey = ''AKID'', aws_SecretKey = ''s'', aws_RegionName = [], aws_SessionToken = ''t1''\<rparr>] None)) of
      Ok c \<Rightarrow> cr_Context c = ''AKID'' \<and> deriveKeyFromAccessKeyPair ''AKID'' ''s'' = Ok (cr_PrivateKey c)
    | Err e \<Rightarrow> e = FmtError ''failed to derive asymmetric key from credentials'' None
    | Panic p \<Rightarrow> False"
  using cached_key_coherent
    [of "[\<lparr>aws_AccessKey = ''AKID'', aws_SecretKey = ''s'', aws_RegionName = [], aws_SessionToken = ''t1''\<rparr>]"
        "\<lparr>aws_AccessKey = ''AKID'', aws_SecretKey = ''s'', aws_RegionName = [], aws_SessionToken = ''t2''\<rparr>" "\<lambda>_. ''s''"]
  by (simp cong: outcome.case_cong)

text \<open>a call whose access key is the cached one returns the cached entry as it is, hence with the
  session token of the call that filled the cache, whatever token the new credentials carry.\<close>

lemma cache_hit_keeps_session_token:
  "retrievePrivateKey \<lparr>aws_AccessKey = cr_Context c, aws_SecretKey = s, aws_RegionName = r, aws_SessionToken = t\<rparr> (Some c)
     = (Ok c, Some c)"
  by (simp add: retrievePrivateKey_def)

section \<open>Canonical form\<close>

text \<open>C34: \<open>StripExcessSpaces\<close>, with its in-place buffer and index arithmetic, returns the words of the
  string separated by single spaces.\<close>

theorem strip_excess_spaces_words:
  "StripExcessSpaces s = Join (filter (\<lambda>w. w \<noteq> []) (Split s (CHR '' ''))) '' ''"
  by (simp add: StripExcessSpaces_words space_words_def)

text \<open>C25: the signed header names and the canonical header block do not depend on the order in which the
  runtime visits the header map, for headers without two spellings of one name.\<close>

theorem canonical_headers_order:
  assumes "one_spelling rule h" "mset h = mset h'"
  shows "snd (buildCanonicalHeaders host rule h len) = snd (buildCanonicalHeaders host rule h' len)"
  using canon_empty.finish_order [OF assms] canon_length.finish_order [OF assms]
  by (simp add: buildCanonicalHeaders_def)

theorem canonical_headers_order_witness:
  "one_spelling IgnoredHeaders [(''Host'', [''a'']), (''X-Amz-Date'', [''b''])] \<and>
   snd (buildCanonicalHeaders ''a'' IgnoredHeaders [(''Host'', [''a'']), (''X-Amz-Date'', [''b''])] 3) =
   snd (buildCanonicalHeaders ''a'' IgnoredHeaders [(''X-Amz-Date'', [''b'']), (''Host'', [''a''])] 3)"
proof -
  have "one_spelling IgnoredHeaders [(''Host'', [''a'']), (''X-Amz-Date'', [''b''])]"
    by (simp add: one_spelling_def IsValid_IgnoredHeaders lower_names)
  then show ?thesis
    using canonical_headers_order [of IgnoredHeaders "[(''Host'', [''a'']), (''X-Amz-Date'', [''b''])]"
        "[(''X-Amz-Date'', [''b'']), (''Host'', [''a''])]"] by simp
qed

text \<open>A host with a port splits into the part before the colon and the port, and a request's host is
  sent without its port exactly when that is the default port of the scheme.\<close>

lemma sanitize_default_port:
  assumes "CHR '':'' \<notin> set h" "CHR '']'' \<notin> set h" "CHR '']'' \<notin> set p" "p \<noteq> []"
    and "r_Host r = h @ '':'' @ p"
  shows "r_Host (SanitizeHostForHeader r) =
    (if ToLower (u_Scheme (r_URL r)) = ''http'' \<and> p = ''80'' \<or> ToLower (u_Scheme (r_URL r)) = ''https'' \<and> p = ''443''
     then h else h @ '':'' @ p)"
  using host_port_split [OF assms(1-3)] assms(4,5)
  by (simp add: SanitizeHostForHeader_def getHost_def isDefaultPort_def Let_def)

lemma sanitize_default_port_witness:
  "r_Host (SanitizeHostForHeader \<lparr>r_Method = ''GET'',
      r_URL = \<lparr>u_Scheme = ''https'', u_Opaque = [], u_Host = [], u_Path = [], u_RawPath = [], u_RawQuery = []\<rparr>,
      r_Header = [], r_Host = ''h:443'', r_ContentLength = 0, r_Body = []\<rparr>) = ''h''"
proof -
  have "ToLower ''https'' = ''https''" by code_simp
  then show ?thesis
    using sanitize_default_port [of "''h''" "''443''" "\<lparr>r_Method = ''GET'',
      r_URL = \<lparr>u_Scheme = ''https'', u_Opaque = [], u_Host = [], u_Path = [], u_RawPath = [], u_RawQuery = []\<rparr>,
      r_Header = [], r_Host = ''h:443'', r_ContentLength = 0, r_Body = []\<rparr>"] by simp
qed

text \<open>the signing time's cached formats always agree with formatting the time afresh, after any
  number of calls.\<close>

lemma signing_time_cache:
  "fst (TimeFormat (snd (ShortTimeFormat (snd (TimeFormat (NewSigningTime t)))))) = time_Format t TimeFormatLayout \<and>
   fst (ShortTimeFormat (snd (TimeFormat (snd (ShortTimeFormat (NewSigningTime t)))))) = time_Format t ShortTimeFormatLayout"
  by (simp add: TimeFormat_ok ShortTimeFormat_ok st_ok_New) (simp add: NewSigningTime_def)

text \<open>a header may be moved to the query exactly when it is an \<open>X-Amz-\<close> header that is neither one of
  the headers that must be signed nor object metadata.\<close>

lemma query_hoisting_rule:
  "IsValid AllowedQueryHoisting h \<longleftrightarrow>
     hasPrefixFold h ''X-Amz-'' \<and> h \<notin> set required_header_names \<and> \<not> hasPrefixFold h ''X-Amz-Meta-''"
  by (rule IsValid_AllowedQueryHoisting)

section \<open>The signed STS request\<close>

text \<open>C9: signing the request for \<open>GetCallerIdentity\<close> yields, for every key, token, time and signature, the
  request with the region set, date, token and authorization headers of SigV4a; the bytes signed are
  the hash of the string to sign over the canonical request; errors of the key lookup and of the
  signature are passed on.\<close>

theorem sign_sts_request:
  "SignV4a sign now ''GET'' sts_url ''sts'' creds cache =
     (case retrievePrivateKey creds cache of
        (Err e, c) \<Rightarrow> (Err e, c)
      | (Panic p, c) \<Rightarrow> (Panic p, c)
      | (Ok key, c) \<Rightarrow>
          (case sign (cr_PrivateKey key) (sha256 (bytes_of (sts_to_sign now (cr_SessionToken key)))) of
             Err e \<Rightarrow> (Err e, c)
           | Panic p \<Rightarrow> (Panic p, c)
           | Ok sig \<Rightarrow> (Ok (sts_signed_request (cr_Context key) now (cr_SessionToken key) sig), c)))"
  by (rule SignV4a_sts)

text \<open>the constant the signer uses for the hash of an empty payload is the SHA-256 of the empty string.\<close>

lemma empty_payload_hash: "EmptyStringSHA256 = hex_EncodeToString (sha256 [])"
  unfolding EmptyStringSHA256_def by code_simp

end
