(* ===== verification/V4a_Signer.thy ===== *)
theory V4a_Signer
  imports Signer
begin

text \<open>
  internal/sign/v4a/v4a.go and error.go: the general SigV4a signer, with presigned URLs and header
  hoisting.  The file repeats several functions of internal/sign/signer.go; they are modelled again,
  with the suffix \<open>_v4a\<close>, and proved equal to the others.  \<open>escape_path\<close> stands for
  \<open>httpbinding.EscapePath(path, false)\<close> of smithy-go, \<open>sign\<close> for the signature of crypto/ecdsa with its
  random source.  The log line of a signed request is left out.
\<close>

section \<open>error.go\<close>

text \<open>\<open>SigningError\<close> wraps an error; \<open>%v\<close> prints a nil one as \<open><nil>\<close>.\<close>

definition SigningError :: "goerror option \<Rightarrow> goerror" where
  "SigningError err =
     FmtError (''failed to sign request: '' @ (case err of None \<Rightarrow> ''<nil>'' | Some e \<Rightarrow> Error e)) err"

lemma SigningError_unwraps: "as_ReconcileError (SigningError (Some e)) = as_ReconcileError e"
  by (simp add: SigningError_def)

section \<open>Options\<close>

record SignerOptions =
  so_LogSigning :: bool
  so_DisableHeaderHoisting :: bool
  so_DisableURIPathEscaping :: bool

record v4aSigner =
  si_options :: SignerOptions

definition apply_options :: "(SignerOptions \<Rightarrow> SignerOptions) list \<Rightarrow> SignerOptions \<Rightarrow> SignerOptions" where
  "apply_options optFns options = foldl (\<lambda>options fn. fn options) options optFns"

definition NewSigner :: "(SignerOptions \<Rightarrow> SignerOptions) list \<Rightarrow> v4aSigner" where
  "NewSigner optFns =
     \<lparr>si_options = apply_options optFns
        \<lparr>so_LogSigning = False, so_DisableHeaderHoisting = False, so_DisableURIPathEscaping = False\<rparr>\<rparr>"

section \<open>Key derivation\<close>

definition nMinusTwoP256_v4a :: nat where
  "nMinusTwoP256_v4a = SetBytes (big_Bytes P256_N) - 2"

function derive_loop_v4a :: "string \<Rightarrow> bytes \<Rightarrow> nat \<Rightarrow> nat outcome" where
  "derive_loop_v4a accessKey inputKey counter =
     (case HMACKeyDerivation sha256_hash P256_BitSize inputKey (bytes_of signingAlgorithm)
             (bytes_of accessKey @ [word_of_nat counter]) of
        Err e \<Rightarrow> Err e
      | Panic p \<Rightarrow> Panic p
      | Ok key \<Rightarrow>
          (case ConstantTimeByteCompare key (big_Bytes nMinusTwoP256_v4a) of
             Err e \<Rightarrow> Err e
           | Panic p \<Rightarrow> Panic p
           | Ok cmp \<Rightarrow>
               if cmp = -1 then Ok (SetBytes key)
               else if counter + 1 > 0xFF then Err (FmtError ''exhausted single byte external counter'' None)
               else derive_loop_v4a accessKey inputKey (counter + 1)))"
  by pat_completeness auto
termination by (relation "measure (\<lambda>(a, i, counter). 0xFF - counter)") auto

declare derive_loop_v4a.simps [simp del]

definition deriveKeyFromAccessKeyPair_v4a :: "string \<Rightarrow> string \<Rightarrow> ecdsa_private_key outcome" where
  "deriveKeyFromAccessKeyPair_v4a accessKey secretKey =
     (case derive_loop_v4a accessKey (bytes_of ''AWS4A'' @ bytes_of secretKey) 1 of
        Err e \<Rightarrow> Err e
      | Panic p \<Rightarrow> Panic p
      | Ok d \<Rightarrow>
          let d = d + 1; (x, y) = ScalarBaseMult (big_Bytes d)
          in Ok \<lparr>priv_Public = \<lparr>pub_X = x, pub_Y = y\<rparr>, priv_D = d\<rparr>)"

section \<open>The request signer\<close>

text \<open>The fields of \<open>httpSigner\<close> that the signer of internal/sign/signer.go does not have extend its record.\<close>

record httpSigner_v4a = httpSigner +
  gs_IsPreSign :: bool
  gs_DisableHeaderHoisting :: bool
  gs_DisableURIPathEscaping :: bool

record signedRequest_v4a = signedRequest +
  gq_PreSigned :: bool

text \<open>Presigning writes to the query values, signing to the headers.\<close>

definition setRequiredSigningFields_v4a ::
    "httpSigner_v4a \<Rightarrow> http_header \<Rightarrow> url_values \<Rightarrow> http_header \<times> url_values" where
  "setRequiredSigningFields_v4a s headers query =
     (let amzDate = time_Format (hs_Time s) TimeFormatLayout;
          token = cr_SessionToken (hs_Credentials s)
      in if gs_IsPreSign s then
           (let query = values_Set AmzRegionSetKey (Join (hs_RegionSet s) '','') query;
                query = values_Set AmzDateKey amzDate query;
                query = values_Set AmzAlgorithmKey signingAlgorithm query
            in (headers, if length token > 0 then values_Set AmzSecurityTokenKey token query else query))
         else
           (let headers = header_Set AmzRegionSetKey (Join (hs_RegionSet s) '','') headers;
                headers = header_Set AmzDateKey amzDate headers
            in (if length token > 0 then header_Set AmzSecurityTokenKey token headers else headers, query)))"

definition buildAuthorizationHeader_v4a :: "string \<Rightarrow> string \<Rightarrow> string \<Rightarrow> string" where
  "buildAuthorizationHeader_v4a credentialStr signedHeadersStr signingSignature =
     signingAlgorithm @ '' '' @ ''Credential='' @ credentialStr @ '', '' @
     ''SignedHeaders='' @ signedHeadersStr @ '', '' @ ''Signature='' @ signingSignature"

definition buildCredentialScope_v4a :: "httpSigner_v4a \<Rightarrow> string" where
  "buildCredentialScope_v4a s =
     Join [time_Format (hs_Time s) ShortTimeFormatLayout, hs_ServiceName s, ''aws4_request''] ''/''"

text \<open>The loop that splits the headers: the valid ones go to the query values, the others stay.\<close>

fun buildQuery_loop :: "rule \<Rightarrow> http_header \<Rightarrow> url_values \<Rightarrow> http_header \<Rightarrow> url_values \<times> http_header" where
  "buildQuery_loop r [] query unsignedHeaders = (query, unsignedHeaders)"
| "buildQuery_loop r ((k, h) # header) query unsignedHeaders =
     (if IsValid r k then buildQuery_loop r header (AList.update k h query) unsignedHeaders
      else buildQuery_loop r header query (AList.update k h unsignedHeaders))"

definition buildQuery :: "rule \<Rightarrow> http_header \<Rightarrow> url_values \<times> http_header" where
  "buildQuery r header = buildQuery_loop r header [] []"

text \<open>\<open>for k := range urlValues { query[k] = urlValues[k] }\<close>.\<close>

definition add_values :: "url_values \<Rightarrow> url_values \<Rightarrow> url_values" where
  "add_values urlValues query = foldl (\<lambda>query (k, v). AList.update k v query) query urlValues"

text \<open>The canonical headers start with the host, and the content length when there is one.\<close>

definition buildCanonicalHeaders_v4a ::
    "string \<Rightarrow> rule \<Rightarrow> http_header \<Rightarrow> int \<Rightarrow> http_header \<times> string \<times> string" where
  "buildCanonicalHeaders_v4a host rule header len =
     (let headers = [''host'']; sgnd = [(''host'', [host])];
          (headers, sgnd) = (if len > 0
             then (headers @ [''content-length''], AList.update ''content-length'' [FormatInt len] sgnd)
             else (headers, sgnd))
      in canonical_finish host (foldl (canonical_step rule) (headers, sgnd) header))"

definition buildCanonicalString_v4a ::
    "httpSigner_v4a \<Rightarrow> string \<Rightarrow> string \<Rightarrow> string \<Rightarrow> string \<Rightarrow> string \<Rightarrow> string" where
  "buildCanonicalString_v4a s method uri query signedHeaders canonicalHeaders =
     Join [method, uri, query, canonicalHeaders, signedHeaders, hs_PayloadHash s] [CHR 0x0A]"

definition makeHash_v4a :: "go_hash \<Rightarrow> bytes \<Rightarrow> bytes" where
  "makeHash_v4a hash b = h_Sum hash b"

definition buildStringToSign_v4a :: "httpSigner_v4a \<Rightarrow> string \<Rightarrow> string \<Rightarrow> string" where
  "buildStringToSign_v4a s credentialScope canonicalRequestString =
     Join [signingAlgorithm, time_Format (hs_Time s) TimeFormatLayout, credentialScope,
           hex_EncodeToString (makeHash_v4a sha256_hash (bytes_of canonicalRequestString))] [CHR 0x0A]"

definition buildSignature_v4a :: "ecdsa_sign \<Rightarrow> httpSigner_v4a \<Rightarrow> string \<Rightarrow> string outcome" where
  "buildSignature_v4a sign s strToSign =
     (case sign (cr_PrivateKey (hs_Credentials s)) (makeHash_v4a sha256_hash (bytes_of strToSign)) of
        Err e \<Rightarrow> Err e
      | Panic p \<Rightarrow> Panic p
      | Ok sig \<Rightarrow> Ok (hex_EncodeToString sig))"

text \<open>
  The query values of the request before it is signed: the ones of its URL with the required fields,
  each key's values sorted, and for a presigned request the credential and the hoisted headers.  The
  second component are the headers left to sign.
\<close>

definition prepare_query :: "httpSigner_v4a \<Rightarrow> http_header \<Rightarrow> url_values \<Rightarrow> string \<Rightarrow> url_values \<times> http_header" where
  "prepare_query s headers query credentialStr =
     (let query = map (\<lambda>(k, vs). (k, sort vs)) query;
          query = (if gs_IsPreSign s then values_Set AmzCredentialKey credentialStr query else query)
      in if gs_IsPreSign s \<and> \<not> gs_DisableHeaderHoisting s
         then let (urlValues, unsignedHeaders) = buildQuery AllowedQueryHoisting headers
              in (add_values urlValues query, unsignedHeaders)
         else (query, headers))"

text \<open>The second half of \<open>Build\<close>, from the canonical headers on.\<close>

definition finish_build ::
    "(string \<Rightarrow> string) \<Rightarrow> ecdsa_sign \<Rightarrow> httpSigner_v4a \<Rightarrow> http_request \<Rightarrow> url_values \<Rightarrow> http_header \<Rightarrow> signedRequest_v4a outcome" where
  "finish_build escape_path sign s req query unsignedHeaders =
     (let host = (if length (r_Host req) > 0 then r_Host req else u_Host (r_URL req));
          credentialScope = buildCredentialScope_v4a s;
          credentialStr = cr_Context (hs_Credentials s) @ ''/'' @ credentialScope;
          (signedHeaders, signedHeadersStr, canonicalHeaderStr) =
             buildCanonicalHeaders_v4a host IgnoredHeaders unsignedHeaders (r_ContentLength req);
          query = (if gs_IsPreSign s then values_Set AmzSignedHeadersKey signedHeadersStr query else query);
          rawQuery = ReplaceByte (values_Encode query) (CHR ''+'') ''%20''
      in case GetURIPath (r_URL req) of
           Err e \<Rightarrow> Err e
         | Panic p \<Rightarrow> Panic p
         | Ok uri \<Rightarrow>
             let canonicalURI = (if gs_DisableURIPathEscaping s then uri else escape_path uri);
                 canonicalString = buildCanonicalString_v4a s (r_Method req) canonicalURI rawQuery
                                     signedHeadersStr canonicalHeaderStr;
                 strToSign = buildStringToSign_v4a s credentialScope canonicalString
             in case buildSignature_v4a sign s strToSign of
                  Err e \<Rightarrow> Err e
                | Panic p \<Rightarrow> Panic p
                | Ok signingSignature \<Rightarrow>
                    let rawQuery = (if gs_IsPreSign s then rawQuery @ ''&X-Amz-Signature='' @ signingSignature else rawQuery);
                        headers = (if gs_IsPreSign s then r_Header req
                          else AList.update authorizationHeader
                                 [buildAuthorizationHeader_v4a credentialStr signedHeadersStr signingSignature] (r_Header req));
                        req = req\<lparr>r_Header := headers, r_URL := (r_URL req)\<lparr>u_RawQuery := rawQuery\<rparr>\<rparr>
                    in Ok \<lparr>sg_Request = req, sg_SignedHeaders = signedHeaders, sg_CanonicalString = canonicalString,
                            sg_StringToSign = strToSign, gq_PreSigned = gs_IsPreSign s\<rparr>)"

definition Build_v4a :: "(string \<Rightarrow> string) \<Rightarrow> ecdsa_sign \<Rightarrow> httpSigner_v4a \<Rightarrow> signedRequest_v4a outcome" where
  "Build_v4a escape_path sign s =
     (let req = hs_Request s;
          (headers, query) = setRequiredSigningFields_v4a s (r_Header req) (ParseQuery (u_RawQuery (r_URL req)));
          req = SanitizeHostForHeader (req\<lparr>r_Header := headers\<rparr>);
          credentialStr = cr_Context (hs_Credentials s) @ ''/'' @ buildCredentialScope_v4a s;
          (query, unsignedHeaders) = prepare_query s headers query credentialStr
      in finish_build escape_path sign s req query unsignedHeaders)"

section \<open>URLs as strings\<close>

text \<open>
  \<open>URL.String\<close> for the URLs of the model, which have no user information and no fragment.
\<close>

definition host_plain :: "char \<Rightarrow> bool" where
  "host_plain c \<longleftrightarrow> is_alnum c \<or> c \<in> set ''-_.~!$&()*+,;=:[]<>'' \<or> c = CHR 0x27 \<or> c = CHR 0x22"

definition escape_host :: "string \<Rightarrow> string" where
  "escape_host h = concat (map (\<lambda>c. if host_plain c then [c] else percent c) h)"

definition url_String :: "go_url \<Rightarrow> string" where
  "url_String u =
     (let scheme = (if u_Scheme u = [] then [] else u_Scheme u @ '':'');
          rest = (if u_Opaque u \<noteq> [] then u_Opaque u
            else let slashes = (if (u_Scheme u \<noteq> [] \<or> u_Host u \<noteq> []) \<and> (u_Host u \<noteq> [] \<or> u_Path u \<noteq> []) then ''//'' else []);
                     host = escape_host (u_Host u);
                     path = EscapedPath u;
                     slash = (if path \<noteq> [] \<and> hd path \<noteq> CHR ''/'' \<and> u_Host u \<noteq> [] then ''/'' else []);
                     dot = (if scheme @ slashes @ host @ slash = [] \<and> CHR '':'' \<in> set (fst (Cut path (CHR ''/''))) then ''./'' else [])
                 in slashes @ host @ slash @ dot @ path)
      in scheme @ rest @ (if u_RawQuery u = [] then [] else ''?'' @ u_RawQuery u))"

section \<open>The two entry points\<close>

definition signer_of ::
    "SignerOptions \<Rightarrow> bool \<Rightarrow> V4aCredentials \<Rightarrow> http_request \<Rightarrow> string \<Rightarrow> string \<Rightarrow> string list \<Rightarrow> go_time \<Rightarrow> httpSigner_v4a" where
  "signer_of options preSign credentials r payloadHash service regionSet signingTime =
     \<lparr>hs_Request = r, hs_ServiceName = service, hs_RegionSet = regionSet, hs_Time = signingTime,
      hs_Credentials = credentials, hs_PayloadHash = payloadHash, gs_IsPreSign = preSign,
      gs_DisableHeaderHoisting = so_DisableHeaderHoisting options,
      gs_DisableURIPathEscaping = so_DisableURIPathEscaping options\<rparr>"

text \<open>
  The times of the model are in UTC already.  \<open>SignHTTP\<close> changes the request it is given; the model
  returns the new one.
\<close>

definition SignHTTP ::
    "(string \<Rightarrow> string) \<Rightarrow> ecdsa_sign \<Rightarrow> v4aSigner \<Rightarrow> V4aCredentials \<Rightarrow> http_request \<Rightarrow> string \<Rightarrow> string \<Rightarrow> string list \<Rightarrow>
     go_time \<Rightarrow> (SignerOptions \<Rightarrow> SignerOptions) list \<Rightarrow> http_request outcome" where
  "SignHTTP escape_path sign s credentials r payloadHash service regionSet signingTime optFns =
     (let options = apply_options optFns (si_options s);
          signer = signer_of options False credentials r payloadHash service regionSet signingTime
      in case Build_v4a escape_path sign signer of
           Err e \<Rightarrow> Err e
         | Panic p \<Rightarrow> Panic p
         | Ok signedRequest \<Rightarrow> Ok (sg_Request signedRequest))"

text \<open>\<open>signedHeaders[key] = append(signedHeaders[key], v...)\<close> with the canonical key.\<close>

definition canonical_keys :: "http_header \<Rightarrow> http_header" where
  "canonical_keys header =
     foldl (\<lambda>signedHeaders (k, v). let key = CanonicalMIMEHeaderKey k
              in AList.update key (map_get [] signedHeaders key @ v) signedHeaders) [] header"

definition PresignHTTP ::
    "(string \<Rightarrow> string) \<Rightarrow> ecdsa_sign \<Rightarrow> v4aSigner \<Rightarrow> V4aCredentials \<Rightarrow> http_request \<Rightarrow> string \<Rightarrow> string \<Rightarrow> string list \<Rightarrow>
     go_time \<Rightarrow> (SignerOptions \<Rightarrow> SignerOptions) list \<Rightarrow> (string \<times> http_header) outcome" where
  "PresignHTTP escape_path sign s credentials r payloadHash service regionSet signingTime optFns =
     (let options = apply_options optFns (si_options s);
          signer = signer_of options True credentials r payloadHash service regionSet signingTime
      in case Build_v4a escape_path sign signer of
           Err e \<Rightarrow> Err e
         | Panic p \<Rightarrow> Panic p
         | Ok signedRequest \<Rightarrow>
             Ok (url_String (r_URL (sg_Request signedRequest)), canonical_keys (sg_SignedHeaders signedRequest)))"

end
