(* ===== verification/Go_Query.thy ===== *)
theory Go_Query
  imports Go_Url
begin

text \<open>
  Query strings.  \<open>Values.Encode\<close> followed by the signers' replacement of \<open>+\<close> by \<open>%20\<close> is undone by
  parsing, key by key; appending a parameter to an encoded query adds one value.
\<close>

definition query_escape :: "string \<Rightarrow> string" where
  "query_escape s = ReplaceByte (escape encodeQueryComponent s) (CHR ''+'') ''%20''"

lemma ReplaceByte_append: "ReplaceByte (s @ t) c new = ReplaceByte s c new @ ReplaceByte t c new"
  by (induction s) simp_all

lemma ReplaceByte_absent: "c \<notin> set s \<Longrightarrow> ReplaceByte s c new = s"
  by (induction s) auto

lemma ReplaceByte_Join:
  "c \<noteq> sep \<Longrightarrow> ReplaceByte (Join ss [sep]) c new = Join (map (\<lambda>s. ReplaceByte s c new) ss) [sep]"
  by (induction ss "[sep]" rule: Join.induct) (simp_all add: ReplaceByte_append)

text \<open>One escaped character.\<close>

definition query_char :: "char \<Rightarrow> string" where
  "query_char c = (if c \<noteq> CHR '' '' \<and> \<not> shouldEscape c encodeQueryComponent then [c] else percent c)"

lemma hex_digit_plain: "n < 16 \<Longrightarrow> upperhex ! n \<notin> set ''+&=; ''"
proof -
  have "\<forall>n < 16. upperhex ! n \<notin> set ''+&=; ''"
    by (simp add: upperhex_def All_less_Suc numeral_eq_Suc)
  then show "n < 16 \<Longrightarrow> ?thesis" by simp
qed

lemma percent_plain: "set (percent c) \<inter> set ''+&=; '' = {}"
proof -
  have "of_char c div 16 < (16 :: nat)" "of_char c mod 16 < (16 :: nat)"
    using nat_of_char_less_256 [of c] by (simp_all add: less_mult_imp_div_less)
  then show ?thesis using hex_digit_plain by (auto simp: percent_def)
qed

lemma query_escape_chars: "query_escape s = concat (map query_char s)"
proof (induction s)
  case (Cons c s)
  have "percent (CHR '' '') = ''%20''" by code_simp
  moreover have "ReplaceByte (percent c) (CHR ''+'') ''%20'' = percent c"
    using percent_plain [of c] by (intro ReplaceByte_absent) auto
  moreover have "\<not> shouldEscape c encodeQueryComponent \<Longrightarrow> c \<noteq> CHR ''+''"
    by (auto simp: is_alnum_def less_eq_char_def)
  ultimately have "ReplaceByte (if c = CHR '' '' then ''+'' else if shouldEscape c encodeQueryComponent then percent c else [c])
      (CHR ''+'') ''%20'' = query_char c"
    by (auto simp: query_char_def simp del: shouldEscape.simps)
  then show ?case
    using Cons by (simp add: query_escape_def escape_def ReplaceByte_append del: shouldEscape.simps)
qed (simp add: query_escape_def escape_def)

lemma query_escape_plain: "set (query_escape s) \<inter> set ''+&=; '' = {}"
proof -
  have "set (query_char c) \<inter> set ''+&=; '' = {}" for c
    using percent_plain [of c] by (auto simp: query_char_def is_alnum_def less_eq_char_def split: if_splits)
  then show ?thesis by (auto simp: query_escape_chars)
qed

lemma unescape_query_escape: "unescape encodeQueryComponent (query_escape s) = Some s"
proof (induction s)
  case (Cons c s)
  have "shouldEscape (CHR ''%'') encodeQueryComponent" "shouldEscape (CHR ''+'') encodeQueryComponent"
    by (simp_all add: is_alnum_def less_eq_char_def)
  with Cons show ?case by (auto simp: query_escape_chars query_char_def simp del: shouldEscape.simps)
qed (simp add: query_escape_chars)

text \<open>Characters that need no escape.\<close>

lemma query_escape_id: "\<forall>c \<in> set s. c \<noteq> CHR '' '' \<and> \<not> shouldEscape c encodeQueryComponent \<Longrightarrow> query_escape s = s"
  by (induction s) (simp_all add: query_escape_chars query_char_def del: shouldEscape.simps)

section \<open>Parsing an encoded query\<close>

definition query_pair :: "string \<times> string \<Rightarrow> string" where
  "query_pair kv = query_escape (fst kv) @ ''='' @ query_escape (snd kv)"

lemma query_part_pair: "query_part (query_pair (k, v)) q = values_Add k v q"
proof -
  have a: "CHR '';'' \<notin> set (query_pair (k, v))" "CHR ''='' \<notin> set (query_escape k)"
    using query_escape_plain [of k] query_escape_plain [of v] by (auto simp: query_pair_def)
  then have "Cut (query_pair (k, v)) (CHR ''='') = (query_escape k, query_escape v)"
    by (simp add: Cut_def query_pair_def IndexByte_append)
  moreover have "query_pair (k, v) \<noteq> []" by (simp add: query_pair_def)
  ultimately show ?thesis using a by (simp add: query_part_def unescape_query_escape)
qed

lemma Split_Join:
  "ss \<noteq> [] \<Longrightarrow> \<forall>s \<in> set ss. sep \<notin> set s \<Longrightarrow> Split (Join ss [sep]) sep = ss"
  by (induction ss "[sep]" rule: Join.induct) (simp_all add: Split_append Split_no_sep)

lemma Split_append_sep: "Split (s @ sep # t) sep = Split s sep @ Split t sep"
  by (induction s) (simp_all add: split: list.split)

definition query_pairs :: "url_values \<Rightarrow> (string \<times> string) list" where
  "query_pairs q = concat (map (\<lambda>k. map (Pair k) (map_get [] q k)) (sort (map fst q)))"

lemma encoded_query: "ReplaceByte (values_Encode q) (CHR ''+'') ''%20'' = Join (map query_pair (query_pairs q)) ''&''"
proof -
  have pair: "ReplaceByte (escape encodeQueryComponent k @ ''='' @ escape encodeQueryComponent v) (CHR ''+'') ''%20'' =
      query_pair (k, v)" for k v
    by (simp add: query_pair_def query_escape_def ReplaceByte_append)
  show ?thesis
    by (simp add: values_Encode_def query_pairs_def ReplaceByte_Join map_concat comp_def pair [simplified])
qed

lemma fold_values_Add:
  "map_get [] (foldl (\<lambda>q kv. values_Add (fst kv) (snd kv) q) q ps) k =
     map_get [] q k @ map snd (filter (\<lambda>kv. fst kv = k) ps)"
  by (induction ps arbitrary: q) (auto simp: values_Add_def)

lemma ParseQuery_pairs:
  "ParseQuery (Join (map query_pair ps) ''&'') = foldl (\<lambda>q kv. values_Add (fst kv) (snd kv) q) [] ps"
proof (cases "ps = []")
  case False
  have "\<forall>s \<in> set (map query_pair ps). CHR ''&'' \<notin> set s"
  proof
    fix s assume "s \<in> set (map query_pair ps)"
    then obtain k v where s: "s = query_pair (k, v)" by auto
    show "CHR ''&'' \<notin> set s"
      using query_escape_plain [of k] query_escape_plain [of v] by (auto simp: s query_pair_def)
  qed
  with False have "Split (Join (map query_pair ps) ''&'') (CHR ''&'') = map query_pair ps"
    by (simp add: Split_Join)
  moreover have "foldl (\<lambda>q part. query_part part q) q (map query_pair ps) =
      foldl (\<lambda>q kv. values_Add (fst kv) (snd kv) q) q ps" for q
    by (induction ps arbitrary: q) (simp_all add: query_part_pair [of "fst kv" "snd kv" for kv, simplified])
  ultimately show ?thesis by (simp add: ParseQuery_def)
qed (simp add: ParseQuery_def query_part_def)

lemma query_pairs_key:
  assumes "wf_map q"
  shows "map snd (filter (\<lambda>kv. fst kv = k) (query_pairs q)) = map_get [] q k"
proof -
  have "map snd (filter (\<lambda>kv. fst kv = k) (concat (map (\<lambda>k. map (Pair k) (map_get [] q k)) ks))) =
      (if k \<in> set ks then map_get [] q k else [])" if "distinct ks" for ks
    using that by (induction ks) (auto simp: filter_map comp_def filter_empty_conv)
  then have "map snd (filter (\<lambda>kv. fst kv = k) (query_pairs q)) = (if k \<in> fst ` set q then map_get [] q k else [])"
    using assms by (simp add: query_pairs_def)
  then show ?thesis by (auto simp: map_get_def map_of_eq_None_iff [THEN iffD2] split: option.split)
qed

text \<open>The round trip.\<close>

lemma ParseQuery_encoded:
  assumes "wf_map q"
  shows "map_get [] (ParseQuery (ReplaceByte (values_Encode q) (CHR ''+'') ''%20'')) k = map_get [] q k"
  by (simp add: encoded_query ParseQuery_pairs fold_values_Add query_pairs_key [OF assms])

lemma ParseQuery_append:
  "CHR ''&'' \<notin> set p \<Longrightarrow> ParseQuery (s @ ''&'' @ p) = query_part p (ParseQuery s)"
  by (simp add: ParseQuery_def Split_append_sep Split_no_sep)

end
