(* ===== verification/V4a_Theorems.thy ===== *)
theory V4a_Theorems
  imports V4a_Signer Go_Query
begin

text \<open>
  The general signer: what a presigned URL carries, which headers are signed, and its agreement with the
  signer of internal/sign/signer.go.
\<close>

section \<open>The repeated functions\<close>

lemma derive_loop_v4a: "derive_loop_v4a a i n = derive_loop a i n"
proof (induction a i n rule: derive_loop_v4a.induct)
  case (1 a i n)
  have "nMinusTwoP256_v4a = nMinusTwoP256"
    by (simp add: nMinusTwoP256_v4a_def nMinusTwoP256_def)
  with 1 show ?case
    by (subst derive_loop_v4a.simps, subst derive_loop.simps)
       (simp split: outcome.split)
qed

lemma repeated:
  "deriveKeyFromAccessKeyPair_v4a = deriveKeyFromAccessKeyPair"
  "buildAuthorizationHeader_v4a = buildAuthorizationHeader"
  "buildCredentialScope_v4a s = buildCredentialScope (httpSigner.truncate s)"
  "buildCanonicalString_v4a s = buildCanonicalString (httpSigner.truncate s)"
  "buildStringToSign_v4a s = buildStringToSign (httpSigner.truncate s)"
  "buildSignature_v4a sign s = buildSignature sign (httpSigner.truncate s)"
  by (simp_all add: fun_eq_iff deriveKeyFromAccessKeyPair_v4a_def deriveKeyFromAccessKeyPair_def derive_loop_v4a
      buildAuthorizationHeader_v4a_def buildAuthorizationHeader_def buildCredentialScope_v4a_def buildCredentialScope_def
      buildCanonicalString_v4a_def buildCanonicalString_def buildStringToSign_v4a_def buildStringToSign_def
      buildSignature_v4a_def buildSignature_def makeHash_v4a_def makeHash_def httpSigner.truncate_def)

section \<open>Hoisting\<close>

lemma update_fresh: "k \<notin> fst ` set m \<Longrightarrow> AList.update k v m = m @ [(k, v)]"
  by (induction m) auto

lemma buildQuery_loop_split:
  "wf_map header \<Longrightarrow> fst ` set header \<inter> fst ` set q = {} \<Longrightarrow> fst ` set header \<inter> fst ` set u = {} \<Longrightarrow>
   buildQuery_loop r header q u =
     (q @ filter (\<lambda>(k, v). IsValid r k) header, u @ filter (\<lambda>(k, v). \<not> IsValid r k) header)"
  by (induction r header q u rule: buildQuery_loop.induct) (auto simp: update_fresh)

lemma buildQuery_split:
  "wf_map header \<Longrightarrow>
   buildQuery r header = (filter (\<lambda>(k, v). IsValid r k) header, filter (\<lambda>(k, v). \<not> IsValid r k) header)"
  by (simp add: buildQuery_def buildQuery_loop_split)

lemma wf_map_filter: "wf_map m \<Longrightarrow> wf_map (filter P m)"
  by (rule distinct_map_filter)

lemma map_of_add_values: "wf_map u \<Longrightarrow> map_of (add_values u q) = map_of q ++ map_of u"
  unfolding add_values_def
proof (induction u arbitrary: q)
  case (Cons kv u)
  then have "map_of u (fst kv) = None" by (simp add: map_of_eq_None_iff)
  with Cons show ?case by (cases kv) (auto simp: fun_eq_iff map_add_def split: option.split)
qed simp

lemma wf_add_values: "wf_map q \<Longrightarrow> wf_map (add_values u q)"
  unfolding add_values_def by (induction u arbitrary: q) auto

lemma map_get_add_values:
  "wf_map u \<Longrightarrow> map_get [] (add_values u q) k = (if k \<in> fst ` set u then map_get [] u k else map_get [] q k)"
proof (cases "map_of u k")
  case None
  then have "k \<notin> fst ` set u" by (simp add: map_of_eq_None_iff)
  with None show "wf_map u \<Longrightarrow> ?thesis" by (simp add: map_get_def map_of_add_values map_add_def)
next
  case (Some v)
  then have "k \<in> fst ` set u" by (metis map_of_eq_None_iff option.distinct(1))
  with Some show "wf_map u \<Longrightarrow> ?thesis" by (simp add: map_get_def map_of_add_values map_add_def)
qed

section \<open>Presigned requests\<close>

text \<open>The headers that are moved to the query, and those left to sign.\<close>

definition hoisted :: "httpSigner_v4a \<Rightarrow> http_header" where
  "hoisted s = (if gs_DisableHeaderHoisting s then []
     else filter (\<lambda>(k, v). IsValid AllowedQueryHoisting k) (r_Header (hs_Request s)))"

definition left_to_sign :: "httpSigner_v4a \<Rightarrow> http_header" where
  "left_to_sign s = (if gs_DisableHeaderHoisting s then r_Header (hs_Request s)
     else filter (\<lambda>(k, v). \<not> IsValid AllowedQueryHoisting k) (r_Header (hs_Request s)))"

text \<open>The names a presigned request signs.\<close>

definition signed_names :: "rule \<Rightarrow> http_header \<Rightarrow> int \<Rightarrow> string list" where
  "signed_names rule header n = sorted_list_of_set
     ({''host''} \<union> (if n > 0 then {''content-length''} else {}) \<union> header_names rule header)"

definition presigned_names :: "httpSigner_v4a \<Rightarrow> string" where
  "presigned_names s = Join (signed_names IgnoredHeaders (left_to_sign s) (r_ContentLength (hs_Request s))) '';''"

text \<open>The values of a presigned URL for each parameter, without the signature.\<close>

definition presigned_values :: "httpSigner_v4a \<Rightarrow> string \<Rightarrow> string list" where
  "presigned_values s k =
     (if k = AmzSignedHeadersKey then [presigned_names s]
      else if k \<in> fst ` set (hoisted s) then map_get [] (hoisted s) k
      else if k = AmzCredentialKey then [cr_Context (hs_Credentials s) @ ''/'' @ buildCredentialScope_v4a s]
      else if k = AmzRegionSetKey then [Join (hs_RegionSet s) '','']
      else if k = AmzDateKey then [time_Format (hs_Time s) TimeFormatLayout]
      else if k = AmzAlgorithmKey then [signingAlgorithm]
      else if k = AmzSecurityTokenKey \<and> cr_SessionToken (hs_Credentials s) \<noteq> [] then [cr_SessionToken (hs_Credentials s)]
      else sort (map_get [] (ParseQuery (u_RawQuery (r_URL (hs_Request s)))) k))"

interpretation canon_host: canonical_seed "[''host'']" "[(''host'', [h])]" for h
  by unfold_locales simp_all

interpretation canon_host_length:
  canonical_seed "[''host'', ''content-length'']" "[(''host'', [h]), (''content-length'', [FormatInt n])]" for h n
  by unfold_locales simp_all

lemma canonical_headers_v4a:
  "\<exists>signed. buildCanonicalHeaders_v4a host rule header n =
     (signed, Join (signed_names rule header n) '';'', concat (map (canonical_line host signed) (signed_names rule header n))) \<and>
     (\<forall>k. map_get [] signed k = (if k = ''host'' then [host] else if k = ''content-length'' \<and> n > 0 then [FormatInt n] else []) @
        header_values rule header k)"
proof (cases "n > 0")
  case True
  then have "signed_names rule header n = sorted_list_of_set (set [''host'', ''content-length''] \<union> header_names rule header)"
    by (simp add: signed_names_def insert_commute)
  with True canon_host_length.finish_eq [of host rule host n header] show ?thesis
    by (auto simp: buildCanonicalHeaders_v4a_def map_get_Cons)
next
  case False
  then have "signed_names rule header n = sorted_list_of_set (set [''host''] \<union> header_names rule header)"
    by (simp add: signed_names_def)
  with False canon_host.finish_eq [of host rule host header] show ?thesis
    by (auto simp: buildCanonicalHeaders_v4a_def map_get_Cons)
qed

lemma map_get_sorted: "map_get [] (map (\<lambda>(k, vs). (k, sort vs)) q) k = sort (map_get [] q k)"
  by (induction q) (auto simp: map_get_Cons)

lemma wf_sorted: "wf_map q \<Longrightarrow> wf_map (map (\<lambda>(k, vs). (k, sort vs)) q)"
  by (simp add: comp_def case_prod_beta')

lemmas amz_keys = AmzRegionSetKey_def AmzDateKey_def AmzAlgorithmKey_def AmzSecurityTokenKey_def AmzCredentialKey_def
  AmzSignedHeadersKey_def

text \<open>The query values of a presigned request.\<close>

lemma presigned_query_values:
  assumes "gs_IsPreSign s" "wf_map (r_Header (hs_Request s))"
  shows "\<exists>query. setRequiredSigningFields_v4a s (r_Header (hs_Request s)) (ParseQuery (u_RawQuery (r_URL (hs_Request s)))) =
      (r_Header (hs_Request s), query) \<and>
    (\<exists>q. prepare_query s (r_Header (hs_Request s)) query (cr_Context (hs_Credentials s) @ ''/'' @ buildCredentialScope_v4a s) =
        (q, left_to_sign s) \<and> wf_map q \<and>
      (\<forall>k. map_get [] (values_Set AmzSignedHeadersKey (presigned_names s) q) k = presigned_values s k))"
proof -
  let ?h = "r_Header (hs_Request s)"
  obtain query where q: "setRequiredSigningFields_v4a s ?h (ParseQuery (u_RawQuery (r_URL (hs_Request s)))) = (?h, query)"
    and wf: "wf_map query" and vals: "\<And>k. map_get [] query k =
      (if k = AmzSecurityTokenKey \<and> cr_SessionToken (hs_Credentials s) \<noteq> [] then [cr_SessionToken (hs_Credentials s)]
       else if k = AmzAlgorithmKey then [signingAlgorithm]
       else if k = AmzDateKey then [time_Format (hs_Time s) TimeFormatLayout]
       else if k = AmzRegionSetKey then [Join (hs_RegionSet s) '','']
       else map_get [] (ParseQuery (u_RawQuery (r_URL (hs_Request s)))) k)"
    using assms(1) by (simp add: setRequiredSigningFields_v4a_def values_Set_def Let_def)
  define q1 where "q1 = values_Set AmzCredentialKey (cr_Context (hs_Credentials s) @ ''/'' @ buildCredentialScope_v4a s)
    (map (\<lambda>(k, vs). (k, sort vs)) query)"
  have "prepare_query s ?h query (cr_Context (hs_Credentials s) @ ''/'' @ buildCredentialScope_v4a s) =
      (add_values (hoisted s) q1, left_to_sign s)"
    using assms by (simp add: prepare_query_def q1_def hoisted_def left_to_sign_def buildQuery_split add_values_def)
  moreover have "wf_map (hoisted s)" using assms(2) by (simp add: hoisted_def wf_map_filter)
  moreover have "wf_map q1" unfolding q1_def values_Set_def by (intro wf_map_update wf_sorted wf)
  ultimately show ?thesis
    using q by (auto simp: wf_add_values map_get_add_values presigned_values_def values_Set_def q1_def map_get_sorted vals amz_keys)
qed

lemma SanitizeHost_fields:
  "r_Header (SanitizeHostForHeader r) = r_Header r" "r_URL (SanitizeHostForHeader r) = r_URL r"
  "r_Method (SanitizeHostForHeader r) = r_Method r" "r_ContentLength (SanitizeHostForHeader r) = r_ContentLength r"
  "r_Body (SanitizeHostForHeader r) = r_Body r"
  by (simp_all add: SanitizeHostForHeader_def Let_def)

text \<open>The parameter with the signature.\<close>

lemma hextable_plain:
  "list_all (\<lambda>c. c \<noteq> CHR '' '' \<and> c \<noteq> CHR ''&'' \<and> \<not> shouldEscape c encodeQueryComponent) hextable"
  by code_simp

lemma signature_part: "query_part (''X-Amz-Signature='' @ hex_EncodeToString sig) q = values_Add ''X-Amz-Signature'' (hex_EncodeToString sig) q"
proof -
  have "set (hex_EncodeToString sig) \<subseteq> set hextable" by (rule hexc.enc_alphabet)
  then have "query_escape (hex_EncodeToString sig) = hex_EncodeToString sig"
    using hextable_plain by (intro query_escape_id) (auto simp: list_all_iff simp del: shouldEscape.simps)
  moreover have "query_escape ''X-Amz-Signature'' = ''X-Amz-Signature''" by code_simp
  ultimately have "query_pair (''X-Amz-Signature'', hex_EncodeToString sig) = ''X-Amz-Signature='' @ hex_EncodeToString sig"
    by (simp add: query_pair_def)
  then show ?thesis by (metis query_part_pair)
qed

lemma finish_build_presigned:
  assumes "gs_IsPreSign s" "finish_build escape_path sign s req q h = Ok r"
  defines "names \<equiv> Join (signed_names IgnoredHeaders h (r_ContentLength req)) '';''"
  shows "\<exists>sig. sign (cr_PrivateKey (hs_Credentials s)) (sha256 (bytes_of (sg_StringToSign r))) = Ok sig \<and>
    r_Header (sg_Request r) = r_Header req \<and>
    u_RawQuery (r_URL (sg_Request r)) = ReplaceByte (values_Encode (values_Set AmzSignedHeadersKey names q)) (CHR ''+'') ''%20'' @
      ''&X-Amz-Signature='' @ hex_EncodeToString sig"
proof -
  define host where "host = (if length (r_Host req) > 0 then r_Host req else u_Host (r_URL req))"
  obtain signed can where c: "buildCanonicalHeaders_v4a host IgnoredHeaders h (r_ContentLength req) = (signed, names, can)"
    using canonical_headers_v4a [of host IgnoredHeaders h "r_ContentLength req"] by (auto simp: names_def)
  show ?thesis
    using assms(1,2) unfolding finish_build_def Let_def host_def [symmetric] c
    by (simp add: buildSignature_v4a_def makeHash_v4a_def sha256_hash_def split: outcome.splits) auto
qed

lemma Build_presigned:
  assumes pre: "gs_IsPreSign s" and wf: "wf_map (r_Header (hs_Request s))" and ok: "Build_v4a escape_path sign s = Ok r"
  shows "\<exists>sig q. sign (cr_PrivateKey (hs_Credentials s)) (sha256 (bytes_of (sg_StringToSign r))) = Ok sig \<and>
    r_Header (sg_Request r) = r_Header (hs_Request s) \<and> wf_map q \<and> (\<forall>k. map_get [] q k = presigned_values s k) \<and>
    u_RawQuery (r_URL (sg_Request r)) = ReplaceByte (values_Encode q) (CHR ''+'') ''%20'' @ ''&X-Amz-Signature='' @ hex_EncodeToString sig"
proof -
  let ?h = "r_Header (hs_Request s)"
  from presigned_query_values [OF pre wf] obtain query q where
    q: "setRequiredSigningFields_v4a s ?h (ParseQuery (u_RawQuery (r_URL (hs_Request s)))) = (?h, query)"
      "prepare_query s ?h query (cr_Context (hs_Credentials s) @ ''/'' @ buildCredentialScope_v4a s) = (q, left_to_sign s)"
      "wf_map q" "\<forall>k. map_get [] (values_Set AmzSignedHeadersKey (presigned_names s) q) k = presigned_values s k" by blast
  have "finish_build escape_path sign s (SanitizeHostForHeader (hs_Request s\<lparr>r_Header := ?h\<rparr>)) q (left_to_sign s) = Ok r"
    using ok q(1,2) unfolding Build_v4a_def by simp
  from finish_build_presigned [OF pre this] q(3,4) show ?thesis
    by (auto simp: SanitizeHost_fields presigned_names_def values_Set_def
        intro!: exI [of _ "values_Set AmzSignedHeadersKey (presigned_names s) q"])
qed

lemma presigned_url_ok:
  assumes pre: "gs_IsPreSign s" and wf: "wf_map (r_Header (hs_Request s))" and ok: "Build_v4a escape_path sign s = Ok r"
  shows "\<exists>sig. sign (cr_PrivateKey (hs_Credentials s)) (sha256 (bytes_of (sg_StringToSign r))) = Ok sig \<and>
    r_Header (sg_Request r) = r_Header (hs_Request s) \<and>
    (\<forall>k. map_get [] (ParseQuery (u_RawQuery (r_URL (sg_Request r)))) k =
       presigned_values s k @ (if k = ''X-Amz-Signature'' then [hex_EncodeToString sig] else []))"
proof -
  from Build_presigned [OF assms] obtain sig q where
    b: "sign (cr_PrivateKey (hs_Credentials s)) (sha256 (bytes_of (sg_StringToSign r))) = Ok sig"
      "r_Header (sg_Request r) = r_Header (hs_Request s)" "wf_map q" "\<forall>k. map_get [] q k = presigned_values s k"
      "u_RawQuery (r_URL (sg_Request r)) = ReplaceByte (values_Encode q) (CHR ''+'') ''%20'' @ ''&X-Amz-Signature='' @ hex_EncodeToString sig"
    by blast
  have "set (hex_EncodeToString sig) \<subseteq> set hextable" by (rule hexc.enc_alphabet)
  then have "CHR ''&'' \<notin> set (''X-Amz-Signature='' @ hex_EncodeToString sig)"
    using hextable_plain by (auto simp: list_all_iff simp del: shouldEscape.simps)
  then have "ParseQuery (u_RawQuery (r_URL (sg_Request r))) =
      query_part (''X-Amz-Signature='' @ hex_EncodeToString sig) (ParseQuery (ReplaceByte (values_Encode q) (CHR ''+'') ''%20''))"
    using b(5) ParseQuery_append [of "''X-Amz-Signature='' @ hex_EncodeToString sig"] by simp
  then have "map_get [] (ParseQuery (u_RawQuery (r_URL (sg_Request r)))) k =
      presigned_values s k @ (if k = ''X-Amz-Signature'' then [hex_EncodeToString sig] else [])" for k
    using b(4) by (simp add: signature_part [simplified] signature_part values_Add_def ParseQuery_encoded [OF b(3)])
  with b(1,2) show ?thesis by blast
qed

text \<open>C10: the query of a presigned URL, parsed again, carries for every parameter exactly the required value:
  the names of the signed headers, the hoisted headers with their values, credential, regions, date,
  algorithm and session token, else the sorted values of the original URL, and in addition the signature
  of the string to sign.  The headers of the request are not changed.\<close>

theorem presigned_url:
  assumes "gs_IsPreSign s" "wf_map (r_Header (hs_Request s))"
  shows "case Build_v4a escape_path sign s of
     Ok r \<Rightarrow> \<exists>sig. sign (cr_PrivateKey (hs_Credentials s)) (sha256 (bytes_of (sg_StringToSign r))) = Ok sig \<and>
       r_Header (sg_Request r) = r_Header (hs_Request s) \<and>
       (\<forall>k. map_get [] (ParseQuery (u_RawQuery (r_URL (sg_Request r)))) k =
          presigned_values s k @ (if k = ''X-Amz-Signature'' then [hex_EncodeToString sig] else []))
   | _ \<Rightarrow> True"
proof (cases "Build_v4a escape_path sign s")
  case (Ok r)
  show ?thesis unfolding Ok outcome.case by (rule presigned_url_ok [OF assms Ok])
qed simp_all

section \<open>The result of presigning\<close>

lemma url_String_query: "u_RawQuery u \<noteq> [] \<Longrightarrow> \<exists>base. url_String u = base @ ''?'' @ u_RawQuery u"
  unfolding url_String_def Let_def by (simp only: if_False) (metis append.assoc)

lemma canonical_keys_get:
  "map_get [] (canonical_keys h) k = concat (map snd (filter (\<lambda>(n, v). CanonicalMIMEHeaderKey n = k) h))"
proof -
  have "map_get [] (foldl (\<lambda>sh (n, v). let key = CanonicalMIMEHeaderKey n
      in AList.update key (map_get [] sh key @ v) sh) m h) k =
    map_get [] m k @ concat (map snd (filter (\<lambda>(n, v). CanonicalMIMEHeaderKey n = k) h))" for m
    by (induction h arbitrary: m) (auto simp: Let_def split: prod.split)
  then show ?thesis by (simp add: canonical_keys_def)
qed

lemma canonical_keys_values: "set (map_get [] h n) \<subseteq> set (map_get [] (canonical_keys h) (CanonicalMIMEHeaderKey n))"
proof (cases "map_of h n")
  case (Some vs)
  then have "(n, vs) \<in> set h" by (rule map_of_SomeD)
  then have "vs \<in> set (map snd (filter (\<lambda>(m, v). CanonicalMIMEHeaderKey m = CanonicalMIMEHeaderKey n) h))" by force
  moreover have "map_get [] h n = vs" using Some by (simp add: map_get_def)
  ultimately show ?thesis unfolding canonical_keys_get set_concat by blast
qed (simp add: map_get_def)

lemma header_values_member:
  "(k, vs) \<in> set h \<Longrightarrow> IsValid rule k \<Longrightarrow> set vs \<subseteq> set (header_values rule h (ToLower k))"
  by (force simp: header_values_def)

lemma finish_build_signed:
  assumes "finish_build escape_path sign s req q h = Ok r"
  shows "map_get [] (sg_SignedHeaders r) k =
    (if k = ''host'' then [if length (r_Host req) > 0 then r_Host req else u_Host (r_URL req)]
     else if k = ''content-length'' \<and> r_ContentLength req > 0 then [FormatInt (r_ContentLength req)] else []) @
    header_values IgnoredHeaders h k"
proof -
  define host where "host = (if length (r_Host req) > 0 then r_Host req else u_Host (r_URL req))"
  obtain signed names can where c: "buildCanonicalHeaders_v4a host IgnoredHeaders h (r_ContentLength req) = (signed, names, can)"
    "map_get [] signed k = (if k = ''host'' then [host] else if k = ''content-length'' \<and> r_ContentLength req > 0
      then [FormatInt (r_ContentLength req)] else []) @ header_values IgnoredHeaders h k"
    using canonical_headers_v4a [of host IgnoredHeaders h "r_ContentLength req"] by blast
  have "sg_SignedHeaders r = signed"
    using assms unfolding finish_build_def Let_def host_def [symmetric] c
    by (auto split: outcome.splits)
  with c(2) show ?thesis by (simp add: host_def)
qed

lemma Build_presigned_headers:
  assumes pre: "gs_IsPreSign s" and wf: "wf_map (r_Header (hs_Request s))" and ok: "Build_v4a escape_path sign s = Ok r"
    and kv: "(k, vs) \<in> set (left_to_sign s)" "IsValid IgnoredHeaders k"
  shows "set vs \<subseteq> set (map_get [] (sg_SignedHeaders r) (ToLower k))"
proof -
  let ?h = "r_Header (hs_Request s)"
  from presigned_query_values [OF pre wf] obtain query q where
    q: "setRequiredSigningFields_v4a s ?h (ParseQuery (u_RawQuery (r_URL (hs_Request s)))) = (?h, query)"
      "prepare_query s ?h query (cr_Context (hs_Credentials s) @ ''/'' @ buildCredentialScope_v4a s) = (q, left_to_sign s)" by blast
  have "finish_build escape_path sign s (SanitizeHostForHeader (hs_Request s\<lparr>r_Header := ?h\<rparr>)) q (left_to_sign s) = Ok r"
    using ok q unfolding Build_v4a_def by simp
  from finish_build_signed [OF this] header_values_member [OF kv] show ?thesis by auto
qed

text \<open>C12: \<open>PresignHTTP\<close> loses the value of one header only.  A header that is moved is in the query of the
  returned URL with exactly its values, but for X-Amz-SignedHeaders, in whose place the signer's own list
  stands, and X-Amz-Signature, whose values the signature follows; every other header that signing does
  not ignore is returned, with all its values, under its canonical name.\<close>

theorem presign_keeps_headers:
  fixes signer credentials r payloadHash service regionSet now optFns
  defines "s \<equiv> signer_of (apply_options optFns (si_options signer)) True credentials r payloadHash service regionSet now"
  assumes "wf_map (r_Header r)"
  shows "case PresignHTTP escape_path sign signer credentials r payloadHash service regionSet now optFns of
     Ok (uri, hdrs) \<Rightarrow> \<exists>base query. uri = base @ ''?'' @ query \<and>
       (\<forall>(k, vs) \<in> set (r_Header r).
          if (k, vs) \<in> set (hoisted s)
          then if k = AmzSignedHeadersKey then map_get [] (ParseQuery query) k = [presigned_names s]
               else \<exists>sig. map_get [] (ParseQuery query) k = vs @ (if k = ''X-Amz-Signature'' then [hex_EncodeToString sig] else [])
          else IsValid IgnoredHeaders k \<longrightarrow> set vs \<subseteq> set (map_get [] hdrs (CanonicalMIMEHeaderKey (ToLower k))))
   | _ \<Rightarrow> True"
proof (cases "Build_v4a escape_path sign s")
  case (Ok b)
  have pre: "gs_IsPreSign s" and wf: "wf_map (r_Header (hs_Request s))" and h: "r_Header (hs_Request s) = r_Header r"
    using assms(2) by (simp_all add: s_def signer_of_def)
  from Build_presigned [OF pre wf Ok] obtain sig q where
    b: "wf_map q" "\<forall>k. map_get [] q k = presigned_values s k"
      "u_RawQuery (r_URL (sg_Request b)) = ReplaceByte (values_Encode q) (CHR ''+'') ''%20'' @ ''&X-Amz-Signature='' @ hex_EncodeToString sig"
    by blast
  define query where "query = u_RawQuery (r_URL (sg_Request b))"
  obtain sig' where pq: "\<And>k. map_get [] (ParseQuery query) k =
      presigned_values s k @ (if k = ''X-Amz-Signature'' then [hex_EncodeToString sig'] else [])"
    using presigned_url_ok [OF pre wf Ok] unfolding query_def by blast
  have "query \<noteq> []" by (simp add: query_def b(3))
  then obtain base where uri: "url_String (r_URL (sg_Request b)) = base @ ''?'' @ query"
    using url_String_query unfolding query_def by blast
  have P: "PresignHTTP escape_path sign signer credentials r payloadHash service regionSet now optFns =
      Ok (base @ ''?'' @ query, canonical_keys (sg_SignedHeaders b))"
    using Ok uri by (simp add: PresignHTTP_def s_def Let_def)
  have "if (k, vs) \<in> set (hoisted s)
      then if k = AmzSignedHeadersKey then map_get [] (ParseQuery query) k = [presigned_names s]
           else \<exists>sig. map_get [] (ParseQuery query) k = vs @ (if k = ''X-Amz-Signature'' then [hex_EncodeToString sig] else [])
      else IsValid IgnoredHeaders k \<longrightarrow> set vs \<subseteq> set (map_get [] (canonical_keys (sg_SignedHeaders b)) (CanonicalMIMEHeaderKey (ToLower k)))"
    if kv: "(k, vs) \<in> set (r_Header r)" for k vs
  proof (cases "(k, vs) \<in> set (hoisted s)")
    case True
    moreover have "wf_map (hoisted s)" using wf by (simp add: hoisted_def wf_map_filter)
    ultimately have "map_get [] (hoisted s) k = vs" "k \<in> fst ` set (hoisted s)" by (force simp: map_get_def)+
    moreover have "presigned_values s k = map_get [] (hoisted s) k" if "k \<noteq> AmzSignedHeadersKey"
      using that \<open>k \<in> fst ` set (hoisted s)\<close> by (simp add: presigned_values_def)
    moreover have "presigned_values s AmzSignedHeadersKey = [presigned_names s]" by (simp add: presigned_values_def)
    moreover have "AmzSignedHeadersKey \<noteq> ''X-Amz-Signature''" by (simp add: AmzSignedHeadersKey_def)
    ultimately show ?thesis using True pq [of k] by (cases "k = AmzSignedHeadersKey") auto
  next
    case False
    then have "(k, vs) \<in> set (left_to_sign s)" using kv h by (auto simp: hoisted_def left_to_sign_def)
    with False Build_presigned_headers [OF pre wf Ok] canonical_keys_values [of "sg_SignedHeaders b" "ToLower k"] show ?thesis
      by auto
  qed
  then show ?thesis
    unfolding P outcome.case prod.case
    by (rule_tac x = base in exI, rule_tac x = query in exI, intro conjI refl ballI, unfold split_paired_all prod.case)
qed (simp_all add: PresignHTTP_def s_def Let_def)

section \<open>The two signers\<close>

text \<open>The signer of internal/sign/signer.go adds a \<open>Host\<close> header to the request; apart from it they agree.\<close>

definition other_headers :: "http_header \<Rightarrow> http_header" where
  "other_headers h = filter (\<lambda>(k, v). k \<noteq> ''Host'') h"

lemma other_headers_update:
  "k \<noteq> ''Host'' \<Longrightarrow> other_headers (AList.update k v h) = AList.update k v (other_headers h)"
  unfolding other_headers_def by (induction h) auto

lemma other_headers_host: "other_headers (AList.update ''Host'' v h) = other_headers h"
  unfolding other_headers_def by (induction h) auto

lemma canonical_names:
  "CanonicalMIMEHeaderKey ''host'' = ''Host''" "CanonicalMIMEHeaderKey AmzRegionSetKey = AmzRegionSetKey"
  "CanonicalMIMEHeaderKey AmzDateKey = AmzDateKey" "CanonicalMIMEHeaderKey AmzSecurityTokenKey = AmzSecurityTokenKey"
  "ToLower ''Host'' = ''host''"
  by code_simp+

definition signer_headers :: "httpSigner_v4a \<Rightarrow> http_header" where
  "signer_headers s = setRequiredSigningFields (httpSigner.truncate s)
     (header_Set ''host'' (u_Host (r_URL (hs_Request s))) (r_Header (hs_Request s)))"

lemma signer_headers_host: "''Host'' \<in> fst ` set (signer_headers s)"
  by (simp add: signer_headers_def setRequiredSigningFields_def header_Set_def canonical_names Let_def)

lemma signer_headers_v4a:
  assumes "\<not> gs_IsPreSign s" "\<forall>k \<in> fst ` set (r_Header (hs_Request s)). ToLower k \<noteq> ''host''"
  shows "setRequiredSigningFields_v4a s (r_Header (hs_Request s)) q = (other_headers (signer_headers s), q)"
proof -
  have "other_headers (r_Header (hs_Request s)) = r_Header (hs_Request s)"
    using assms(2) canonical_names(5) by (force simp: other_headers_def filter_id_conv)
  moreover have "AmzRegionSetKey \<noteq> ''Host''" "AmzDateKey \<noteq> ''Host''" "AmzSecurityTokenKey \<noteq> ''Host''"
    by (simp_all add: amz_keys)
  ultimately show ?thesis
    using assms(1) by (simp add: setRequiredSigningFields_v4a_def signer_headers_def setRequiredSigningFields_def header_Set_def
        canonical_names Let_def other_headers_update other_headers_host httpSigner.truncate_def)
qed

lemma header_values_other: "n \<noteq> ''host'' \<Longrightarrow> header_values rule (other_headers h) n = header_values rule h n"
  unfolding header_values_def other_headers_def filter_filter
  by (rule arg_cong, rule arg_cong, rule filter_cong) (use canonical_names(5) in auto)

lemma header_names_other:
  assumes "''Host'' \<in> fst ` set h"
  shows "insert ''host'' (header_names IgnoredHeaders (other_headers h)) = header_names IgnoredHeaders h"
proof -
  have "''host'' \<in> header_names IgnoredHeaders h"
    using assms canonical_names(5) by (force simp: header_names_def IsValid_IgnoredHeaders)
  moreover have "header_names IgnoredHeaders h \<subseteq> insert ''host'' (header_names IgnoredHeaders (other_headers h))"
    using canonical_names(5) by (fastforce simp: header_names_def other_headers_def)
  moreover have "header_names IgnoredHeaders (other_headers h) \<subseteq> header_names IgnoredHeaders h"
    by (auto simp: header_names_def other_headers_def)
  ultimately show ?thesis by blast
qed

lemma canonical_headers_signer:
  "\<exists>signed. buildCanonicalHeaders host rule header n =
     (signed, Join (sorted_list_of_set ((if n > 0 then {''content-length''} else {}) \<union> header_names rule header)) '';'',
      concat (map (canonical_line host signed) (sorted_list_of_set ((if n > 0 then {''content-length''} else {}) \<union> header_names rule header)))) \<and>
     (\<forall>k. map_get [] signed k = (if k = ''content-length'' \<and> n > 0 then [FormatInt n] else []) @ header_values rule header k)"
  using canon_length.finish_eq [of host rule n header] canon_empty.finish_eq [of host rule header]
  by (cases "n > 0") (auto simp: buildCanonicalHeaders_def map_get_Cons)

lemma canonical_headers_agree:
  assumes "''Host'' \<in> fst ` set h"
  shows "snd (buildCanonicalHeaders_v4a host IgnoredHeaders (other_headers h) n) = snd (buildCanonicalHeaders host IgnoredHeaders h n)"
proof -
  let ?names = "sorted_list_of_set ((if n > 0 then {''content-length''} else {}) \<union> header_names IgnoredHeaders h)"
  have names: "signed_names IgnoredHeaders (other_headers h) n = ?names"
    unfolding signed_names_def header_names_other [OF assms, symmetric] by (simp add: insert_commute)
  obtain s1 where s1: "buildCanonicalHeaders host IgnoredHeaders h n = (s1, Join ?names '';'', concat (map (canonical_line host s1) ?names))"
    "\<forall>k. map_get [] s1 k = (if k = ''content-length'' \<and> n > 0 then [FormatInt n] else []) @ header_values IgnoredHeaders h k"
    using canonical_headers_signer [of host IgnoredHeaders h n] by blast
  obtain s2 where s2: "buildCanonicalHeaders_v4a host IgnoredHeaders (other_headers h) n =
      (s2, Join ?names '';'', concat (map (canonical_line host s2) ?names))"
    "\<forall>k. map_get [] s2 k = (if k = ''host'' then [host] else if k = ''content-length'' \<and> n > 0 then [FormatInt n] else []) @
        header_values IgnoredHeaders (other_headers h) k"
    using canonical_headers_v4a [of host IgnoredHeaders "other_headers h" n] unfolding names by blast
  have "canonical_line host s1 k = canonical_line host s2 k" for k
    using s1(2) s2(2) by (cases "k = ''host''") (simp_all add: canonical_line_def header_values_other)
  then have "canonical_line host s1 = canonical_line host s2" by (rule ext)
  with s1(1) s2(1) show ?thesis by simp
qed

lemma SanitizeHost_header: "SanitizeHostForHeader (r\<lparr>r_Header := h\<rparr>) = (SanitizeHostForHeader r)\<lparr>r_Header := h\<rparr>"
  by (simp add: SanitizeHostForHeader_def getHost_def Let_def)

text \<open>C11: on a request without a host header, and with the escaping of the path disabled, the general signer
  computes what the operator's own signer computes: the same canonical request, string to sign and error,
  and the same request but for the \<open>Host\<close> header that the latter adds.\<close>

theorem signers_agree:
  assumes "\<not> gs_IsPreSign s" "gs_DisableURIPathEscaping s" "\<forall>k \<in> fst ` set (r_Header (hs_Request s)). ToLower k \<noteq> ''host''"
  shows "map_outcome (\<lambda>r. ((sg_Request r)\<lparr>r_Header := other_headers (r_Header (sg_Request r))\<rparr>, sg_CanonicalString r, sg_StringToSign r))
      (Build sign (httpSigner.truncate s)) =
    map_outcome (\<lambda>r. (sg_Request r, sg_CanonicalString r, sg_StringToSign r)) (Build_v4a escape_path sign s)"
proof -
  define t where "t = httpSigner.truncate s"
  have t: "hs_Request t = hs_Request s" "hs_Credentials t = hs_Credentials s" by (simp_all add: t_def httpSigner.truncate_def)
  define h where "h = signer_headers s"
  define q where "q = map (\<lambda>(k, vs). (k, sort vs)) (ParseQuery (u_RawQuery (r_URL (hs_Request s))))"
  define req where "req = SanitizeHostForHeader (hs_Request s)"
  define host where "host = (if length (r_Host req) > 0 then r_Host req else u_Host (r_URL req))"
  have hdr: "setRequiredSigningFields t (header_Set ''host'' (u_Host (r_URL (hs_Request s))) (r_Header (hs_Request s))) = h"
    by (simp add: h_def signer_headers_def t_def)
  obtain s1 names can where c1: "buildCanonicalHeaders host IgnoredHeaders h (r_ContentLength req) = (s1, names, can)"
    by (cases "buildCanonicalHeaders host IgnoredHeaders h (r_ContentLength req)")
  then obtain s2 where c2: "buildCanonicalHeaders_v4a host IgnoredHeaders (other_headers h) (r_ContentLength req) = (s2, names, can)"
    using canonical_headers_agree [of h host "r_ContentLength req"] signer_headers_host [of s]
    by (cases "buildCanonicalHeaders_v4a host IgnoredHeaders (other_headers h) (r_ContentLength req)") (auto simp: h_def)
  have v4a: "Build_v4a escape_path sign s = finish_build escape_path sign s (req\<lparr>r_Header := other_headers h\<rparr>) q (other_headers h)"
    using assms(1) unfolding Build_v4a_def Let_def
    by (simp add: signer_headers_v4a [OF assms(1,3)] SanitizeHost_header prepare_query_def h_def q_def req_def)
  have auth: "authorizationHeader \<noteq> ''Host''" by (simp add: signer_consts)
  have fields: "r_Host (req\<lparr>r_Header := k\<rparr>) = r_Host req" "r_URL (req\<lparr>r_Header := k\<rparr>) = r_URL req"
    "r_ContentLength (req\<lparr>r_Header := k\<rparr>) = r_ContentLength req" "r_Method (req\<lparr>r_Header := k\<rparr>) = r_Method req" for k by simp_all
  have rep: "buildCredentialScope_v4a s = buildCredentialScope t" "buildCanonicalString_v4a s = buildCanonicalString t"
    "buildStringToSign_v4a s = buildStringToSign t" "buildSignature_v4a sign s = buildSignature sign t"
    by (simp_all add: repeated t_def)
  show ?thesis
    unfolding v4a t_def [symmetric] Build_def finish_build_def Let_def t hdr SanitizeHost_header req_def [symmetric] fields
      host_def [symmetric] c1 c2 q_def [symmetric] rep repeated(2)
    using assms(1,2) auth by (simp add: other_headers_update split: outcome.split)
qed

section \<open>A request\<close>

definition demo_request :: http_request where
  "demo_request = \<lparr>r_Method = ''GET'',
     r_URL = \<lparr>u_Scheme = ''https'', u_Opaque = [], u_Host = ''bucket.example'', u_Path = ''/key'', u_RawPath = [],
              u_RawQuery = ''b=2&a=1&b=1''\<rparr>,
     r_Header = [(''X-Amz-Object-Lock'', [''on'']), (''Range'', [''bytes=0-9''])], r_Host = ''bucket.example'',
     r_ContentLength = 0, r_Body = []\<rparr>"

definition demo_signer :: "bool \<Rightarrow> httpSigner_v4a" where
  "demo_signer pre = signer_of \<lparr>so_LogSigning = False, so_DisableHeaderHoisting = False, so_DisableURIPathEscaping = True\<rparr> pre
     \<lparr>cr_Context = ''AKIA'', cr_PrivateKey = \<lparr>priv_Public = \<lparr>pub_X = 1, pub_Y = 1\<rparr>, priv_D = 1\<rparr>, cr_SessionToken = []\<rparr>
     demo_request EmptyStringSHA256 ''s3'' [''*''] \<lparr>t_Year = 2024, t_Month = 1, t_Day = 2, t_Hour = 3, t_Minute = 4, t_Second = 5\<rparr>"

lemma demo_signer_fields:
  "gs_IsPreSign (demo_signer pre) = pre" "gs_DisableURIPathEscaping (demo_signer pre)"
  "r_Header (hs_Request (demo_signer pre)) = [(''X-Amz-Object-Lock'', [''on'']), (''Range'', [''bytes=0-9''])]"
  "u_RawQuery (r_URL (hs_Request (demo_signer pre))) = ''b=2&a=1&b=1''"
  by (simp_all add: demo_signer_def signer_of_def demo_request_def)

text \<open>Its path is valid and the signature succeeds, so the request is signed.\<close>

lemma demo_uri: "GetURIPath (r_URL demo_request) = Ok ''/key''"
  by code_simp

lemma demo_build: "\<exists>r. Build_v4a id (\<lambda>_ _. Ok [0xAB]) (demo_signer pre) = Ok r"
proof -
  have "\<exists>r. finish_build id (\<lambda>_ _. Ok [0xAB]) (demo_signer pre) (SanitizeHostForHeader (demo_request\<lparr>r_Header := h\<rparr>)) q u = Ok r" for h q u
  proof -
    obtain a b c where "buildCanonicalHeaders_v4a (if length (r_Host (SanitizeHostForHeader (demo_request\<lparr>r_Header := h\<rparr>))) > 0
        then r_Host (SanitizeHostForHeader (demo_request\<lparr>r_Header := h\<rparr>)) else u_Host (r_URL (SanitizeHostForHeader (demo_request\<lparr>r_Header := h\<rparr>))))
      IgnoredHeaders u (r_ContentLength (SanitizeHostForHeader (demo_request\<lparr>r_Header := h\<rparr>))) = (a, b, c)"
      by (metis prod.collapse)
    then show ?thesis
      unfolding finish_build_def Let_def by (simp add: SanitizeHost_fields demo_uri buildSignature_v4a_def)
  qed
  moreover have "hs_Request (demo_signer pre) = demo_request" by (simp add: demo_signer_def signer_of_def)
  ultimately show ?thesis
    unfolding Build_v4a_def Let_def by (simp split: prod.split)
qed

theorem presigned_url_witness:
  "\<exists>r. Build_v4a id (\<lambda>_ _. Ok [0xAB]) (demo_signer True) = Ok r \<and>
     (let q = ParseQuery (u_RawQuery (r_URL (sg_Request r)))
      in map_get [] q ''b'' = [''1'', ''2''] \<and> map_get [] q ''X-Amz-Object-Lock'' = [''on''] \<and>
         map_get [] q ''X-Amz-Signature'' = [''ab''])"
proof -
  obtain r where r: "Build_v4a id (\<lambda>_ _. Ok [0xAB]) (demo_signer True) = Ok r" using demo_build by blast
  have h: "hoisted (demo_signer True) = [(''X-Amz-Object-Lock'', [''on''])]"
    by (simp add: hoisted_def demo_signer_fields demo_signer_def signer_of_def demo_request_def) (code_simp)
  have q: "sort (map_get [] (ParseQuery ''b=2&a=1&b=1'') ''b'') = [''1'', ''2'']"
    "map_get [] (ParseQuery ''b=2&a=1&b=1'') ''X-Amz-Signature'' = []" "hex_EncodeToString [0xAB] = ''ab''"
    by code_simp+
  have v: "presigned_values (demo_signer True) ''b'' = [''1'', ''2'']"
    "presigned_values (demo_signer True) ''X-Amz-Object-Lock'' = [''on'']"
    "presigned_values (demo_signer True) ''X-Amz-Signature'' = []"
    by (simp_all add: presigned_values_def h demo_signer_fields q amz_keys map_get_Cons)
  from presigned_url [where s = "demo_signer True" and sign = "\<lambda>_ _. Ok [0xAB]" and escape_path = id] r v q(3) show ?thesis
    by (auto simp: demo_signer_fields)
qed

theorem signers_agree_witness:
  "map_outcome (\<lambda>r. ((sg_Request r)\<lparr>r_Header := other_headers (r_Header (sg_Request r))\<rparr>, sg_CanonicalString r, sg_StringToSign r))
      (Build (\<lambda>_ _. Ok [0xAB]) (httpSigner.truncate (demo_signer False))) =
    map_outcome (\<lambda>r. (sg_Request r, sg_CanonicalString r, sg_StringToSign r)) (Build_v4a id (\<lambda>_ _. Ok [0xAB]) (demo_signer False)) \<and>
   is_Ok (Build_v4a id (\<lambda>_ _. Ok [0xAB]) (demo_signer False))"
proof -
  have "ToLower ''X-Amz-Object-Lock'' \<noteq> ''host''" "ToLower ''Range'' \<noteq> ''host''" by code_simp+
  moreover have "is_Ok (Build_v4a id (\<lambda>_ _. Ok [0xAB]) (demo_signer False))" using demo_build [of False] by auto
  ultimately show ?thesis
    using signers_agree [where s = "demo_signer False" and sign = "\<lambda>_ _. Ok [0xAB]" and escape_path = id] by (simp add: demo_signer_fields)
qed

definition demo_presign :: "(string \<times> http_header) outcome" where
  "demo_presign = PresignHTTP id (\<lambda>_ _. Ok [0xAB]) (NewSigner []) (hs_Credentials (demo_signer True)) demo_request
     EmptyStringSHA256 ''s3'' [''*''] (hs_Time (demo_signer True)) [\<lambda>opts. opts\<lparr>so_DisableURIPathEscaping := True\<rparr>]"

theorem presign_keeps_headers_witness:
  "\<exists>base query hdrs. demo_presign = Ok (base @ ''?'' @ query, hdrs) \<and>
     map_get [] (ParseQuery query) ''X-Amz-Object-Lock'' = [''on''] \<and> ''bytes=0-9'' \<in> set (map_get [] hdrs ''Range'')"
proof -
  let ?o = "apply_options [\<lambda>opts. opts\<lparr>so_DisableURIPathEscaping := True\<rparr>] (si_options (NewSigner []))"
  have s: "signer_of ?o True (hs_Credentials (demo_signer True)) demo_request EmptyStringSHA256 ''s3'' [''*''] (hs_Time (demo_signer True)) =
      demo_signer True"
    by (simp add: NewSigner_def apply_options_def demo_signer_def signer_of_def)
  obtain r where "Build_v4a id (\<lambda>_ _. Ok [0xAB]) (demo_signer True) = Ok r" using demo_build by blast
  then obtain uri hdrs where ok: "demo_presign = Ok (uri, hdrs)"
    unfolding demo_presign_def PresignHTTP_def Let_def s by simp
  have wf: "wf_map (r_Header demo_request)" by (simp add: demo_request_def)
  have h: "hoisted (demo_signer True) = [(''X-Amz-Object-Lock'', [''on''])]"
    by (simp add: hoisted_def demo_signer_fields demo_signer_def signer_of_def demo_request_def) (code_simp)
  have keys: "CanonicalMIMEHeaderKey (ToLower ''Range'') = ''Range''" by code_simp
  from presign_keeps_headers [OF wf, where escape_path = id and sign = "\<lambda>_ _. Ok [0xAB]" and signer = "NewSigner []"
      and credentials = "hs_Credentials (demo_signer True)" and payloadHash = EmptyStringSHA256 and service = "''s3''"
      and regionSet = "[''*'']" and now = "hs_Time (demo_signer True)" and optFns = "[\<lambda>opts. opts\<lparr>so_DisableURIPathEscaping := True\<rparr>]"]
  show ?thesis
    unfolding demo_presign_def [symmetric] ok s
    by (auto simp: h demo_request_def keys IsValid_IgnoredHeaders amz_keys)
qed

end
