(* ===== verification/Go_Asn1.thy ===== *)
theory Go_Asn1
  imports V4a_Crypto
begin

text \<open>
  The part of encoding/asn1 that reads an ECDSA signature, a SEQUENCE of two INTEGERs, and the check of
  such a signature in crypto/ecdsa on P-256, for \<open>VerifySignature\<close> of ecc.go.  The offset Go keeps into
  the input is the rest of the input here.
\<close>

section \<open>Tags and lengths\<close>

definition asn1_syntax :: "string \<Rightarrow> goerror" where
  "asn1_syntax msg = ExtError (''asn1: syntax error: '' @ msg)"

definition asn1_structure :: "string \<Rightarrow> goerror" where
  "asn1_structure msg = ExtError (''asn1: structure error: '' @ msg)"

text \<open>\<open>parseBase128Int\<close>, with the number of bytes read and the value so far.\<close>

fun parseBase128Int :: "nat \<Rightarrow> int \<Rightarrow> bytes \<Rightarrow> (int \<times> bytes) outcome" where
  "parseBase128Int shifted ret [] = Err (asn1_syntax ''truncated base 128 integer'')"
| "parseBase128Int shifted ret (b # rest) =
     (if shifted = 5 then Err (asn1_structure ''base 128 integer too large'')
      else if shifted = 0 \<and> b = 0x80 then Err (asn1_syntax ''integer is not minimally encoded'')
      else let ret = ret * 128 + uint b mod 128
           in if uint b < 0x80
              then if ret > 0x7FFFFFFF then Err (asn1_structure ''base 128 integer too large'') else Ok (ret, rest)
              else parseBase128Int (shifted + 1) ret rest)"

text \<open>The loop over the bytes of a length in the long form.\<close>

fun parse_length :: "nat \<Rightarrow> int \<Rightarrow> bytes \<Rightarrow> (int \<times> bytes) outcome" where
  "parse_length 0 len bs = Ok (len, bs)"
| "parse_length (Suc n) len [] = Err (asn1_syntax ''truncated tag or length'')"
| "parse_length (Suc n) len (b # rest) =
     (if len \<ge> 2 ^ 23 then Err (asn1_structure ''length too large'')
      else let len = len * 256 + uint b
           in if len = 0 then Err (asn1_structure ''superfluous leading zeros in length'') else parse_length n len rest)"

record tagAndLength =
  tl_class :: int
  tl_tag :: int
  tl_length :: int
  tl_isCompound :: bool

definition parse_tag :: "byte \<Rightarrow> bytes \<Rightarrow> (int \<times> bytes) outcome" where
  "parse_tag b rest =
     (if uint b mod 32 = 0x1f
      then case parseBase128Int 0 0 rest of
             Ok (tag, rest) \<Rightarrow> if tag < 0x1f then Err (asn1_syntax ''non-minimal tag'') else Ok (tag, rest)
           | Err e \<Rightarrow> Err e
           | Panic p \<Rightarrow> Panic p
      else Ok (uint b mod 32, rest))"

definition parse_long_length :: "byte \<Rightarrow> bytes \<Rightarrow> (int \<times> bytes) outcome" where
  "parse_long_length b rest =
     (if uint b < 0x80 then Ok (uint b, rest)
      else let numBytes = nat (uint b mod 128)
           in if numBytes = 0 then Err (asn1_syntax ''indefinite length found (not DER)'')
              else case parse_length numBytes 0 rest of
                     Ok (len, rest) \<Rightarrow> if len < 0x80 then Err (asn1_structure ''non-minimal length'') else Ok (len, rest)
                   | Err e \<Rightarrow> Err e
                   | Panic p \<Rightarrow> Panic p)"

fun parseTagAndLength :: "bytes \<Rightarrow> (tagAndLength \<times> bytes) outcome" where
  "parseTagAndLength [] = Err (ExtError ''asn1: internal error in parseTagAndLength'')"
| "parseTagAndLength (b # rest) =
     (case parse_tag b rest of
        Err e \<Rightarrow> Err e
      | Panic p \<Rightarrow> Panic p
      | Ok (tag, []) \<Rightarrow> Err (asn1_syntax ''truncated tag or length'')
      | Ok (tag, l # rest) \<Rightarrow>
          (case parse_long_length l rest of
             Err e \<Rightarrow> Err e
           | Panic p \<Rightarrow> Panic p
           | Ok (len, rest) \<Rightarrow>
               Ok (\<lparr>tl_class = uint b div 64, tl_tag = tag, tl_length = len, tl_isCompound = (uint b div 32 mod 2 = 1)\<rparr>, rest)))"

section \<open>Fields\<close>

text \<open>
  \<open>parseField\<close> for a field that is not optional: the content bytes of the next element and what follows
  it.  The message of a tag mismatch is not written out.
\<close>

definition parse_element :: "int \<Rightarrow> bool \<Rightarrow> bytes \<Rightarrow> (bytes \<times> bytes) outcome" where
  "parse_element expectedTag compound bs =
     (if bs = [] then Err (asn1_syntax ''sequence truncated'')
      else case parseTagAndLength bs of
             Err e \<Rightarrow> Err e
           | Panic p \<Rightarrow> Panic p
           | Ok (t, rest) \<Rightarrow>
               if tl_class t \<noteq> 0 \<or> tl_tag t \<noteq> expectedTag \<or> tl_isCompound t \<noteq> compound
               then Err (asn1_structure ''tags don't match'')
               else if tl_length t > int (length rest) then Err (asn1_syntax ''data truncated'')
               else Ok (take (nat (tl_length t)) rest, drop (nat (tl_length t)) rest))"

definition checkInteger :: "bytes \<Rightarrow> goerror option" where
  "checkInteger bs =
     (case bs of
        [] \<Rightarrow> Some (asn1_structure ''empty integer'')
      | [b] \<Rightarrow> None
      | b0 # b1 # _ \<Rightarrow>
          if b0 = 0 \<and> uint b1 < 0x80 \<or> b0 = 0xff \<and> 0x80 \<le> uint b1
          then Some (asn1_structure ''integer not minimally-encoded'') else None)"

text \<open>Two's complement of any length.\<close>

definition parseBigInt :: "bytes \<Rightarrow> int outcome" where
  "parseBigInt bs =
     (case checkInteger bs of
        Some e \<Rightarrow> Err e
      | None \<Rightarrow> if 0x80 \<le> uint (hd bs) then Ok (- (int (SetBytes (map NOT bs)) + 1))
                else Ok (int (SetBytes bs)))"

definition parse_integer :: "bytes \<Rightarrow> (int \<times> bytes) outcome" where
  "parse_integer bs =
     (case parse_element 2 False bs of
        Err e \<Rightarrow> Err e
      | Panic p \<Rightarrow> Panic p
      | Ok (content, rest) \<Rightarrow>
          (case parseBigInt content of Err e \<Rightarrow> Err e | Panic p \<Rightarrow> Panic p | Ok z \<Rightarrow> Ok (z, rest)))"

text \<open>\<open>asn1.Unmarshal\<close> into the struct: bytes after the last field or after the sequence are let pass.\<close>

record ecdsaSignature =
  sig_R :: int
  sig_S :: int

definition Unmarshal_signature :: "bytes \<Rightarrow> (ecdsaSignature \<times> bytes) outcome" where
  "Unmarshal_signature bs =
     (case parse_element 16 True bs of
        Err e \<Rightarrow> Err e
      | Panic p \<Rightarrow> Panic p
      | Ok (inner, rest) \<Rightarrow>
          (case parse_integer inner of
             Err e \<Rightarrow> Err e
           | Panic p \<Rightarrow> Panic p
           | Ok (r, inner) \<Rightarrow>
               (case parse_integer inner of
                  Err e \<Rightarrow> Err e
                | Panic p \<Rightarrow> Panic p
                | Ok (z, inner) \<Rightarrow> Ok (\<lparr>sig_R = r, sig_S = z\<rparr>, rest))))"

section \<open>crypto/ecdsa on P-256\<close>

fun pow_modulo :: "nat \<Rightarrow> nat \<Rightarrow> nat \<Rightarrow> nat" where
  "pow_modulo n b e =
     (if e = 0 then 1 mod n
      else let h = pow_modulo n (b * b mod n) (e div 2) in if e mod 2 = 1 then b * h mod n else h)"

declare pow_modulo.simps [simp del]

text \<open>
  \<open>ecdsa.Verify\<close>: the hash is cut to the length of the group order, whose inverses are powers.
\<close>

definition ecdsa_Verify :: "ecdsa_public_key \<Rightarrow> bytes \<Rightarrow> int \<Rightarrow> int \<Rightarrow> bool" where
  "ecdsa_Verify key hash r s \<longleftrightarrow>
     0 < r \<and> 0 < s \<and> r < int P256_N \<and> s < int P256_N \<and> IsOnCurve (pub_X key) (pub_Y key) \<and>
     (let e = SetBytes (take 32 hash);
          w = pow_modulo P256_N (nat s) (P256_N - 2);
          u1 = e * w mod P256_N;
          u2 = nat r * w mod P256_N
      in case ec_add (ec_mul u1 (Some (P256_Gx, P256_Gy))) (ec_mul u2 (Some (pub_X key, pub_Y key))) of
           None \<Rightarrow> False
         | Some (x, y) \<Rightarrow> nat x mod P256_N = nat r)"

section \<open>ecc.go: VerifySignature\<close>

definition VerifySignature :: "ecdsa_public_key \<Rightarrow> bytes \<Rightarrow> bytes \<Rightarrow> bool outcome" where
  "VerifySignature key hash signature =
     (case Unmarshal_signature signature of
        Err e \<Rightarrow> Err e
      | Panic p \<Rightarrow> Panic p
      | Ok (sig, rest) \<Rightarrow> Ok (ecdsa_Verify key hash (sig_R sig) (sig_S sig)))"

section \<open>The DER encoding\<close>

text \<open>The encoding of a number and of a signature of up to 127 bytes, as \<open>ecdsa.SignASN1\<close> writes it.\<close>

definition der_content :: "nat \<Rightarrow> bytes" where
  "der_content n = (let bs = big_Bytes n in if bs = [] \<or> 0x80 \<le> uint (hd bs) then 0 # bs else bs)"

definition der_element :: "byte \<Rightarrow> bytes \<Rightarrow> bytes" where
  "der_element tag content = tag # word_of_nat (length content) # content"

definition der_signature :: "nat \<Rightarrow> nat \<Rightarrow> bytes" where
  "der_signature r s = der_element 0x30 (der_element 2 (der_content r) @ der_element 2 (der_content s))"

lemma big_Bytes_Nil: "big_Bytes n = [] \<longleftrightarrow> n = 0"
  by (subst big_Bytes.simps) simp

lemma big_Bytes_hd: "n \<noteq> 0 \<Longrightarrow> hd (big_Bytes n) \<noteq> 0"
proof (induction n rule: big_Bytes.induct)
  case (1 n)
  show ?case
  proof (cases "n div 256 = 0")
    case True
    then have "n < 256" by (simp add: div_eq_0_iff)
    then have "unat (word_of_nat n :: byte) = n" by (simp add: unat_of_nat)
    moreover have "hd (big_Bytes n) = word_of_nat n"
      using 1(2) True by (subst big_Bytes.simps) (simp add: big_Bytes.simps [of 0])
    ultimately show ?thesis using 1(2) by auto
  next
    case False
    then have "hd (big_Bytes n) = hd (big_Bytes (n div 256))"
      using 1(2) by (subst big_Bytes.simps) (simp add: big_Bytes_Nil hd_append)
    then show ?thesis using 1 False by simp
  qed
qed

lemma big_Bytes_length: "n < 256 ^ k \<Longrightarrow> length (big_Bytes n) \<le> k"
proof (induction k arbitrary: n)
  case (Suc k)
  show ?case
  proof (cases "n = 0")
    case False
    have "n div 256 < 256 ^ k" using Suc.prems by (simp add: less_mult_imp_div_less mult.commute)
    then show ?thesis using Suc.IH [of "n div 256"] False by (subst big_Bytes.simps) simp
  qed (simp add: big_Bytes.simps)
qed (simp add: big_Bytes.simps)

lemma parseBigInt_content: "parseBigInt (der_content n) = Ok (int n)"
proof (cases "n = 0")
  case True
  then show ?thesis by (simp add: der_content_def big_Bytes.simps parseBigInt_def checkInteger_def SetBytes_Cons)
next
  case False
  then obtain b bs where b: "big_Bytes n = b # bs" "b \<noteq> 0"
    using big_Bytes_hd [of n] big_Bytes_Nil [of n] by (cases "big_Bytes n") auto
  have n: "SetBytes (b # bs) = n" using SetBytes_big_Bytes [of n] b(1) by simp
  then have z: "SetBytes (0 # b # bs) = n" by (simp add: SetBytes_Cons)
  have ff: "uint (0xff :: byte) = 255" by simp
  show ?thesis
  proof (cases "0x80 \<le> uint b")
    case True
    then show ?thesis using b z by (simp add: der_content_def parseBigInt_def checkInteger_def)
  next
    case False
    then have "checkInteger (b # bs) = None"
      using b(2) ff by (auto simp: checkInteger_def split: list.split)
    then show ?thesis using False b(1) n by (simp add: der_content_def parseBigInt_def)
  qed
qed

lemma der_content_length: "n < 256 ^ k \<Longrightarrow> length (der_content n) \<le> Suc k"
  using big_Bytes_length [of n k] by (simp add: der_content_def Let_def)

lemma parse_der_element:
  assumes "length content < 128" "uint tag mod 32 \<noteq> 0x1f" "uint tag div 64 = 0"
  shows "parse_element (uint tag mod 32) (uint tag div 32 mod 2 = 1) (der_element tag content @ rest) = Ok (content, rest)"
proof -
  have len: "uint (word_of_nat (length content) :: byte) = int (length content)"
    using assms(1) by (simp add: unsigned_of_nat take_bit_eq_mod)
  show ?thesis
    using assms len by (simp add: parse_element_def der_element_def parse_tag_def parse_long_length_def)
qed

lemma parse_der_integer:
  assumes "length (der_content n) < 128"
  shows "parse_integer (der_element 2 (der_content n) @ rest) = Ok (int n, rest)"
  using parse_der_element [OF assms, where tag = 2 and rest = rest] by (simp add: parse_integer_def parseBigInt_content)

lemma Unmarshal_der:
  assumes "length (der_content r) + length (der_content s) < 124"
  shows "Unmarshal_signature (der_signature r s @ rest) = Ok (\<lparr>sig_R = int r, sig_S = int s\<rparr>, rest)"
proof -
  let ?inner = "der_element 2 (der_content r) @ der_element 2 (der_content s)"
  have "length ?inner < 128" using assms by (simp add: der_element_def)
  from parse_der_element [OF this, where tag = "0x30" and rest = rest]
  have "parse_element 16 True (der_signature r s @ rest) = Ok (?inner, rest)"
    by (simp add: der_signature_def)
  moreover have "parse_integer ?inner = Ok (int r, der_element 2 (der_content s))"
    using assms by (intro parse_der_integer) simp
  moreover have "parse_integer (der_element 2 (der_content s)) = Ok (int s, [])"
    using assms parse_der_integer [of s "[]"] by simp
  ultimately show ?thesis by (simp add: Unmarshal_signature_def)
qed

text \<open>A signature that is cut off is not read: what is left of its outermost element is too short.\<close>

lemma parse_element_truncated:
  assumes "length content < 128" "uint tag mod 32 \<noteq> 0x1f" "k < length (der_element tag content)"
  shows "\<exists>e. parse_element n c (take k (der_element tag content)) = Err e"
proof -
  have len: "uint (word_of_nat (length content) :: byte) = int (length content)"
    using assms(1) by (simp add: unsigned_of_nat take_bit_eq_mod)
  consider "k = 0" | "k = 1" | m where "k = Suc (Suc m)" "m < length content"
    using assms(3) by (cases k; cases "k - 1") (auto simp: der_element_def)
  then show ?thesis
  proof cases
    case 3
    then have "int (length (take m content)) < int (length content)" by simp
    then show ?thesis
      using 3 assms len by (simp add: parse_element_def der_element_def parse_tag_def parse_long_length_def)
  qed (use assms(2) in \<open>simp_all add: parse_element_def der_element_def parse_tag_def\<close>)
qed

lemma Unmarshal_truncated:
  assumes "length (der_content r) + length (der_content s) < 124" "k < length (der_signature r s)"
  shows "\<exists>e. Unmarshal_signature (take k (der_signature r s)) = Err e"
proof -
  have "length (der_element 2 (der_content r) @ der_element 2 (der_content s)) < 128"
    using assms(1) by (simp add: der_element_def)
  from parse_element_truncated [OF this, where tag = "0x30" and k = k and n = 16 and c = True] assms(2)
  show ?thesis by (auto simp: der_signature_def Unmarshal_signature_def)
qed

text \<open>C30: a signature in DER of two numbers below 2^256, with anything after it, is read back as its two numbers
  and checked with them; cut off at any point it is an error, not an invalid signature.  The key is one of P-256.\<close>

theorem signature_read_back:
  assumes "r < 2 ^ 256" "s < 2 ^ 256"
  shows "VerifySignature key hash (der_signature r s @ rest) = Ok (ecdsa_Verify key hash (int r) (int s)) \<and>
    (if k < length (der_signature r s) then \<exists>e. VerifySignature key hash (take k (der_signature r s)) = Err e else True)"
proof -
  have "(2::nat) ^ 256 = 256 ^ 32" by simp
  then have "length (der_content r) \<le> Suc 32" "length (der_content s) \<le> Suc 32"
    using assms by (intro der_content_length; metis)+
  then show ?thesis
    using Unmarshal_der [of r s rest] Unmarshal_truncated [of r s k] by (auto simp: VerifySignature_def)
qed

theorem signature_read_back_witness:
  "\<forall>key hash. VerifySignature key hash [0x30, 7, 2, 1, 5, 2, 2, 0, 0x80, 0xff] = Ok (ecdsa_Verify key hash 5 128) \<and>
     (\<exists>e. VerifySignature key hash [0x30, 7, 2, 1, 5, 2, 2, 0] = Err e)"
proof -
  have der: "der_signature 5 128 = [0x30, 7, 2, 1, 5, 2, 2, 0, 0x80]"
    by (simp add: der_signature_def der_element_def der_content_def big_Bytes.simps Let_def)
  have "VerifySignature key hash (der_signature 5 128 @ [0xff]) = Ok (ecdsa_Verify key hash (int 5) (int 128)) \<and>
    (if 8 < length (der_signature 5 128) then \<exists>e. VerifySignature key hash (take 8 (der_signature 5 128)) = Err e else True)" for key hash
    by (rule signature_read_back) simp_all
  then show ?thesis by (simp add: der)
qed

end
