(* ===== verification/Api_Types.thy ===== *)
theory Api_Types
  imports Go_Lib
begin

text \<open>
  The data of the operator: the custom resource of api/v1alpha1/secretrotator_types.go, the state of
  one reconciliation in internal/operations/types.go, their constants, and the fields the code uses of
  the Kubernetes objects it reads and writes.  A pointer that may be nil is an option; a duration is
  its number of nanoseconds; a label selector built by the API library is known by its printed form.
\<close>

section \<open>Kubernetes objects\<close>

record OwnerReference =
  or_APIVersion :: string
  or_Kind :: string
  or_Name :: string
  or_UID :: string
  or_Controller :: "bool option"

record ObjectMeta =
  om_Name :: string
  om_Namespace :: string
  om_UID :: string
  om_ResourceVersion :: string
  om_CreationTimestamp :: int
  om_DeletionTimestamp :: "int option"
  om_Labels :: "string gomap"
  om_Annotations :: "string gomap"
  om_OwnerReferences :: "OwnerReference list"
  om_Finalizers :: "string list"

definition empty_meta :: ObjectMeta where
  "empty_meta = \<lparr>om_Name = [], om_Namespace = [], om_UID = [], om_ResourceVersion = [],
     om_CreationTimestamp = 0, om_DeletionTimestamp = None, om_Labels = [], om_Annotations = [],
     om_OwnerReferences = [], om_Finalizers = []\<rparr>"

record Secret =
  sc_Meta :: ObjectMeta
  sc_Data :: "bytes gomap"
  sc_Type :: string

abbreviation secret_name :: "Secret \<Rightarrow> string" where "secret_name x \<equiv> om_Name (sc_Meta x)"
abbreviation secret_namespace :: "Secret \<Rightarrow> string" where "secret_namespace x \<equiv> om_Namespace (sc_Meta x)"

definition empty_secret :: Secret where
  "empty_secret = \<lparr>sc_Meta = empty_meta, sc_Data = [], sc_Type = []\<rparr>"

definition SecretTypeDockerConfigJson :: string where
  "SecretTypeDockerConfigJson = ''kubernetes.io/dockerconfigjson''"
definition SecretTypeOpaque :: string where "SecretTypeOpaque = ''Opaque''"

record Namespace =
  ns_Meta :: ObjectMeta

abbreviation ns_name :: "Namespace \<Rightarrow> string" where "ns_name n \<equiv> om_Name (ns_Meta n)"

record Pod =
  pod_ServiceAccountName :: string

record ServiceAccount =
  sa_Meta :: ObjectMeta

record Condition =
  cd_Type :: string
  cd_Status :: string
  cd_Reason :: string
  cd_Message :: string
  cd_LastTransitionTime :: int

record LabelSelectorRequirement =
  lr_Key :: string
  lr_Operator :: string
  lr_Values :: "string list"

record LabelSelector =
  ls_MatchLabels :: "string gomap"
  ls_MatchExpressions :: "LabelSelectorRequirement list"

type_synonym Selector = string

section \<open>secretrotator\_types.go\<close>

record GeneratedSecret =
  gs_SecretName :: string
  gs_SecretType :: string
  gs_Scope :: string

record SecurityDetails =
  sec_Enabled :: bool
  sec_CertificateSecretName :: string
  sec_SecretNamespace :: string
  sec_InsecureSkipVerify :: bool

record ServiceAccountDetails =
  sad_Name :: string
  sad_Namespace :: string

record SecretMetadata =
  smd_Annotations :: "string gomap"
  smd_Labels :: "string gomap"

record SecretNamespaceFailure =
  nf_Namespace :: string
  nf_Reason :: string

record SecretRotatorSpec =
  sp_SecretMetadata :: SecretMetadata
  sp_SecretName :: string
  sp_GeneratedSecrets :: "GeneratedSecret list"
  sp_NamespaceSelector :: LabelSelector
  sp_ArtifactoryUrl :: string
  sp_ArtifactorySubdomains :: "string list"
  sp_ServiceAccount :: ServiceAccountDetails
  sp_RefreshInterval :: "int option"
  sp_Security :: SecurityDetails
  sp_AuthType :: string
  sp_AwsRegion :: string

record SecretRotatorStatus =
  st_Conditions :: "Condition list"
  st_FailedNamespaces :: "SecretNamespaceFailure list"
  st_ProvisionedNamespaces :: "string list"
  st_SecretManagedByNamespaces :: "string list gomap"
  st_AuthType :: string

record SecretRotator =
  sr_Meta :: ObjectMeta
  sr_Spec :: SecretRotatorSpec
  sr_Status :: SecretRotatorStatus

abbreviation sr_name :: "SecretRotator \<Rightarrow> string" where "sr_name r \<equiv> om_Name (sr_Meta r)"

definition SecretKind :: string where "SecretKind = ''SecretRotator''"
definition Group :: string where "Group = ''apps.jfrog.com''"
definition Version :: string where "Version = ''v1alpha1''"
definition GroupVersion_String :: string where "GroupVersion_String = Group @ ''/'' @ Version"

definition CustomCertificatePath :: string where "CustomCertificatePath = ''/usr/tmp/''"
definition CertPem :: string where "CertPem = ''/cert.pem''"
definition KeyPem :: string where "KeyPem = ''/key.pem''"
definition CaPem :: string where "CaPem = ''/ca.pem''"
definition TlsCrt :: string where "TlsCrt = ''/tls.crt''"
definition TlsKey :: string where "TlsKey = ''/tls.key''"
definition TlsCa :: string where "TlsCa = ''/ca.crt''"

lemmas cert_paths = CustomCertificatePath_def CertPem_def KeyPem_def CaPem_def TlsCrt_def TlsKey_def TlsCa_def

section \<open>operations/types.go\<close>

definition SecretTypeDocker :: string where "SecretTypeDocker = ''docker''"
definition SecretTypeGeneric :: string where "SecretTypeGeneric = ''generic''"
definition GenericSecretUser :: string where "GenericSecretUser = ''user''"
definition GenericSecretToken :: string where "GenericSecretToken = ''token''"
definition DockerSecretJSON :: string where "DockerSecretJSON = ''.dockerconfigjson''"

record AccessResponse =
  ar_TokenId :: string
  ar_AccessToken :: string
  ar_Scope :: string
  ar_TokenType :: string
  ar_ExpiresIn :: int
  ar_Username :: string

text \<open>
  \<open>TTLInSeconds\<close> is a float64 that only ever holds a converted int32, hence an integer.
  \<open>RoleMaxSessionDuration\<close> is a pointer to an int32.
\<close>

record TokenDetails =
  td_SecretName :: string
  td_GeneratedSecrets :: "GeneratedSecret list"
  td_NamespaceList :: "Namespace list"
  td_FailedNamespaces :: "goerror gomap"
  td_ProvisionedNamespaces :: "string list"
  td_TTLInSeconds :: int
  td_SecretManagedByNamespaces :: "string list gomap"
  td_Username :: string
  td_Token :: string
  td_ArtifactoryUrl :: string
  td_NamespaceSelector :: Selector
  td_RequeueInterval :: int
  td_DefaultServiceAccountName :: string
  td_DefaultServiceAccountNamespace :: string
  td_RoleMaxSessionDuration :: "int option"
  td_IAMRoleAwsRegion :: string
  td_AuthType :: string

definition empty_TokenDetails :: TokenDetails where
  "empty_TokenDetails = \<lparr>td_SecretName = [], td_GeneratedSecrets = [], td_NamespaceList = [],
     td_FailedNamespaces = [], td_ProvisionedNamespaces = [], td_TTLInSeconds = 0,
     td_SecretManagedByNamespaces = [], td_Username = [], td_Token = [], td_ArtifactoryUrl = [],
     td_NamespaceSelector = [], td_RequeueInterval = 0, td_DefaultServiceAccountName = [],
     td_DefaultServiceAccountNamespace = [], td_RoleMaxSessionDuration = None,
     td_IAMRoleAwsRegion = [], td_AuthType = []\<rparr>"

definition SecretRotatorFinalizer :: string where "SecretRotatorFinalizer = ''apps.jfrog.com/finalizer''"
definition TypeAvailableSecretRotator :: string where "TypeAvailableSecretRotator = ''Available''"
definition TypeDegradedSecretRotator :: string where "TypeDegradedSecretRotator = ''Degraded''"
definition AwsRegion :: string where "AwsRegion = ''us-west-2''"
definition AwsRoleARNKey :: string where "AwsRoleARNKey = ''eks.amazonaws.com/role-arn''"
definition RoleARNKey :: string where "RoleARNKey = ''eks.amazonaws.com/role-arn''"
definition AmazonAwsSts :: string where "AmazonAwsSts = ''sts.amazonaws.com''"
definition RoleMaxSessionDuration :: int where "RoleMaxSessionDuration = 10800"
definition ServiceAccountExpirationSeconds :: int where "ServiceAccountExpirationSeconds = 3600"
definition PodIdentityAuthType :: string where "PodIdentityAuthType = ''podIdentity''"
definition WebIdentityAuthType :: string where "WebIdentityAuthType = ''webIdentity''"
definition AutoAuthType :: string where "AutoAuthType = ''auto''"

lemmas auth_types = PodIdentityAuthType_def WebIdentityAuthType_def AutoAuthType_def
lemmas secret_types = SecretTypeDocker_def SecretTypeGeneric_def

record CredentialsResponse =
  cred_AccessKeyId :: string
  cred_SecretAccessKey :: string
  cred_Token :: string

end
