(* ===== verification/Deep_Copy.thy ===== *)
theory Deep_Copy
  imports Api_Types "HOL-Library.Monad_Syntax"
begin

text \<open>
  api/v1alpha1/zz\_generated.deepcopy.go, over an explicit heap.  The rest of the development treats the
  API objects as values; here they are what Go has: structs that hold references to maps, to the arrays
  behind slices and to other objects.  Dereferencing an address that holds nothing, or something of
  another type, is the result \<open>None\<close>.  The structs of the API machinery (ObjectMeta, ListMeta,
  LabelSelector, Condition) are of an abstract type \<open>'x\<close> and copied by a parameter.
\<close>

section \<open>Objects\<close>

text \<open>A slice: the address of an array, where it starts and how long it is.  Nil is \<open>None\<close>.\<close>

record slice =
  sl_array :: nat
  sl_from :: nat
  sl_len :: nat

text \<open>
  The structs, with the types of their reference fields as parameters: addresses and slices in an
  object, contents in its value.
\<close>

record 'map metadata_struct =
  ms_Annotations :: 'map
  ms_Labels :: 'map

record ('map, 'secrets, 'sel, 'strings, 'dur) spec_struct =
  ss_SecretMetadata :: "'map metadata_struct"
  ss_SecretName :: string
  ss_GeneratedSecrets :: 'secrets
  ss_NamespaceSelector :: 'sel
  ss_ArtifactoryUrl :: string
  ss_ArtifactorySubdomains :: 'strings
  ss_ServiceAccount :: ServiceAccountDetails
  ss_RefreshInterval :: 'dur
  ss_Security :: SecurityDetails
  ss_AuthType :: string
  ss_AwsRegion :: string

record ('conds, 'fails, 'strings, 'managed) status_struct =
  us_Conditions :: 'conds
  us_FailedNamespaces :: 'fails
  us_ProvisionedNamespaces :: 'strings
  us_SecretManagedByNamespaces :: 'managed
  us_AuthType :: string

record ('meta, 'spec, 'status) rotator_struct =
  rs_TypeMeta :: "string \<times> string"
  rs_ObjectMeta :: 'meta
  rs_Spec :: 'spec
  rs_Status :: 'status

record ('meta, 'items) list_struct =
  rl_TypeMeta :: "string \<times> string"
  rl_ListMeta :: 'meta
  rl_Items :: 'items

type_synonym metadata_obj = "nat option metadata_struct"
type_synonym 'x spec_obj = "(nat option, slice option, 'x, slice option, nat option) spec_struct"
type_synonym status_obj = "(slice option, slice option, slice option, nat option) status_struct"
type_synonym 'x rotator_obj = "('x, 'x spec_obj, status_obj) rotator_struct"
type_synonym 'x list_obj = "('x, slice option) list_struct"

section \<open>Heaps\<close>

datatype 'x cell =
    MapCell "string gomap"
  | ManagedCell "slice option gomap"
  | StringsCell "string list"
  | SecretsCell "GeneratedSecret list"
  | FailuresCell "SecretNamespaceFailure list"
  | ConditionsCell "'x list"
  | RotatorsCell "'x rotator_obj list"
  | DurationCell int
  | LibraryCell 'x
  | SecretCell GeneratedSecret
  | MetadataCell metadata_obj
  | FailureCell SecretNamespaceFailure
  | RotatorCell "'x rotator_obj"
  | ListCell "'x list_obj"
  | SpecCell "'x spec_obj"
  | StatusCell status_obj
  | SecurityCell SecurityDetails
  | AccountCell ServiceAccountDetails

definition as_map :: "'x cell \<Rightarrow> string gomap option" where
  "as_map c = (case c of MapCell m \<Rightarrow> Some m | _ \<Rightarrow> None)"
definition as_managed :: "'x cell \<Rightarrow> slice option gomap option" where
  "as_managed c = (case c of ManagedCell m \<Rightarrow> Some m | _ \<Rightarrow> None)"
definition as_strings :: "'x cell \<Rightarrow> string list option" where
  "as_strings c = (case c of StringsCell xs \<Rightarrow> Some xs | _ \<Rightarrow> None)"
definition as_secrets :: "'x cell \<Rightarrow> GeneratedSecret list option" where
  "as_secrets c = (case c of SecretsCell xs \<Rightarrow> Some xs | _ \<Rightarrow> None)"
definition as_failures :: "'x cell \<Rightarrow> SecretNamespaceFailure list option" where
  "as_failures c = (case c of FailuresCell xs \<Rightarrow> Some xs | _ \<Rightarrow> None)"
definition as_conditions :: "'x cell \<Rightarrow> 'x list option" where
  "as_conditions c = (case c of ConditionsCell xs \<Rightarrow> Some xs | _ \<Rightarrow> None)"
definition as_rotators :: "'x cell \<Rightarrow> 'x rotator_obj list option" where
  "as_rotators c = (case c of RotatorsCell xs \<Rightarrow> Some xs | _ \<Rightarrow> None)"
definition as_duration :: "'x cell \<Rightarrow> int option" where
  "as_duration c = (case c of DurationCell d \<Rightarrow> Some d | _ \<Rightarrow> None)"
definition as_secret :: "'x cell \<Rightarrow> GeneratedSecret option" where
  "as_secret c = (case c of SecretCell x \<Rightarrow> Some x | _ \<Rightarrow> None)"
definition as_metadata :: "'x cell \<Rightarrow> metadata_obj option" where
  "as_metadata c = (case c of MetadataCell x \<Rightarrow> Some x | _ \<Rightarrow> None)"
definition as_failure :: "'x cell \<Rightarrow> SecretNamespaceFailure option" where
  "as_failure c = (case c of FailureCell x \<Rightarrow> Some x | _ \<Rightarrow> None)"
definition as_rotator :: "'x cell \<Rightarrow> 'x rotator_obj option" where
  "as_rotator c = (case c of RotatorCell x \<Rightarrow> Some x | _ \<Rightarrow> None)"
definition as_list :: "'x cell \<Rightarrow> 'x list_obj option" where
  "as_list c = (case c of ListCell x \<Rightarrow> Some x | _ \<Rightarrow> None)"
definition as_spec :: "'x cell \<Rightarrow> 'x spec_obj option" where
  "as_spec c = (case c of SpecCell x \<Rightarrow> Some x | _ \<Rightarrow> None)"
definition as_status :: "'x cell \<Rightarrow> status_obj option" where
  "as_status c = (case c of StatusCell x \<Rightarrow> Some x | _ \<Rightarrow> None)"
definition as_security :: "'x cell \<Rightarrow> SecurityDetails option" where
  "as_security c = (case c of SecurityCell x \<Rightarrow> Some x | _ \<Rightarrow> None)"
definition as_account :: "'x cell \<Rightarrow> ServiceAccountDetails option" where
  "as_account c = (case c of AccountCell x \<Rightarrow> Some x | _ \<Rightarrow> None)"

lemmas cell_views = as_map_def as_managed_def as_strings_def as_secrets_def as_failures_def as_conditions_def
  as_rotators_def as_duration_def as_secret_def as_metadata_def as_failure_def as_rotator_def as_list_def
  as_spec_def as_status_def as_security_def as_account_def

text \<open>Addresses below \<open>h_next\<close> are in use; a new object gets the next one.\<close>

record 'x heap =
  h_next :: nat
  h_cell :: "nat \<Rightarrow> 'x cell option"

definition read :: "'x heap \<Rightarrow> nat \<Rightarrow> 'x cell option" where
  "read h a = (if a < h_next h then h_cell h a else None)"

definition alloc :: "'x cell \<Rightarrow> 'x heap \<Rightarrow> nat \<times> 'x heap" where
  "alloc c h = (h_next h, h\<lparr>h_next := Suc (h_next h), h_cell := (h_cell h)(h_next h := Some c)\<rparr>)"

definition write_cell :: "nat \<Rightarrow> 'x cell \<Rightarrow> 'x heap \<Rightarrow> 'x heap" where
  "write_cell a c h = h\<lparr>h_cell := (h_cell h)(a := Some c)\<rparr>"

type_synonym ('a, 'x) copying = "'a \<Rightarrow> 'x heap \<Rightarrow> ('a \<times> 'x heap) option"

section \<open>Copies of maps, slices and pointers\<close>

text \<open>\<open>if in.F != nil\<close>: a nil field stays what the assignment of the struct made it.\<close>

definition copy_unless_nil :: "('a, 'x) copying \<Rightarrow> ('a option, 'x) copying" where
  "copy_unless_nil copy p h =
     (case p of None \<Rightarrow> Some (None, h) | Some a \<Rightarrow> do {(b, h1) \<leftarrow> copy a h; Some (Some b, h1)})"

text \<open>The order in which the runtime visits the keys of a map.\<close>

definition key_order :: "(string list \<Rightarrow> string list) \<Rightarrow> 'v gomap \<Rightarrow> string list" where
  "key_order ord m = (let ks = map fst m in if mset (ord ks) = mset ks then ord ks else ks)"

lemma set_key_order [simp]: "set (key_order ord m) = fst ` set m"
proof -
  have "mset (key_order ord m) = mset (map fst m)" by (simp add: key_order_def Let_def)
  from mset_eq_setD [OF this] show ?thesis by simp
qed

definition copy_entries :: "string list \<Rightarrow> string gomap \<Rightarrow> string gomap" where
  "copy_entries keys m = foldl (\<lambda>out key. AList.update key (map_get [] m key) out) [] keys"

definition copy_map :: "(string list \<Rightarrow> string list) \<Rightarrow> (nat, 'x) copying" where
  "copy_map ord a h = do {
     c \<leftarrow> read h a;
     m \<leftarrow> as_map c;
     Some (alloc (MapCell (copy_entries (key_order ord m) m)) h)}"

definition contents :: "('x cell \<Rightarrow> 'a list option) \<Rightarrow> 'x heap \<Rightarrow> slice \<Rightarrow> 'a list option" where
  "contents view h s = do {
     c \<leftarrow> read h (sl_array s);
     xs \<leftarrow> view c;
     if sl_from s + sl_len s \<le> length xs then Some (take (sl_len s) (drop (sl_from s) xs)) else None}"

text \<open>\<open>make([]T, len(*in))\<close> and \<open>copy\<close>.\<close>

definition new_slice :: "('a list \<Rightarrow> 'x cell) \<Rightarrow> 'a list \<Rightarrow> 'x heap \<Rightarrow> slice \<times> 'x heap" where
  "new_slice mk xs h = (let (a, h1) = alloc (mk xs) h in (\<lparr>sl_array = a, sl_from = 0, sl_len = length xs\<rparr>, h1))"

definition copy_slice :: "('x cell \<Rightarrow> 'a list option) \<Rightarrow> ('a list \<Rightarrow> 'x cell) \<Rightarrow> (slice, 'x) copying" where
  "copy_slice view mk s h = do {xs \<leftarrow> contents view h s; Some (new_slice mk xs h)}"

text \<open>\<open>for i := range *in\<close>: element by element.\<close>

fun copy_elements :: "('a, 'x) copying \<Rightarrow> ('a list, 'x) copying" where
  "copy_elements copy [] h = Some ([], h)"
| "copy_elements copy (x # xs) h = do {(y, h1) \<leftarrow> copy x h; (ys, h2) \<leftarrow> copy_elements copy xs h1; Some (y # ys, h2)}"

definition copy_structs ::
    "('x cell \<Rightarrow> 'a list option) \<Rightarrow> ('a list \<Rightarrow> 'x cell) \<Rightarrow> ('a, 'x) copying \<Rightarrow> (slice, 'x) copying" where
  "copy_structs view mk copy s h = do {
     xs \<leftarrow> contents view h s;
     (ys, h1) \<leftarrow> copy_elements copy xs h;
     Some (new_slice mk ys h1)}"

definition copy_duration :: "(nat, 'x) copying" where
  "copy_duration a h = do {c \<leftarrow> read h a; d \<leftarrow> as_duration c; Some (alloc (DurationCell d) h)}"

text \<open>The loop over \<open>SecretManagedByNamespaces\<close>; a nil slice under a key stays nil.\<close>

fun copy_managed_entries ::
    "string list \<Rightarrow> slice option gomap \<Rightarrow> slice option gomap \<Rightarrow> 'x heap \<Rightarrow> (slice option gomap \<times> 'x heap) option" where
  "copy_managed_entries [] m out h = Some (out, h)"
| "copy_managed_entries (key # keys) m out h = do {
     (outVal, h1) \<leftarrow> copy_unless_nil (copy_slice as_strings StringsCell) (map_get None m key) h;
     copy_managed_entries keys m (AList.update key outVal out) h1}"

definition copy_managed :: "(string list \<Rightarrow> string list) \<Rightarrow> (nat, 'x) copying" where
  "copy_managed ord a h = do {
     c \<leftarrow> read h a;
     m \<leftarrow> as_managed c;
     (out, h1) \<leftarrow> copy_managed_entries (key_order ord m) m [] h;
     Some (alloc (ManagedCell out) h1)}"

section \<open>DeepCopyInto\<close>

text \<open>Each takes the struct it copies and gives the one it leaves in \<open>*out\<close>.\<close>

definition GeneratedSecret_DeepCopyInto :: "(GeneratedSecret, 'x) copying" where
  "GeneratedSecret_DeepCopyInto x h = Some (x, h)"

definition SecretMetadata_DeepCopyInto :: "(string list \<Rightarrow> string list) \<Rightarrow> (metadata_obj, 'x) copying" where
  "SecretMetadata_DeepCopyInto ord x h = do {
     (annotations, h1) \<leftarrow> copy_unless_nil (copy_map ord) (ms_Annotations x) h;
     (labels, h2) \<leftarrow> copy_unless_nil (copy_map ord) (ms_Labels x) h1;
     Some (x\<lparr>ms_Annotations := annotations, ms_Labels := labels\<rparr>, h2)}"

definition SecretNamespaceFailure_DeepCopyInto :: "(SecretNamespaceFailure, 'x) copying" where
  "SecretNamespaceFailure_DeepCopyInto x h = Some (x, h)"

definition SecurityDetails_DeepCopyInto :: "(SecurityDetails, 'x) copying" where
  "SecurityDetails_DeepCopyInto x h = Some (x, h)"

definition ServiceAccountDetails_DeepCopyInto :: "(ServiceAccountDetails, 'x) copying" where
  "ServiceAccountDetails_DeepCopyInto x h = Some (x, h)"

definition SecretRotatorSpec_DeepCopyInto ::
    "(string list \<Rightarrow> string list) \<Rightarrow> ('x, 'x) copying \<Rightarrow> ('x spec_obj, 'x) copying" where
  "SecretRotatorSpec_DeepCopyInto ord lib x h = do {
     (metadata, h1) \<leftarrow> SecretMetadata_DeepCopyInto ord (ss_SecretMetadata x) h;
     (secrets, h2) \<leftarrow> copy_unless_nil (copy_slice as_secrets SecretsCell) (ss_GeneratedSecrets x) h1;
     (selector, h3) \<leftarrow> lib (ss_NamespaceSelector x) h2;
     (subdomains, h4) \<leftarrow> copy_unless_nil (copy_slice as_strings StringsCell) (ss_ArtifactorySubdomains x) h3;
     (interval, h5) \<leftarrow> copy_unless_nil copy_duration (ss_RefreshInterval x) h4;
     Some (x\<lparr>ss_SecretMetadata := metadata, ss_GeneratedSecrets := secrets, ss_NamespaceSelector := selector,
             ss_ArtifactorySubdomains := subdomains, ss_RefreshInterval := interval\<rparr>, h5)}"

definition SecretRotatorStatus_DeepCopyInto ::
    "(string list \<Rightarrow> string list) \<Rightarrow> ('x, 'x) copying \<Rightarrow> (status_obj, 'x) copying" where
  "SecretRotatorStatus_DeepCopyInto ord lib x h = do {
     (conditions, h1) \<leftarrow> copy_unless_nil (copy_structs as_conditions ConditionsCell lib) (us_Conditions x) h;
     (failures, h2) \<leftarrow> copy_unless_nil (copy_slice as_failures FailuresCell) (us_FailedNamespaces x) h1;
     (provisioned, h3) \<leftarrow> copy_unless_nil (copy_slice as_strings StringsCell) (us_ProvisionedNamespaces x) h2;
     (managed, h4) \<leftarrow> copy_unless_nil (copy_managed ord) (us_SecretManagedByNamespaces x) h3;
     Some (x\<lparr>us_Conditions := conditions, us_FailedNamespaces := failures,
             us_ProvisionedNamespaces := provisioned, us_SecretManagedByNamespaces := managed\<rparr>, h4)}"

definition SecretRotator_DeepCopyInto ::
    "(string list \<Rightarrow> string list) \<Rightarrow> ('x, 'x) copying \<Rightarrow> ('x rotator_obj, 'x) copying" where
  "SecretRotator_DeepCopyInto ord lib x h = do {
     (meta, h1) \<leftarrow> lib (rs_ObjectMeta x) h;
     (spec, h2) \<leftarrow> SecretRotatorSpec_DeepCopyInto ord lib (rs_Spec x) h1;
     (status, h3) \<leftarrow> SecretRotatorStatus_DeepCopyInto ord lib (rs_Status x) h2;
     Some (x\<lparr>rs_ObjectMeta := meta, rs_Spec := spec, rs_Status := status\<rparr>, h3)}"

definition SecretRotatorList_DeepCopyInto ::
    "(string list \<Rightarrow> string list) \<Rightarrow> ('x, 'x) copying \<Rightarrow> ('x list_obj, 'x) copying" where
  "SecretRotatorList_DeepCopyInto ord lib x h = do {
     (meta, h1) \<leftarrow> lib (rl_ListMeta x) h;
     (items, h2) \<leftarrow> copy_unless_nil (copy_structs as_rotators RotatorsCell (SecretRotator_DeepCopyInto ord lib)) (rl_Items x) h1;
     Some (x\<lparr>rl_ListMeta := meta, rl_Items := items\<rparr>, h2)}"

section \<open>DeepCopy and DeepCopyObject\<close>

text \<open>The shape the nine functions share: nil for nil, else a new object filled by \<open>DeepCopyInto\<close>.\<close>

definition deep_copy ::
    "('x cell \<Rightarrow> 'a option) \<Rightarrow> ('a \<Rightarrow> 'x cell) \<Rightarrow> ('a, 'x) copying \<Rightarrow> (nat option, 'x) copying" where
  "deep_copy view mk into p h =
     (case p of
        None \<Rightarrow> Some (None, h)
      | Some a \<Rightarrow> do {
          c \<leftarrow> read h a;
          x \<leftarrow> view c;
          (y, h1) \<leftarrow> into x h;
          let (b, h2) = alloc (mk y) h1;
          Some (Some b, h2)})"

definition GeneratedSecret_DeepCopy :: "(nat option, 'x) copying" where
  "GeneratedSecret_DeepCopy = deep_copy as_secret SecretCell GeneratedSecret_DeepCopyInto"
definition SecretMetadata_DeepCopy :: "(string list \<Rightarrow> string list) \<Rightarrow> (nat option, 'x) copying" where
  "SecretMetadata_DeepCopy ord = deep_copy as_metadata MetadataCell (SecretMetadata_DeepCopyInto ord)"
definition SecretNamespaceFailure_DeepCopy :: "(nat option, 'x) copying" where
  "SecretNamespaceFailure_DeepCopy = deep_copy as_failure FailureCell SecretNamespaceFailure_DeepCopyInto"
definition SecurityDetails_DeepCopy :: "(nat option, 'x) copying" where
  "SecurityDetails_DeepCopy = deep_copy as_security SecurityCell SecurityDetails_DeepCopyInto"
definition ServiceAccountDetails_DeepCopy :: "(nat option, 'x) copying" where
  "ServiceAccountDetails_DeepCopy = deep_copy as_account AccountCell ServiceAccountDetails_DeepCopyInto"
definition SecretRotatorSpec_DeepCopy ::
    "(string list \<Rightarrow> string list) \<Rightarrow> ('x, 'x) copying \<Rightarrow> (nat option, 'x) copying" where
  "SecretRotatorSpec_DeepCopy ord lib = deep_copy as_spec SpecCell (SecretRotatorSpec_DeepCopyInto ord lib)"
definition SecretRotatorStatus_DeepCopy ::
    "(string list \<Rightarrow> string list) \<Rightarrow> ('x, 'x) copying \<Rightarrow> (nat option, 'x) copying" where
  "SecretRotatorStatus_DeepCopy ord lib = deep_copy as_status StatusCell (SecretRotatorStatus_DeepCopyInto ord lib)"
definition SecretRotator_DeepCopy ::
    "(string list \<Rightarrow> string list) \<Rightarrow> ('x, 'x) copying \<Rightarrow> (nat option, 'x) copying" where
  "SecretRotator_DeepCopy ord lib = deep_copy as_rotator RotatorCell (SecretRotator_DeepCopyInto ord lib)"
definition SecretRotatorList_DeepCopy ::
    "(string list \<Rightarrow> string list) \<Rightarrow> ('x, 'x) copying \<Rightarrow> (nat option, 'x) copying" where
  "SecretRotatorList_DeepCopy ord lib = deep_copy as_list ListCell (SecretRotatorList_DeepCopyInto ord lib)"

text \<open>\<open>if c := in.DeepCopy(); c != nil\<close>: the interface value holds the copy, or is nil itself.\<close>

definition SecretRotator_DeepCopyObject ::
    "(string list \<Rightarrow> string list) \<Rightarrow> ('x, 'x) copying \<Rightarrow> (nat option, 'x) copying" where
  "SecretRotator_DeepCopyObject ord lib p h = do {
     (c, h1) \<leftarrow> SecretRotator_DeepCopy ord lib p h;
     if c \<noteq> None then Some (c, h1) else Some (None, h1)}"
definition SecretRotatorList_DeepCopyObject ::
    "(string list \<Rightarrow> string list) \<Rightarrow> ('x, 'x) copying \<Rightarrow> (nat option, 'x) copying" where
  "SecretRotatorList_DeepCopyObject ord lib p h = do {
     (c, h1) \<leftarrow> SecretRotatorList_DeepCopy ord lib p h;
     if c \<noteq> None then Some (c, h1) else Some (None, h1)}"

end
