(* ===== verification/Deep_Copy_Theorems.thy ===== *)
theory Deep_Copy_Theorems
  imports Deep_Copy
begin

text \<open>
  What a deep copy is: the copying returns, changes no object there was, and leaves an object whose value
  is that of the original and rests on new objects alone.  Each copying routine of the generated code
  meets this contract, given that the one of the API machinery does.
\<close>

section \<open>The contract\<close>

text \<open>Heaps that agree on the addresses from \<open>m\<close> up to \<open>n\<close>.\<close>

definition same_cells :: "nat \<Rightarrow> nat \<Rightarrow> 'x heap \<Rightarrow> 'x heap \<Rightarrow> bool" where
  "same_cells m n h h' \<longleftrightarrow> (\<forall>a. m \<le> a \<and> a < n \<longrightarrow> h_cell h' a = h_cell h a) \<and> n \<le> h_next h'"

text \<open>
  From \<open>h\<close> to \<open>h'\<close> only new objects were made, and \<open>P\<close> holds as long as these are left alone.
\<close>

definition built :: "'x heap \<Rightarrow> 'x heap \<Rightarrow> ('x heap \<Rightarrow> bool) \<Rightarrow> bool" where
  "built h h' P \<longleftrightarrow> same_cells 0 (h_next h) h h' \<and> (\<forall>h''. same_cells (h_next h) (h_next h') h' h'' \<longrightarrow> P h'')"

lemma built_old: "built h h' P \<Longrightarrow> same_cells 0 (h_next h) h h'"
  by (simp add: built_def)

lemma built_seq:
  assumes "built h h1 P" "built h1 h2 Q"
  shows "built h h2 (\<lambda>h. P h \<and> Q h)"
proof -
  have n: "h_next h \<le> h_next h1" "h_next h1 \<le> h_next h2" using assms by (simp_all add: built_def same_cells_def)
  then have "same_cells 0 (h_next h) h h2" using assms by (simp add: built_def same_cells_def)
  moreover have "P h'' \<and> Q h''" if "same_cells (h_next h) (h_next h2) h2 h''" for h''
  proof -
    have "same_cells (h_next h) (h_next h1) h1 h''" "same_cells (h_next h1) (h_next h2) h2 h''"
      using that n assms(2) by (simp_all add: built_def same_cells_def)
    then show ?thesis using assms by (simp add: built_def)
  qed
  ultimately show ?thesis by (simp add: built_def)
qed

lemma built_mono: "built h h' P \<Longrightarrow> (\<And>h. P h \<Longrightarrow> Q h) \<Longrightarrow> built h h' Q"
  by (auto simp: built_def)

lemma built_nothing: "(\<And>h. P h) \<Longrightarrow> built h h P"
  by (simp add: built_def same_cells_def)

lemma built_alloc: "built h (snd (alloc c h)) (\<lambda>h'. read h' (fst (alloc c h)) = Some c)"
  by (auto simp: built_def same_cells_def alloc_def read_def)

lemma read_frame: "read h a = Some c \<Longrightarrow> same_cells 0 (h_next h) h h' \<Longrightarrow> read h' a = Some c"
  by (auto simp: read_def same_cells_def split: if_splits)

locale copier =
  fixes copy :: "('a, 'x) copying" and val :: "'x heap \<Rightarrow> 'a \<Rightarrow> 'b option"
  assumes frame: "val h x = Some v \<Longrightarrow> same_cells 0 (h_next h) h h' \<Longrightarrow> val h' x = Some v"
    and copies: "val h x = Some v \<Longrightarrow> \<exists>y h'. copy x h = Some (y, h') \<and> built h h' (\<lambda>h. val h y = Some v)"
begin

text \<open>The next step of a routine, after others that made new objects.\<close>

lemma next_step:
  assumes "val h x = Some v" "built h h1 P"
  obtains y h2 where "copy x h1 = Some (y, h2)" "built h h2 (\<lambda>h. P h \<and> val h y = Some v)"
  using copies [OF frame [OF assms(1) built_old [OF assms(2)]]] built_seq [OF assms(2)] by blast

text \<open>The copy and the original do not share: writing to one leaves the other's value.\<close>

lemma isolated:
  assumes "val h x = Some v"
  shows "\<exists>y h'. copy x h = Some (y, h') \<and> val h' y = Some v \<and> val h' x = Some v \<and>
    (\<forall>a c. a < h_next h \<longrightarrow> val (write_cell a c h') y = Some v) \<and>
    (\<forall>a c. h_next h \<le> a \<longrightarrow> val (write_cell a c h') x = Some v)"
proof -
  obtain y h' where c: "copy x h = Some (y, h')" and b: "built h h' (\<lambda>h. val h y = Some v)"
    using copies [OF assms] by blast
  have "same_cells (h_next h) (h_next h') h' h'" by (simp add: same_cells_def)
  moreover have "same_cells (h_next h) (h_next h') h' (write_cell a d h')" if "a < h_next h" for a d
    using that by (simp add: same_cells_def write_cell_def)
  moreover have "same_cells 0 (h_next h) h (write_cell a d h')" if "h_next h \<le> a" for a d
    using that built_old [OF b] by (simp add: same_cells_def write_cell_def)
  ultimately show ?thesis
    using c b frame [OF assms built_old [OF b]] frame [OF assms] unfolding built_def by blast
qed

end

section \<open>Values\<close>

text \<open>Each is \<open>None\<close> for an object with a reference to nothing or to something of another type.\<close>

definition val_unless_nil :: "('x heap \<Rightarrow> 'a \<Rightarrow> 'b option) \<Rightarrow> 'x heap \<Rightarrow> 'a option \<Rightarrow> 'b option option" where
  "val_unless_nil val h p = (case p of None \<Rightarrow> Some None | Some a \<Rightarrow> map_option Some (val h a))"

definition map_val :: "'x heap \<Rightarrow> nat \<Rightarrow> (string \<Rightarrow> string option) option" where
  "map_val h a = do {c \<leftarrow> read h a; m \<leftarrow> as_map c; Some (map_of m)}"

definition duration_val :: "'x heap \<Rightarrow> nat \<Rightarrow> int option" where
  "duration_val h a = do {c \<leftarrow> read h a; as_duration c}"

definition elements_val :: "('x heap \<Rightarrow> 'a \<Rightarrow> 'b option) \<Rightarrow> 'x heap \<Rightarrow> 'a list \<Rightarrow> 'b list option" where
  "elements_val val h xs = those (map (val h) xs)"

definition structs_val ::
    "('x cell \<Rightarrow> 'a list option) \<Rightarrow> ('x heap \<Rightarrow> 'a \<Rightarrow> 'b option) \<Rightarrow> 'x heap \<Rightarrow> slice \<Rightarrow> 'b list option" where
  "structs_val view val h s = do {xs \<leftarrow> contents view h s; elements_val val h xs}"

abbreviation strings_val :: "'x heap \<Rightarrow> slice option \<Rightarrow> string list option option" where
  "strings_val \<equiv> val_unless_nil (contents as_strings)"

definition managed_val :: "'x heap \<Rightarrow> nat \<Rightarrow> (string \<Rightarrow> string list option option) option" where
  "managed_val h a = do {
     c \<leftarrow> read h a;
     m \<leftarrow> as_managed c;
     if list_all (\<lambda>k. strings_val h (map_get None m k) \<noteq> None) (map fst m)
     then Some (\<lambda>k. map_option (\<lambda>s. the (strings_val h s)) (map_of m k)) else None}"

definition plain_val :: "'x heap \<Rightarrow> 'a \<Rightarrow> 'a option" where
  "plain_val h x = Some x"

definition metadata_val :: "'x heap \<Rightarrow> metadata_obj \<Rightarrow> (string \<Rightarrow> string option) option metadata_struct option" where
  "metadata_val h x = do {
     annotations \<leftarrow> val_unless_nil map_val h (ms_Annotations x);
     labels \<leftarrow> val_unless_nil map_val h (ms_Labels x);
     Some \<lparr>ms_Annotations = annotations, ms_Labels = labels\<rparr>}"

type_synonym 'v spec_value =
  "((string \<Rightarrow> string option) option, GeneratedSecret list option, 'v, string list option, int option) spec_struct"
type_synonym 'v status_value =
  "('v list option, SecretNamespaceFailure list option, string list option, (string \<Rightarrow> string list option option) option) status_struct"
type_synonym 'v rotator_value = "('v, 'v spec_value, 'v status_value) rotator_struct"
type_synonym 'v list_value = "('v, 'v rotator_value list option) list_struct"

definition spec_val :: "('x heap \<Rightarrow> 'x \<Rightarrow> 'v option) \<Rightarrow> 'x heap \<Rightarrow> 'x spec_obj \<Rightarrow> 'v spec_value option" where
  "spec_val lval h x = do {
     metadata \<leftarrow> metadata_val h (ss_SecretMetadata x);
     secrets \<leftarrow> val_unless_nil (contents as_secrets) h (ss_GeneratedSecrets x);
     selector \<leftarrow> lval h (ss_NamespaceSelector x);
     subdomains \<leftarrow> strings_val h (ss_ArtifactorySubdomains x);
     interval \<leftarrow> val_unless_nil duration_val h (ss_RefreshInterval x);
     Some \<lparr>ss_SecretMetadata = metadata, ss_SecretName = ss_SecretName x, ss_GeneratedSecrets = secrets,
       ss_NamespaceSelector = selector, ss_ArtifactoryUrl = ss_ArtifactoryUrl x, ss_ArtifactorySubdomains = subdomains,
       ss_ServiceAccount = ss_ServiceAccount x, ss_RefreshInterval = interval, ss_Security = ss_Security x,
       ss_AuthType = ss_AuthType x, ss_AwsRegion = ss_AwsRegion x\<rparr>}"

definition status_val :: "('x heap \<Rightarrow> 'x \<Rightarrow> 'v option) \<Rightarrow> 'x heap \<Rightarrow> status_obj \<Rightarrow> 'v status_value option" where
  "status_val lval h x = do {
     conditions \<leftarrow> val_unless_nil (structs_val as_conditions lval) h (us_Conditions x);
     failures \<leftarrow> val_unless_nil (contents as_failures) h (us_FailedNamespaces x);
     provisioned \<leftarrow> strings_val h (us_ProvisionedNamespaces x);
     managed \<leftarrow> val_unless_nil managed_val h (us_SecretManagedByNamespaces x);
     Some \<lparr>us_Conditions = conditions, us_FailedNamespaces = failures, us_ProvisionedNamespaces = provisioned,
       us_SecretManagedByNamespaces = managed, us_AuthType = us_AuthType x\<rparr>}"

definition rotator_val :: "('x heap \<Rightarrow> 'x \<Rightarrow> 'v option) \<Rightarrow> 'x heap \<Rightarrow> 'x rotator_obj \<Rightarrow> 'v rotator_value option" where
  "rotator_val lval h x = do {
     meta \<leftarrow> lval h (rs_ObjectMeta x);
     spec \<leftarrow> spec_val lval h (rs_Spec x);
     status \<leftarrow> status_val lval h (rs_Status x);
     Some \<lparr>rs_TypeMeta = rs_TypeMeta x, rs_ObjectMeta = meta, rs_Spec = spec, rs_Status = status\<rparr>}"

definition list_val :: "('x heap \<Rightarrow> 'x \<Rightarrow> 'v option) \<Rightarrow> 'x heap \<Rightarrow> 'x list_obj \<Rightarrow> 'v list_value option" where
  "list_val lval h x = do {
     meta \<leftarrow> lval h (rl_ListMeta x);
     items \<leftarrow> val_unless_nil (structs_val as_rotators (rotator_val lval)) h (rl_Items x);
     Some \<lparr>rl_TypeMeta = rl_TypeMeta x, rl_ListMeta = meta, rl_Items = items\<rparr>}"

definition pointer_val :: "('x cell \<Rightarrow> 'a option) \<Rightarrow> ('x heap \<Rightarrow> 'a \<Rightarrow> 'b option) \<Rightarrow> 'x heap \<Rightarrow> nat option \<Rightarrow> 'b option option" where
  "pointer_val view val h p =
     (case p of None \<Rightarrow> Some None | Some a \<Rightarrow> do {c \<leftarrow> read h a; x \<leftarrow> view c; v \<leftarrow> val h x; Some (Some v)})"

section \<open>The routines meet the contract\<close>

lemma copier_unless_nil:
  assumes "copier copy val"
  shows "copier (copy_unless_nil copy) (val_unless_nil val)"
proof
  fix h :: "'b heap" and p v h'
  assume "val_unless_nil val h p = Some v" "same_cells 0 (h_next h) h h'"
  then show "val_unless_nil val h' p = Some v"
    by (auto simp: val_unless_nil_def split: option.splits intro: copier.frame [OF assms])
next
  fix h :: "'b heap" and p v
  assume v: "val_unless_nil val h p = Some v"
  show "\<exists>y h'. copy_unless_nil copy p h = Some (y, h') \<and> built h h' (\<lambda>h. val_unless_nil val h y = Some v)"
  proof (cases p)
    case None
    then show ?thesis using v by (simp add: copy_unless_nil_def val_unless_nil_def built_nothing)
  next
    case (Some a)
    then obtain w where w: "val h a = Some w" "v = Some w" using v by (auto simp: val_unless_nil_def)
    obtain b h1 where "copy a h = Some (b, h1)" "built h h1 (\<lambda>h. val h b = Some w)"
      using copier.copies [OF assms w(1)] by blast
    then show ?thesis
      using Some w(2) by (intro exI [of _ "Some b"] exI [of _ h1])
        (auto simp: copy_unless_nil_def val_unless_nil_def elim: built_mono)
  qed
qed

lemma map_of_copy_entries_from:
  "map_of (foldl (\<lambda>out key. AList.update key (map_get [] m key) out) out keys) k =
   (if k \<in> set keys then Some (map_get [] m k) else map_of out k)"
  by (induction keys arbitrary: out) auto

lemma map_of_copy_entries: "set keys = fst ` set m \<Longrightarrow> map_of (copy_entries keys m) = map_of m"
proof
  fix k assume keys: "set keys = fst ` set m"
  show "map_of (copy_entries keys m) k = map_of m k"
  proof (cases "map_of m k")
    case None
    then have "k \<notin> set keys" using keys by (simp add: map_of_eq_None_iff)
    then show ?thesis using None by (simp add: copy_entries_def map_of_copy_entries_from)
  next
    case (Some v)
    then have "k \<in> set keys" "map_get [] m k = v" using keys by (force dest: map_of_SomeD, simp add: map_get_def)
    then show ?thesis using Some by (simp add: copy_entries_def map_of_copy_entries_from)
  qed
qed

interpretation map_copier: copier "copy_map ord" map_val for ord
proof
  fix h :: "'a heap" and a v h'
  assume "map_val h a = Some v" "same_cells 0 (h_next h) h h'"
  then show "map_val h' a = Some v"
    by (auto simp: map_val_def bind_eq_Some_conv dest: read_frame)
next
  fix h :: "'a heap" and a v
  assume "map_val h a = Some v"
  then obtain c m where m: "read h a = Some c" "as_map c = Some m" "v = map_of m"
    by (auto simp: map_val_def bind_eq_Some_conv)
  let ?r = "alloc (MapCell (copy_entries (key_order ord m) m)) h"
  have "built h (snd ?r) (\<lambda>h. map_val h (fst ?r) = Some v)"
    by (rule built_mono [OF built_alloc]) (simp add: map_val_def as_map_def m(3) map_of_copy_entries)
  then show "\<exists>y h'. copy_map ord a h = Some (y, h') \<and> built h h' (\<lambda>h. map_val h y = Some v)"
    using m(1,2) by (intro exI [of _ "fst ?r"] exI [of _ "snd ?r"]) (simp add: copy_map_def)
qed

interpretation duration_copier: copier copy_duration duration_val
proof
  fix h :: "'a heap" and a v h'
  assume "duration_val h a = Some v" "same_cells 0 (h_next h) h h'"
  then show "duration_val h' a = Some v"
    by (auto simp: duration_val_def bind_eq_Some_conv dest: read_frame)
next
  fix h :: "'a heap" and a v
  assume "duration_val h a = Some v"
  then obtain c where c: "read h a = Some c" "as_duration c = Some v"
    by (auto simp: duration_val_def bind_eq_Some_conv)
  let ?r = "alloc (DurationCell v) h"
  have "built h (snd ?r) (\<lambda>h. duration_val h (fst ?r) = Some v)"
    by (rule built_mono [OF built_alloc]) (simp add: duration_val_def as_duration_def)
  then show "\<exists>y h'. copy_duration a h = Some (y, h') \<and> built h h' (\<lambda>h. duration_val h y = Some v)"
    using c by (intro exI [of _ "fst ?r"] exI [of _ "snd ?r"]) (simp add: copy_duration_def)
qed

lemma contents_frame: "contents view h s = Some xs \<Longrightarrow> same_cells 0 (h_next h) h h' \<Longrightarrow> contents view h' s = Some xs"
  by (auto simp: contents_def bind_eq_Some_conv dest: read_frame split: if_splits)

lemma built_new_slice:
  "view (mk xs) = Some xs \<Longrightarrow> built h (snd (new_slice mk xs h)) (\<lambda>h'. contents view h' (fst (new_slice mk xs h)) = Some xs)"
  unfolding new_slice_def case_prod_beta Let_def snd_conv fst_conv
  by (rule built_mono [OF built_alloc]) (simp add: contents_def)

lemma copier_slice:
  assumes "\<And>xs. view (mk xs) = Some xs"
  shows "copier (copy_slice view mk) (contents view)"
proof
  fix h :: "'b heap" and s xs
  assume "contents view h s = Some xs"
  then show "\<exists>y h'. copy_slice view mk s h = Some (y, h') \<and> built h h' (\<lambda>h. contents view h y = Some xs)"
    using built_new_slice [of view mk xs h, OF assms]
    by (intro exI [of _ "fst (new_slice mk xs h)"] exI [of _ "snd (new_slice mk xs h)"]) (simp add: copy_slice_def)
qed (rule contents_frame)

lemma elements_val_Cons:
  "elements_val val h (x # xs) = Some vs \<longleftrightarrow>
   (\<exists>v ws. vs = v # ws \<and> val h x = Some v \<and> elements_val val h xs = Some ws)"
  by (auto simp: elements_val_def split: option.splits)

lemma copier_elements:
  assumes "copier copy val"
  shows "copier (copy_elements copy) (elements_val val)"
proof
  fix h :: "'b heap" and xs vs h'
  assume "elements_val val h xs = Some vs" "same_cells 0 (h_next h) h h'"
  then show "elements_val val h' xs = Some vs"
  proof (induction xs arbitrary: vs)
    case (Cons x xs)
    then show ?case by (auto simp: elements_val_Cons intro: copier.frame [OF assms])
  qed (simp add: elements_val_def)
next
  fix h :: "'b heap" and xs vs
  show "elements_val val h xs = Some vs \<Longrightarrow>
    \<exists>ys h'. copy_elements copy xs h = Some (ys, h') \<and> built h h' (\<lambda>h. elements_val val h ys = Some vs)"
  proof (induction xs arbitrary: h vs)
    case Nil
    then show ?case by (simp add: elements_val_def built_nothing)
  next
    case (Cons x xs)
    then obtain v ws where v: "vs = v # ws" "val h x = Some v" "elements_val val h xs = Some ws"
      by (auto simp: elements_val_Cons)
    obtain y h1 where 1: "copy x h = Some (y, h1)" "built h h1 (\<lambda>h. val h y = Some v)"
      using copier.copies [OF assms v(2)] by blast
    have "elements_val val h1 xs = Some ws" if "elements_val val h xs = Some ws" for xs ws
      using that built_old [OF 1(2)]
    proof (induction xs arbitrary: ws)
      case (Cons x xs)
      then show ?case by (auto simp: elements_val_Cons intro: copier.frame [OF assms])
    qed (simp add: elements_val_def)
    from Cons.IH [OF this [OF v(3)]] obtain ys h2 where
      2: "copy_elements copy xs h1 = Some (ys, h2)" "built h1 h2 (\<lambda>h. elements_val val h ys = Some ws)" by blast
    have "built h h2 (\<lambda>h. elements_val val h (y # ys) = Some vs)"
      by (rule built_mono [OF built_seq [OF 1(2) 2(2)]]) (simp add: elements_val_Cons v(1))
    then show ?case using 1(1) 2(1) by simp
  qed
qed

lemma copier_structs:
  assumes "copier copy val" "\<And>xs. view (mk xs) = Some xs"
  shows "copier (copy_structs view mk copy) (structs_val view val)"
proof
  fix h :: "'b heap" and s vs h'
  assume "structs_val view val h s = Some vs" "same_cells 0 (h_next h) h h'"
  then show "structs_val view val h' s = Some vs"
    by (auto simp: structs_val_def bind_eq_Some_conv intro: contents_frame copier.frame [OF copier_elements [OF assms(1)]])
next
  fix h :: "'b heap" and s vs
  assume "structs_val view val h s = Some vs"
  then obtain xs where xs: "contents view h s = Some xs" "elements_val val h xs = Some vs"
    by (auto simp: structs_val_def bind_eq_Some_conv)
  obtain ys h1 where 1: "copy_elements copy xs h = Some (ys, h1)" "built h h1 (\<lambda>h. elements_val val h ys = Some vs)"
    using copier.copies [OF copier_elements [OF assms(1)] xs(2)] by blast
  let ?r = "new_slice mk ys h1"
  have "built h (snd ?r) (\<lambda>h. structs_val view val h (fst ?r) = Some vs)"
    by (rule built_mono [OF built_seq [OF 1(2) built_new_slice [of view mk ys, OF assms(2)]]]) (simp add: structs_val_def)
  then show "\<exists>y h'. copy_structs view mk copy s h = Some (y, h') \<and> built h h' (\<lambda>h. structs_val view val h y = Some vs)"
    using xs(1) 1(1) by (intro exI [of _ "fst ?r"] exI [of _ "snd ?r"]) (simp add: copy_structs_def)
qed

lemmas view_make = cell_views cell.case

lemma strings_copier: "copier (copy_slice as_strings StringsCell) (contents as_strings)"
  by (rule copier_slice) (simp add: as_strings_def)

lemma secrets_copier: "copier (copy_slice as_secrets SecretsCell) (contents as_secrets)"
  by (rule copier_slice) (simp add: as_secrets_def)

lemma failures_copier: "copier (copy_slice as_failures FailuresCell) (contents as_failures)"
  by (rule copier_slice) (simp add: as_failures_def)

lemma conditions_copier: "copier lib lval \<Longrightarrow> copier (copy_structs as_conditions ConditionsCell lib) (structs_val as_conditions lval)"
  by (rule copier_structs) (simp_all add: as_conditions_def)

text \<open>The map of slices: every key of the list gets a copy of its slice.\<close>

lemma copy_managed_entries_built:
  "\<forall>k \<in> set keys. strings_val h (map_get None m k) = Some (f k) \<Longrightarrow>
   \<exists>out' h'. copy_managed_entries keys m out h = Some (out', h') \<and>
     built h h' (\<lambda>h. \<forall>k \<in> set keys. \<exists>s. map_of out' k = Some s \<and> strings_val h s = Some (f k)) \<and>
     (\<forall>k. k \<notin> set keys \<longrightarrow> map_of out' k = map_of out k)"
proof (induction keys arbitrary: h out)
  case Nil
  then show ?case by (simp add: built_nothing)
next
  case (Cons key keys)
  note sc = copier_unless_nil [OF strings_copier]
  obtain s h1 where 1: "copy_unless_nil (copy_slice as_strings StringsCell) (map_get None m key) h = Some (s, h1)"
    "built h h1 (\<lambda>h. strings_val h s = Some (f key))"
    using copier.copies [OF sc] Cons.prems by (metis list.set_intros(1))
  have "\<forall>k \<in> set keys. strings_val h1 (map_get None m k) = Some (f k)"
    using Cons.prems copier.frame [OF sc _ built_old [OF 1(2)]] by simp
  from Cons.IH [OF this, of "AList.update key s out"] obtain out' h2 where
    2: "copy_managed_entries keys m (AList.update key s out) h1 = Some (out', h2)"
    "built h1 h2 (\<lambda>h. \<forall>k \<in> set keys. \<exists>s. map_of out' k = Some s \<and> strings_val h s = Some (f k))"
    "\<forall>k. k \<notin> set keys \<longrightarrow> map_of out' k = map_of (AList.update key s out) k" by blast
  have "built h h2 (\<lambda>h. \<forall>k \<in> set (key # keys). \<exists>s. map_of out' k = Some s \<and> strings_val h s = Some (f k))"
    by (rule built_mono [OF built_seq [OF 1(2) 2(2)]]) (use 2(3) in \<open>cases "key \<in> set keys"; auto\<close>)
  then show ?case using 1(1) 2(1,3) by auto
qed

lemma managed_val_get:
  "managed_val h a = Some v \<Longrightarrow> \<exists>c m. read h a = Some c \<and> as_managed c = Some m \<and>
     (\<forall>k. case map_of m k of None \<Rightarrow> v k = None | Some s \<Rightarrow> (\<exists>w. strings_val h s = Some w \<and> v k = Some w))"
proof -
  assume "managed_val h a = Some v"
  then obtain c m where m: "read h a = Some c" "as_managed c = Some m"
    and all: "list_all (\<lambda>k. strings_val h (map_get None m k) \<noteq> None) (map fst m)"
    and v: "v = (\<lambda>k. map_option (\<lambda>s. the (strings_val h s)) (map_of m k))"
    by (auto simp: managed_val_def bind_eq_Some_conv split: if_splits)
  have "case map_of m k of None \<Rightarrow> v k = None | Some s \<Rightarrow> (\<exists>w. strings_val h s = Some w \<and> v k = Some w)" for k
  proof (cases "map_of m k")
    case (Some s)
    then have "k \<in> set (map fst m)" by (force dest: map_of_SomeD)
    with all have "strings_val h (map_get None m k) \<noteq> None" unfolding list_all_iff by blast
    then show ?thesis using Some by (auto simp: v map_get_def)
  qed (simp add: v)
  with m show ?thesis by blast
qed

lemma managed_val_intro:
  assumes "read h a = Some c" "as_managed c = Some m"
    and "\<And>k. case map_of m k of None \<Rightarrow> v k = None | Some s \<Rightarrow> (\<exists>w. strings_val h s = Some w \<and> v k = Some w)"
  shows "managed_val h a = Some v"
proof -
  have "list_all (\<lambda>k. strings_val h (map_get None m k) \<noteq> None) (map fst m)"
  proof (unfold list_all_iff, intro ballI)
    fix k assume "k \<in> set (map fst m)"
    then obtain s where "map_of m k = Some s" by (cases "map_of m k") (auto simp: map_of_eq_None_iff)
    then show "strings_val h (map_get None m k) \<noteq> None" using assms(3) [of k] by (auto simp: map_get_def)
  qed
  moreover have "(\<lambda>k. map_option (\<lambda>s. the (strings_val h s)) (map_of m k)) = v"
  proof
    fix k show "map_option (\<lambda>s. the (strings_val h s)) (map_of m k) = v k"
      using assms(3) [of k] by (auto split: option.splits)
  qed
  ultimately show ?thesis using assms(1,2) by (simp add: managed_val_def)
qed

interpretation managed_copier: copier "copy_managed ord" managed_val for ord
proof
  fix h :: "'a heap" and a v h'
  assume v: "managed_val h a = Some v" and same: "same_cells 0 (h_next h) h h'"
  obtain c m where m: "read h a = Some c" "as_managed c = Some m"
    "\<And>k. case map_of m k of None \<Rightarrow> v k = None | Some s \<Rightarrow> (\<exists>w. strings_val h s = Some w \<and> v k = Some w)"
    using managed_val_get [OF v] by blast
  have "case map_of m k of None \<Rightarrow> v k = None | Some s \<Rightarrow> (\<exists>w. strings_val h' s = Some w \<and> v k = Some w)" for k
    using m(3) [of k] copier.frame [OF copier_unless_nil [OF strings_copier] _ same] by (auto split: option.splits)
  then show "managed_val h' a = Some v" by (rule managed_val_intro [OF read_frame [OF m(1) same] m(2)])
next
  fix h :: "'a heap" and a v
  assume v: "managed_val h a = Some v"
  obtain c m where m: "read h a = Some c" "as_managed c = Some m"
    "\<And>k. case map_of m k of None \<Rightarrow> v k = None | Some s \<Rightarrow> (\<exists>w. strings_val h s = Some w \<and> v k = Some w)"
    using managed_val_get [OF v] by blast
  let ?keys = "key_order ord m"
  have keys: "k \<in> set ?keys \<longleftrightarrow> map_of m k \<noteq> None" for k by (simp add: map_of_eq_None_iff)
  have "strings_val h (map_get None m k) = Some (the (v k))" if "k \<in> set ?keys" for k
    using m(3) [of k] that unfolding keys by (cases "map_of m k") (auto simp: map_get_def)
  then have "\<forall>k \<in> set ?keys. strings_val h (map_get None m k) = Some (the (v k))" by blast
  from copy_managed_entries_built [OF this, of "[]"] obtain out h1 where
    1: "copy_managed_entries ?keys m [] h = Some (out, h1)"
    "built h h1 (\<lambda>h. \<forall>k \<in> set ?keys. \<exists>s. map_of out k = Some s \<and> strings_val h s = Some (the (v k)))"
    "\<forall>k. k \<notin> set ?keys \<longrightarrow> map_of out k = None" by auto
  let ?r = "alloc (ManagedCell out) h1"
  have "built h (snd ?r) (\<lambda>h. managed_val h (fst ?r) = Some v)"
  proof (rule built_mono [OF built_seq [OF 1(2) built_alloc]], elim conjE)
    fix h' :: "'a heap"
    assume vals: "\<forall>k \<in> set ?keys. \<exists>s. map_of out k = Some s \<and> strings_val h' s = Some (the (v k))"
      and r: "read h' (fst ?r) = Some (ManagedCell out)"
    have "case map_of out k of None \<Rightarrow> v k = None | Some s \<Rightarrow> (\<exists>w. strings_val h' s = Some w \<and> v k = Some w)" for k
      using vals 1(3) m(3) [of k] keys [of k] by (cases "map_of m k") auto
    then show "managed_val h' (fst ?r) = Some v"
      by (rule managed_val_intro [OF r, rotated]) (simp add: as_managed_def)
  qed
  then show "\<exists>y h'. copy_managed ord a h = Some (y, h') \<and> built h h' (\<lambda>h. managed_val h y = Some v)"
    using m(1,2) 1(1) by (intro exI [of _ "fst ?r"] exI [of _ "snd ?r"]) (simp add: copy_managed_def)
qed

section \<open>The structs\<close>

lemma plain_copier: "copier (\<lambda>x h. Some (x, h)) plain_val"
  by unfold_locales (simp_all add: plain_val_def built_nothing)

lemmas plain_into = GeneratedSecret_DeepCopyInto_def SecretNamespaceFailure_DeepCopyInto_def
  SecurityDetails_DeepCopyInto_def ServiceAccountDetails_DeepCopyInto_def

interpretation generated_copier: copier GeneratedSecret_DeepCopyInto plain_val
  using plain_copier by (simp add: plain_into [abs_def])

interpretation failure_copier: copier SecretNamespaceFailure_DeepCopyInto plain_val
  using plain_copier by (simp add: plain_into [abs_def])

interpretation security_copier: copier SecurityDetails_DeepCopyInto plain_val
  using plain_copier by (simp add: plain_into [abs_def])

interpretation account_copier: copier ServiceAccountDetails_DeepCopyInto plain_val
  using plain_copier by (simp add: plain_into [abs_def])

interpretation metadata_copier: copier "SecretMetadata_DeepCopyInto ord" metadata_val for ord
proof
  note mc = copier_unless_nil [OF map_copier.copier_axioms]
  fix h :: "'a heap" and x v h'
  show "metadata_val h x = Some v \<Longrightarrow> same_cells 0 (h_next h) h h' \<Longrightarrow> metadata_val h' x = Some v"
    by (auto simp: metadata_val_def bind_eq_Some_conv dest: copier.frame [OF mc])
  assume "metadata_val h x = Some v"
  then obtain an la where v: "val_unless_nil map_val h (ms_Annotations x) = Some an"
    "val_unless_nil map_val h (ms_Labels x) = Some la" "v = \<lparr>ms_Annotations = an, ms_Labels = la\<rparr>"
    by (auto simp: metadata_val_def bind_eq_Some_conv)
  obtain a h1 where 1: "copy_unless_nil (copy_map ord) (ms_Annotations x) h = Some (a, h1)"
    "built h h1 (\<lambda>h. val_unless_nil map_val h a = Some an)" using copier.copies [OF mc v(1)] by blast
  obtain l h2 where 2: "copy_unless_nil (copy_map ord) (ms_Labels x) h1 = Some (l, h2)"
    "built h h2 (\<lambda>h. val_unless_nil map_val h a = Some an \<and> val_unless_nil map_val h l = Some la)"
    by (rule copier.next_step [OF mc v(2) 1(2)])
  have "built h h2 (\<lambda>h. metadata_val h (x\<lparr>ms_Annotations := a, ms_Labels := l\<rparr>) = Some v)"
    by (rule built_mono [OF 2(2)]) (simp add: metadata_val_def v(3))
  then show "\<exists>y h'. SecretMetadata_DeepCopyInto ord x h = Some (y, h') \<and> built h h' (\<lambda>h. metadata_val h y = Some v)"
    using 1(1) 2(1) by (simp add: SecretMetadata_DeepCopyInto_def)
qed

text \<open>The ones with structs of the API machinery in them, given the contract of its copies.\<close>

locale machinery =
  fixes lib :: "('x, 'x) copying" and lval :: "'x heap \<Rightarrow> 'x \<Rightarrow> 'v option"
  assumes lib: "copier lib lval"
begin

lemma spec_copier: "copier (SecretRotatorSpec_DeepCopyInto ord lib) (spec_val lval)"
proof
  note gc = copier_unless_nil [OF secrets_copier] and sc = copier_unless_nil [OF strings_copier]
    and dc = copier_unless_nil [OF duration_copier.copier_axioms]
  fix h :: "'x heap" and x v h'
  show "spec_val lval h x = Some v \<Longrightarrow> same_cells 0 (h_next h) h h' \<Longrightarrow> spec_val lval h' x = Some v"
    by (auto simp: spec_val_def bind_eq_Some_conv
        dest: metadata_copier.frame copier.frame [OF gc] copier.frame [OF lib] copier.frame [OF sc] copier.frame [OF dc])
  assume "spec_val lval h x = Some v"
  then obtain md gs sel sd iv where v: "metadata_val h (ss_SecretMetadata x) = Some md"
    "val_unless_nil (contents as_secrets) h (ss_GeneratedSecrets x) = Some gs" "lval h (ss_NamespaceSelector x) = Some sel"
    "strings_val h (ss_ArtifactorySubdomains x) = Some sd" "val_unless_nil duration_val h (ss_RefreshInterval x) = Some iv"
    "v = \<lparr>ss_SecretMetadata = md, ss_SecretName = ss_SecretName x, ss_GeneratedSecrets = gs,
       ss_NamespaceSelector = sel, ss_ArtifactoryUrl = ss_ArtifactoryUrl x, ss_ArtifactorySubdomains = sd,
       ss_ServiceAccount = ss_ServiceAccount x, ss_RefreshInterval = iv, ss_Security = ss_Security x,
       ss_AuthType = ss_AuthType x, ss_AwsRegion = ss_AwsRegion x\<rparr>"
    by (auto simp: spec_val_def bind_eq_Some_conv)
  obtain y1 h1 where 1: "SecretMetadata_DeepCopyInto ord (ss_SecretMetadata x) h = Some (y1, h1)"
    "built h h1 (\<lambda>h. metadata_val h y1 = Some md)" using metadata_copier.copies [OF v(1)] by blast
  from copier.next_step [OF gc v(2) 1(2)] obtain y2 h2 where
    2: "copy_unless_nil (copy_slice as_secrets SecretsCell) (ss_GeneratedSecrets x) h1 = Some (y2, h2)"
    and b2: "built h h2 (\<lambda>h. metadata_val h y1 = Some md \<and> val_unless_nil (contents as_secrets) h y2 = Some gs)" .
  obtain y3 h3 where 3: "lib (ss_NamespaceSelector x) h2 = Some (y3, h3)"
    and b3: "built h h3 (\<lambda>h. (metadata_val h y1 = Some md \<and> val_unless_nil (contents as_secrets) h y2 = Some gs) \<and> lval h y3 = Some sel)"
    by (rule copier.next_step [OF lib v(3) b2])
  obtain y4 h4 where 4: "copy_unless_nil (copy_slice as_strings StringsCell) (ss_ArtifactorySubdomains x) h3 = Some (y4, h4)"
    and b4: "built h h4 (\<lambda>h. ((metadata_val h y1 = Some md \<and> val_unless_nil (contents as_secrets) h y2 = Some gs) \<and> lval h y3 = Some sel) \<and> strings_val h y4 = Some sd)"
    by (rule copier.next_step [OF sc v(4) b3])
  obtain y5 h5 where 5: "copy_unless_nil copy_duration (ss_RefreshInterval x) h4 = Some (y5, h5)"
    and b5: "built h h5 (\<lambda>h. (((metadata_val h y1 = Some md \<and> val_unless_nil (contents as_secrets) h y2 = Some gs) \<and> lval h y3 = Some sel) \<and> strings_val h y4 = Some sd) \<and> val_unless_nil duration_val h y5 = Some iv)"
    by (rule copier.next_step [OF dc v(5) b4])
  let ?y = "x\<lparr>ss_SecretMetadata := y1, ss_GeneratedSecrets := y2, ss_NamespaceSelector := y3,
             ss_ArtifactorySubdomains := y4, ss_RefreshInterval := y5\<rparr>"
  have "built h h5 (\<lambda>h. spec_val lval h ?y = Some v)"
    by (rule built_mono [OF b5]) (simp add: spec_val_def v(6))
  then show "\<exists>y h'. SecretRotatorSpec_DeepCopyInto ord lib x h = Some (y, h') \<and> built h h' (\<lambda>h. spec_val lval h y = Some v)"
    using 1(1) 2 3 4 5 by (simp add: SecretRotatorSpec_DeepCopyInto_def)
qed

lemma status_copier: "copier (SecretRotatorStatus_DeepCopyInto ord lib) (status_val lval)"
proof
  note cc = copier_unless_nil [OF conditions_copier [OF lib]] and fc = copier_unless_nil [OF failures_copier]
    and sc = copier_unless_nil [OF strings_copier] and mc = copier_unless_nil [OF managed_copier.copier_axioms]
  fix h :: "'x heap" and x v h'
  show "status_val lval h x = Some v \<Longrightarrow> same_cells 0 (h_next h) h h' \<Longrightarrow> status_val lval h' x = Some v"
    by (auto simp: status_val_def bind_eq_Some_conv
        dest: copier.frame [OF cc] copier.frame [OF fc] copier.frame [OF sc] copier.frame [OF mc])
  assume "status_val lval h x = Some v"
  then obtain c f p m where v: "val_unless_nil (structs_val as_conditions lval) h (us_Conditions x) = Some c"
    "val_unless_nil (contents as_failures) h (us_FailedNamespaces x) = Some f"
    "strings_val h (us_ProvisionedNamespaces x) = Some p" "val_unless_nil managed_val h (us_SecretManagedByNamespaces x) = Some m"
    "v = \<lparr>us_Conditions = c, us_FailedNamespaces = f, us_ProvisionedNamespaces = p,
       us_SecretManagedByNamespaces = m, us_AuthType = us_AuthType x\<rparr>"
    by (auto simp: status_val_def bind_eq_Some_conv)
  obtain y1 h1 where 1: "copy_unless_nil (copy_structs as_conditions ConditionsCell lib) (us_Conditions x) h = Some (y1, h1)"
    and b1: "built h h1 (\<lambda>h. val_unless_nil (structs_val as_conditions lval) h y1 = Some c)"
    using copier.copies [OF cc v(1)] by blast
  obtain y2 h2 where 2: "copy_unless_nil (copy_slice as_failures FailuresCell) (us_FailedNamespaces x) h1 = Some (y2, h2)"
    and b2: "built h h2 (\<lambda>h. val_unless_nil (structs_val as_conditions lval) h y1 = Some c \<and> val_unless_nil (contents as_failures) h y2 = Some f)"
    by (rule copier.next_step [OF fc v(2) b1])
  obtain y3 h3 where 3: "copy_unless_nil (copy_slice as_strings StringsCell) (us_ProvisionedNamespaces x) h2 = Some (y3, h3)"
    and b3: "built h h3 (\<lambda>h. (val_unless_nil (structs_val as_conditions lval) h y1 = Some c \<and> val_unless_nil (contents as_failures) h y2 = Some f) \<and> strings_val h y3 = Some p)"
    by (rule copier.next_step [OF sc v(3) b2])
  obtain y4 h4 where 4: "copy_unless_nil (copy_managed ord) (us_SecretManagedByNamespaces x) h3 = Some (y4, h4)"
    and b4: "built h h4 (\<lambda>h. ((val_unless_nil (structs_val as_conditions lval) h y1 = Some c \<and> val_unless_nil (contents as_failures) h y2 = Some f) \<and> strings_val h y3 = Some p) \<and> val_unless_nil managed_val h y4 = Some m)"
    by (rule copier.next_step [OF mc v(4) b3])
  let ?y = "x\<lparr>us_Conditions := y1, us_FailedNamespaces := y2, us_ProvisionedNamespaces := y3, us_SecretManagedByNamespaces := y4\<rparr>"
  have "built h h4 (\<lambda>h. status_val lval h ?y = Some v)"
    by (rule built_mono [OF b4]) (simp add: status_val_def v(5))
  then show "\<exists>y h'. SecretRotatorStatus_DeepCopyInto ord lib x h = Some (y, h') \<and> built h h' (\<lambda>h. status_val lval h y = Some v)"
    using 1 2 3 4 by (simp add: SecretRotatorStatus_DeepCopyInto_def)
qed

lemma rotator_copier: "copier (SecretRotator_DeepCopyInto ord lib) (rotator_val lval)"
proof
  fix h :: "'x heap" and x v h'
  show "rotator_val lval h x = Some v \<Longrightarrow> same_cells 0 (h_next h) h h' \<Longrightarrow> rotator_val lval h' x = Some v"
    by (auto simp: rotator_val_def bind_eq_Some_conv
        dest: copier.frame [OF lib] copier.frame [OF spec_copier] copier.frame [OF status_copier])
  assume "rotator_val lval h x = Some v"
  then obtain m s u where v: "lval h (rs_ObjectMeta x) = Some m" "spec_val lval h (rs_Spec x) = Some s"
    "status_val lval h (rs_Status x) = Some u" "v = \<lparr>rs_TypeMeta = rs_TypeMeta x, rs_ObjectMeta = m, rs_Spec = s, rs_Status = u\<rparr>"
    by (auto simp: rotator_val_def bind_eq_Some_conv)
  obtain y1 h1 where 1: "lib (rs_ObjectMeta x) h = Some (y1, h1)" and b1: "built h h1 (\<lambda>h. lval h y1 = Some m)"
    using copier.copies [OF lib v(1)] by blast
  obtain y2 h2 where 2: "SecretRotatorSpec_DeepCopyInto ord lib (rs_Spec x) h1 = Some (y2, h2)"
    and b2: "built h h2 (\<lambda>h. lval h y1 = Some m \<and> spec_val lval h y2 = Some s)"
    by (rule copier.next_step [OF spec_copier v(2) b1])
  obtain y3 h3 where 3: "SecretRotatorStatus_DeepCopyInto ord lib (rs_Status x) h2 = Some (y3, h3)"
    and b3: "built h h3 (\<lambda>h. (lval h y1 = Some m \<and> spec_val lval h y2 = Some s) \<and> status_val lval h y3 = Some u)"
    by (rule copier.next_step [OF status_copier v(3) b2])
  have "built h h3 (\<lambda>h. rotator_val lval h (x\<lparr>rs_ObjectMeta := y1, rs_Spec := y2, rs_Status := y3\<rparr>) = Some v)"
    by (rule built_mono [OF b3]) (simp add: rotator_val_def v(4))
  then show "\<exists>y h'. SecretRotator_DeepCopyInto ord lib x h = Some (y, h') \<and> built h h' (\<lambda>h. rotator_val lval h y = Some v)"
    using 1 2 3 by (simp add: SecretRotator_DeepCopyInto_def)
qed

lemma list_copier: "copier (SecretRotatorList_DeepCopyInto ord lib) (list_val lval)"
proof
  have ic: "copier (copy_unless_nil (copy_structs as_rotators RotatorsCell (SecretRotator_DeepCopyInto ord lib)))
      (val_unless_nil (structs_val as_rotators (rotator_val lval)))"
    by (intro copier_unless_nil copier_structs rotator_copier) (simp add: as_rotators_def)
  fix h :: "'x heap" and x v h'
  show "list_val lval h x = Some v \<Longrightarrow> same_cells 0 (h_next h) h h' \<Longrightarrow> list_val lval h' x = Some v"
    by (auto simp: list_val_def bind_eq_Some_conv dest: copier.frame [OF lib] copier.frame [OF ic])
  assume "list_val lval h x = Some v"
  then obtain m i where v: "lval h (rl_ListMeta x) = Some m"
    "val_unless_nil (structs_val as_rotators (rotator_val lval)) h (rl_Items x) = Some i"
    "v = \<lparr>rl_TypeMeta = rl_TypeMeta x, rl_ListMeta = m, rl_Items = i\<rparr>"
    by (auto simp: list_val_def bind_eq_Some_conv)
  obtain y1 h1 where 1: "lib (rl_ListMeta x) h = Some (y1, h1)" and b1: "built h h1 (\<lambda>h. lval h y1 = Some m)"
    using copier.copies [OF lib v(1)] by blast
  obtain y2 h2 where 2: "copy_unless_nil (copy_structs as_rotators RotatorsCell (SecretRotator_DeepCopyInto ord lib)) (rl_Items x) h1 = Some (y2, h2)"
    and b2: "built h h2 (\<lambda>h. lval h y1 = Some m \<and> val_unless_nil (structs_val as_rotators (rotator_val lval)) h y2 = Some i)"
    by (rule copier.next_step [OF ic v(2) b1])
  have "built h h2 (\<lambda>h. list_val lval h (x\<lparr>rl_ListMeta := y1, rl_Items := y2\<rparr>) = Some v)"
    by (rule built_mono [OF b2]) (simp add: list_val_def v(3))
  then show "\<exists>y h'. SecretRotatorList_DeepCopyInto ord lib x h = Some (y, h') \<and> built h h' (\<lambda>h. list_val lval h y = Some v)"
    using 1 2 by (simp add: SecretRotatorList_DeepCopyInto_def)
qed

end

section \<open>Pointers\<close>

lemma copier_deep_copy:
  assumes "copier into val" "\<And>x. view (mk x) = Some x"
  shows "copier (deep_copy view mk into) (pointer_val view val)"
proof
  fix h :: "'b heap" and p v h'
  assume "pointer_val view val h p = Some v" "same_cells 0 (h_next h) h h'"
  then show "pointer_val view val h' p = Some v"
    by (auto simp: pointer_val_def bind_eq_Some_conv split: option.splits intro: read_frame copier.frame [OF assms(1)])
next
  fix h :: "'b heap" and p v
  assume v: "pointer_val view val h p = Some v"
  show "\<exists>y h'. deep_copy view mk into p h = Some (y, h') \<and> built h h' (\<lambda>h. pointer_val view val h y = Some v)"
  proof (cases p)
    case None
    then show ?thesis using v by (simp add: deep_copy_def pointer_val_def built_nothing)
  next
    case (Some a)
    then obtain c x w where x: "read h a = Some c" "view c = Some x" "val h x = Some w" "v = Some w"
      using v by (auto simp: pointer_val_def bind_eq_Some_conv)
    obtain y h1 where 1: "into x h = Some (y, h1)" "built h h1 (\<lambda>h. val h y = Some w)"
      using copier.copies [OF assms(1) x(3)] by blast
    let ?r = "alloc (mk y) h1"
    have "built h (snd ?r) (\<lambda>h. pointer_val view val h (Some (fst ?r)) = Some v)"
      by (rule built_mono [OF built_seq [OF 1(2) built_alloc]]) (simp add: pointer_val_def assms(2) x(4))
    then show ?thesis
      using Some x(1,2) 1(1) by (intro exI [of _ "Some (fst ?r)"] exI [of _ "snd ?r"])
        (simp add: deep_copy_def case_prod_beta Let_def)
  qed
qed

lemma objects_are_copies:
  "SecretRotator_DeepCopyObject ord lib = SecretRotator_DeepCopy ord lib"
  "SecretRotatorList_DeepCopyObject ord lib = SecretRotatorList_DeepCopy ord lib"
  by (auto simp: fun_eq_iff SecretRotator_DeepCopyObject_def SecretRotatorList_DeepCopyObject_def split: bind_splits)

context machinery begin

lemma pointer_copiers:
  "copier (SecretRotatorSpec_DeepCopy ord lib) (pointer_val as_spec (spec_val lval))"
  "copier (SecretRotatorStatus_DeepCopy ord lib) (pointer_val as_status (status_val lval))"
  "copier (SecretRotator_DeepCopyObject ord lib) (pointer_val as_rotator (rotator_val lval))"
  "copier (SecretRotatorList_DeepCopyObject ord lib) (pointer_val as_list (list_val lval))"
  unfolding objects_are_copies SecretRotatorSpec_DeepCopy_def SecretRotatorStatus_DeepCopy_def
    SecretRotator_DeepCopy_def SecretRotatorList_DeepCopy_def
  by (intro copier_deep_copy spec_copier status_copier rotator_copier list_copier; simp add: cell_views)+

end

lemma plain_pointer_copiers:
  "copier GeneratedSecret_DeepCopy (pointer_val as_secret plain_val)"
  "copier (SecretMetadata_DeepCopy ord) (pointer_val as_metadata metadata_val)"
  "copier SecretNamespaceFailure_DeepCopy (pointer_val as_failure plain_val)"
  "copier SecurityDetails_DeepCopy (pointer_val as_security plain_val)"
  "copier ServiceAccountDetails_DeepCopy (pointer_val as_account plain_val)"
  unfolding GeneratedSecret_DeepCopy_def SecretMetadata_DeepCopy_def SecretNamespaceFailure_DeepCopy_def
    SecurityDetails_DeepCopy_def ServiceAccountDetails_DeepCopy_def
  by (intro copier_deep_copy generated_copier.copier_axioms metadata_copier.copier_axioms failure_copier.copier_axioms
      security_copier.copier_axioms account_copier.copier_axioms; simp add: cell_views)+

text \<open>No routine faults on well-typed objects or breaks the typing of others; nil stays nil.\<close>

definition preserves_typing :: "(nat option, 'x) copying \<Rightarrow> ('x heap \<Rightarrow> nat option \<Rightarrow> 'b option) \<Rightarrow> bool" where
  "preserves_typing copy val \<longleftrightarrow>
     (\<forall>h p. val h p \<noteq> None \<longrightarrow> (\<exists>q h'. copy p h = Some (q, h') \<and> val h' q \<noteq> None \<and> (q = None \<longleftrightarrow> p = None) \<and>
        (\<forall>p'. val h p' \<noteq> None \<longrightarrow> val h' p' = val h p')))"

lemma preserves_typing_copier:
  assumes "copier copy (pointer_val view val)" "\<And>p h q h'. copy p h = Some (q, h') \<Longrightarrow> q = None \<longleftrightarrow> p = None"
  shows "preserves_typing copy (pointer_val view val)"
  unfolding preserves_typing_def
proof (intro allI impI)
  fix h p assume "pointer_val view val h p \<noteq> None"
  then obtain v where v: "pointer_val view val h p = Some v" by blast
  obtain q h' where c: "copy p h = Some (q, h')" "built h h' (\<lambda>h. pointer_val view val h q = Some v)"
    using copier.copies [OF assms(1) v] by blast
  have "same_cells (h_next h) (h_next h') h' h'" by (simp add: same_cells_def)
  then have "pointer_val view val h' q = Some v" using c(2) by (simp add: built_def)
  moreover have "pointer_val view val h' p' = pointer_val view val h p'" if "pointer_val view val h p' \<noteq> None" for p'
    using that copier.frame [OF assms(1) _ built_old [OF c(2)]] by (cases "pointer_val view val h p'") auto
  ultimately show "\<exists>q h'. copy p h = Some (q, h') \<and> pointer_val view val h' q \<noteq> None \<and> (q = None \<longleftrightarrow> p = None) \<and>
      (\<forall>p'. pointer_val view val h p' \<noteq> None \<longrightarrow> pointer_val view val h' p' = pointer_val view val h p')"
    using c(1) assms(2) [OF c(1)] by auto
qed

lemma deep_copy_nil: "deep_copy view mk into p h = Some (q, h') \<Longrightarrow> q = None \<longleftrightarrow> p = None"
  by (auto simp: deep_copy_def bind_eq_Some_conv case_prod_beta Let_def split: option.splits)

lemmas deep_copy_defs = GeneratedSecret_DeepCopy_def SecretMetadata_DeepCopy_def SecretNamespaceFailure_DeepCopy_def
  SecurityDetails_DeepCopy_def ServiceAccountDetails_DeepCopy_def SecretRotatorSpec_DeepCopy_def
  SecretRotatorStatus_DeepCopy_def SecretRotator_DeepCopy_def SecretRotatorList_DeepCopy_def

section \<open>Theorems\<close>

text \<open>The structs of the API machinery in the examples hold a map of labels, copied as the code copies one.\<close>

abbreviation labels_lib :: "(nat option, nat option) copying" where
  "labels_lib \<equiv> copy_unless_nil (copy_map rev)"

abbreviation labels_val :: "nat option heap \<Rightarrow> nat option \<Rightarrow> (string \<Rightarrow> string option) option option" where
  "labels_val \<equiv> val_unless_nil map_val"

interpretation labels: machinery "copy_unless_nil (copy_map ord)" "val_unless_nil map_val" for ord
  by (rule machinery.intro [OF copier_unless_nil [OF map_copier.copier_axioms]])

text \<open>A resource whose status and metadata share their objects with others.\<close>

definition demo_heap :: "nat option heap" where
  "demo_heap = \<lparr>h_next = 4, h_cell = (\<lambda>_. None)(
     0 := Some (MapCell [(''app'', ''demo'')]),
     1 := Some (StringsCell [''a'', ''b'', ''c'']),
     2 := Some (ManagedCell [(''ns'', Some \<lparr>sl_array = 1, sl_from = 1, sl_len = 2\<rparr>), (''old'', None)]),
     3 := Some (RotatorCell \<lparr>rs_TypeMeta = (''SecretRotator'', ''v1alpha1''), rs_ObjectMeta = Some 0,
       rs_Spec = \<lparr>ss_SecretMetadata = \<lparr>ms_Annotations = None, ms_Labels = Some 0\<rparr>, ss_SecretName = ''s'', ss_GeneratedSecrets = None,
         ss_NamespaceSelector = None, ss_ArtifactoryUrl = ''u'', ss_ArtifactorySubdomains = None,
         ss_ServiceAccount = \<lparr>sad_Name = [], sad_Namespace = []\<rparr>, ss_RefreshInterval = None,
         ss_Security = \<lparr>sec_Enabled = False, sec_CertificateSecretName = [], sec_SecretNamespace = [], sec_InsecureSkipVerify = False\<rparr>,
         ss_AuthType = [], ss_AwsRegion = []\<rparr>,
       rs_Status = \<lparr>us_Conditions = None, us_FailedNamespaces = None,
         us_ProvisionedNamespaces = Some \<lparr>sl_array = 1, sl_from = 0, sl_len = 1\<rparr>,
         us_SecretManagedByNamespaces = Some 2, us_AuthType = []\<rparr>\<rparr>))\<rparr>"

definition demo_value where
  "demo_value = pointer_val as_rotator (rotator_val labels_val) demo_heap (Some 3)"

lemma demo_value_defined: "demo_value \<noteq> None"
  by (simp add: demo_value_def pointer_val_def rotator_val_def spec_val_def status_val_def metadata_val_def
      val_unless_nil_def map_val_def managed_val_def contents_def read_def demo_heap_def cell_views map_get_Cons map_get_Nil)

text \<open>C27: the deep copy of a resource has the original's value and shares nothing with it: a write to any
  object there was leaves the copy's value, and a write to any new object leaves the original's.  The
  copies of the API machinery's structs are assumed to be deep copies themselves.\<close>

theorem deep_copy_isolated:
  assumes "copier lib lval" "pointer_val as_rotator (rotator_val lval) h p = Some v"
  shows "\<exists>q h'. SecretRotator_DeepCopyObject ord lib p h = Some (q, h') \<and>
    pointer_val as_rotator (rotator_val lval) h' q = Some v \<and> pointer_val as_rotator (rotator_val lval) h' p = Some v \<and>
    (\<forall>a c. a < h_next h \<longrightarrow> pointer_val as_rotator (rotator_val lval) (write_cell a c h') q = Some v) \<and>
    (\<forall>a c. h_next h \<le> a \<longrightarrow> pointer_val as_rotator (rotator_val lval) (write_cell a c h') p = Some v)"
  by (rule copier.isolated [OF machinery.pointer_copiers(3) [OF machinery.intro [OF assms(1)]] assms(2)])

theorem deep_copy_isolated_witness:
  "\<exists>q h'. SecretRotator_DeepCopyObject rev labels_lib (Some 3) demo_heap = Some (q, h') \<and>
     pointer_val as_rotator (rotator_val labels_val) (write_cell 1 (StringsCell []) h') q = demo_value"
proof -
  obtain v where v: "demo_value = Some v" using demo_value_defined by blast
  have "(1::nat) < h_next demo_heap" by (simp add: demo_heap_def)
  with deep_copy_isolated [OF labels.lib, of demo_heap "Some 3" v rev] v show ?thesis
    unfolding demo_value_def by metis
qed

text \<open>C28: on well-typed objects, that is objects whose references all lead to objects of their types, each of
  the nine deep copies returns, gives a well-typed object and keeps the value of every well-typed object
  there was; nil is copied to nil.  The copies of the API machinery's structs are assumed to be deep
  copies themselves.\<close>

theorem deep_copies_typed:
  assumes "copier lib lval"
  shows "preserves_typing GeneratedSecret_DeepCopy (pointer_val as_secret plain_val) \<and>
    preserves_typing (SecretMetadata_DeepCopy ord) (pointer_val as_metadata metadata_val) \<and>
    preserves_typing SecretNamespaceFailure_DeepCopy (pointer_val as_failure plain_val) \<and>
    preserves_typing SecurityDetails_DeepCopy (pointer_val as_security plain_val) \<and>
    preserves_typing ServiceAccountDetails_DeepCopy (pointer_val as_account plain_val) \<and>
    preserves_typing (SecretRotatorSpec_DeepCopy ord lib) (pointer_val as_spec (spec_val lval)) \<and>
    preserves_typing (SecretRotatorStatus_DeepCopy ord lib) (pointer_val as_status (status_val lval)) \<and>
    preserves_typing (SecretRotator_DeepCopyObject ord lib) (pointer_val as_rotator (rotator_val lval)) \<and>
    preserves_typing (SecretRotatorList_DeepCopyObject ord lib) (pointer_val as_list (list_val lval))"
  by (intro conjI preserves_typing_copier plain_pointer_copiers machinery.pointer_copiers machinery.intro assms;
      simp add: objects_are_copies deep_copy_defs deep_copy_nil)

theorem deep_copies_typed_witness:
  "preserves_typing (SecretRotator_DeepCopyObject rev labels_lib) (pointer_val as_rotator (rotator_val labels_val)) \<and>
   (\<exists>q h'. SecretRotator_DeepCopyObject rev labels_lib (Some 3) demo_heap = Some (q, h') \<and>
      pointer_val as_rotator (rotator_val labels_val) h' q \<noteq> None)"
proof -
  have t: "preserves_typing (SecretRotator_DeepCopyObject rev labels_lib) (pointer_val as_rotator (rotator_val labels_val))"
    using deep_copies_typed [OF labels.lib, of rev] by blast
  with demo_value_defined show ?thesis unfolding demo_value_def preserves_typing_def by blast
qed

end
