(* ===== verification/Go_Time.thy ===== *)
theory Go_Time
  imports Complex_Main "HOL-Library.Log_Nat" Go_Lib
begin

text \<open>
  What the code uses of Go's float64 arithmetic and of time.Duration: rounding to 53 significant bits
  (half to even), \<open>Duration.Seconds\<close> and \<open>Duration.String\<close>.
\<close>

section \<open>float64\<close>

text \<open>The binary exponent of a positive rational: \<open>2 powi exponent x \<le> x\<close>, and it is the largest such.\<close>

definition exponent :: "rat \<Rightarrow> int" where
  "exponent x = (let (p, q) = quotient_of x; k = bitlen p - bitlen q
                 in if 2 powi k \<le> x then k else k - 1)"

definition round_even :: "rat \<Rightarrow> int" where
  "round_even x = (let n = \<lfloor>x\<rfloor>; r = x - of_int n
                   in if r < 1 / 2 \<or> r = 1 / 2 \<and> even n then n else n + 1)"

definition fl_pos :: "rat \<Rightarrow> rat" where
  "fl_pos x = (let e = exponent x - 52 in of_int (round_even (x / 2 powi e)) * 2 powi e)"

text \<open>The float64 nearest to a rational (the values of this program are far from overflow).\<close>

definition fl64 :: "rat \<Rightarrow> rat" where
  "fl64 x = (if x = 0 then 0 else if x > 0 then fl_pos x else - fl_pos (- x))"

lemma exponent_le: "x > 0 \<Longrightarrow> 2 powi exponent x \<le> x"
proof -
  assume x: "x > 0"
  obtain p q where pq: "quotient_of x = (p, q)" by fastforce
  then have q: "q > 0" and xe: "x = of_int p / of_int q"
    by (auto dest: quotient_of_denom_pos quotient_of_div)
  then have p: "p > 0" using x by (simp add: zero_less_divide_iff)
  have "bitlen p \<ge> 1" using p by (simp add: bitlen_alt_def)
  then have "(2::int) ^ nat (bitlen p - 1) \<le> p" "q < 2 ^ nat (bitlen q)"
    using bitlen_bounds p q by auto
  then have le: "(2::rat) ^ nat (bitlen p - 1) \<le> of_int p" "of_int q < (2::rat) ^ nat (bitlen q)"
    by (metis of_int_le_iff of_int_less_iff of_int_numeral of_int_power)+
  have pow: "(2::rat) ^ nat k = 2 powi k" if "k \<ge> 0" for k
    using that by (simp add: power_int_def)
  have "2 powi (bitlen p - bitlen q - 1) = (2::rat) powi (bitlen p - 1 - bitlen q)"
    by (simp add: algebra_simps)
  also have "\<dots> = 2 ^ nat (bitlen p - 1) / 2 ^ nat (bitlen q)"
    using \<open>bitlen p \<ge> 1\<close> bitlen_nonneg [of q] by (simp add: pow power_int_diff [of 2 "bitlen p - 1"])
  also have "\<dots> \<le> of_int p / of_int q"
    using le q p by (intro frac_le) auto
  finally have "2 powi (bitlen p - bitlen q - 1) \<le> x" by (simp only: xe)
  then show ?thesis by (simp add: exponent_def pq Let_def)
qed

lemma round_even_of_int [simp]: "round_even (of_int n) = n"
  by (simp add: round_even_def)

lemma fl_pos_exact:
  assumes "x > 0" "x = of_int m * 2 powi j" "m < 2 ^ 53"
  shows "fl_pos x = x"
proof -
  define e where "e = exponent x - 52"
  have "(of_int m :: rat) < of_int (2 ^ 53)"
    using assms(3) by (simp only: of_int_less_iff)
  then have "(of_int m :: rat) < 2 powi 53" by simp
  then have "of_int m * 2 powi j < (2 :: rat) powi 53 * 2 powi j"
    by (intro mult_strict_right_mono) auto
  also have "\<dots> = 2 powi (53 + j)"
    by (rule power_int_add [symmetric]) simp
  finally have "x < 2 powi (53 + j)" by (simp only: assms(2))
  then have "(2 :: rat) powi exponent x < 2 powi (53 + j)"
    using exponent_le [OF assms(1)] by (rule le_less_trans [rotated])
  then have "exponent x < 53 + j"
    by (meson linorder_not_less one_le_numeral power_int_increasing)
  then have je: "j - e \<ge> 0" by (simp add: e_def)
  have "x / 2 powi e = of_int m * 2 powi (j - e)"
    unfolding assms(2) by (simp add: power_int_diff)
  also have "\<dots> = of_int (m * 2 ^ nat (j - e))"
    using je by (simp add: power_int_def)
  finally have "x / 2 powi e = of_int (m * 2 ^ nat (j - e))" .
  then have "fl_pos x = x / 2 powi e * 2 powi e"
    by (simp only: fl_pos_def Let_def round_even_of_int flip: e_def)
  then show ?thesis by simp
qed

lemma fl64_exact: "x = of_int m * 2 powi j \<Longrightarrow> \<bar>m\<bar> < 2 ^ 53 \<Longrightarrow> fl64 x = x"
  using fl_pos_exact [of x m j] fl_pos_exact [of "- x" "- m" j]
  by (cases x "0 :: rat" rule: linorder_cases) (simp_all add: fl64_def)

section \<open>Durations\<close>

text \<open>A duration is a signed number of nanoseconds.\<close>

definition Second :: int where "Second = 1000000000"
definition Minute :: int where "Minute = 60 * Second"

definition go_rem :: "int \<Rightarrow> int \<Rightarrow> int" where
  "go_rem a b = a - b * go_quot a b"

definition Duration_Seconds :: "int \<Rightarrow> rat" where
  "Duration_Seconds d = fl64 (fl64 (of_int (go_quot d Second)) + fl64 (of_int (go_rem d Second) / 1000000000))"

text \<open>\<open>fmtFrac\<close>: the fraction \<open>v / 10^prec\<close> without trailing zeros, and without the point when it is 0.\<close>

definition drop_zeros :: "string \<Rightarrow> string" where
  "drop_zeros s = rev (dropWhile (\<lambda>c. c = CHR ''0'') (rev s))"

definition fmt_frac :: "nat \<Rightarrow> nat \<Rightarrow> string" where
  "fmt_frac v prec = dec_of_nat (v div 10 ^ prec) @
     (let f = drop_zeros (pad_left prec (dec_of_nat (v mod 10 ^ prec))) in if f = [] then [] else ''.'' @ f)"

definition Duration_String :: "int \<Rightarrow> string" where
  "Duration_String d =
     (let u = nat \<bar>d\<bar>; neg = (if d < 0 then ''-'' else [])
      in if u = 0 then ''0s''
         else if u < 1000 then neg @ dec_of_nat u @ ''ns''
         else if u < 1000000 then neg @ fmt_frac u 3 @ [CHR 0xC2, CHR 0xB5] @ ''s''
         else if u < 1000000000 then neg @ fmt_frac u 6 @ ''ms''
         else let secs = u div 1000000000; mins = secs div 60; h = mins div 60
              in neg @ (if h > 0 then dec_of_nat h @ ''h'' else []) @
                 (if mins > 0 then dec_of_nat (mins mod 60) @ ''m'' else []) @
                 fmt_frac (u mod 60000000000) 9 @ ''s'')"

text \<open>
  \<open>time.Duration(ttl * 0.75 * float64(time.Second))\<close>, evaluated in float64 and truncated.
\<close>

definition truncate_rat :: "rat \<Rightarrow> int" where
  "truncate_rat x = (if x \<ge> 0 then \<lfloor>x\<rfloor> else - \<lfloor>- x\<rfloor>)"

definition three_quarters :: "int \<Rightarrow> int" where
  "three_quarters ttl = truncate_rat (fl64 (fl64 (of_int ttl * 3 / 4) * 1000000000))"

lemma three_quarters_exact:
  assumes "\<bar>ttl\<bar> \<le> 1500000000"
  shows "three_quarters ttl = 750000000 * ttl"
proof -
  have "fl64 (of_int ttl * 3 / 4) = of_int ttl * 3 / 4"
    using assms by (intro fl64_exact [where m = "ttl * 3" and j = "-2"]) (auto simp: power_int_def power2_eq_square)
  then have "three_quarters ttl = truncate_rat (fl64 (of_int ttl * 3 / 4 * 1000000000))"
    by (simp only: three_quarters_def)
  also have "of_int ttl * 3 / 4 * 1000000000 = (of_int (750000000 * ttl) :: rat)" by simp
  also have "fl64 (of_int (750000000 * ttl)) = of_int (750000000 * ttl)"
    using assms by (intro fl64_exact [where m = "5859375 * ttl" and j = 7]) (auto simp: power_int_def)
  also have "truncate_rat (of_int n) = n" for n
    by (simp add: truncate_rat_def flip: of_int_minus)
  finally show ?thesis .
qed

end
