(* ===== verification/Platform.thy ===== *)
theory Platform
  imports Api_Types Signer_STS Go_Time
begin

text \<open>
  The code and the services outside the repository, as one record of functions over an abstract
  world \<open>'w\<close>: the Kubernetes API server and client libraries, the AWS SDK, the HTTP transport, the
  file system, the environment, the clock and the runtime's map iteration order.  Every definition
  that uses them takes the record as its argument \<open>pf\<close>; nothing is assumed of it here.

  The state of a reconciliation is the world, the \<open>TokenDetails\<close> and \<open>SecretRotator\<close> objects the Go
  code shares by pointer, the signing key cache, the reconciler's \<open>RequeueInterval\<close>, and a record of
  the calls made so far with their results, which no definition reads: it is there so that theorems
  can speak about what the operator asked of the cluster, and in which order.
\<close>

section \<open>External code\<close>

text \<open>
  The credential sources the code builds: web identity (the configuration of its STS client, the role,
  the token and the session name) and fixed keys.
\<close>

datatype credentials_provider =
    WebIdentityRoleProvider string string string string
  | StaticCredentialsProvider string string string

text \<open>The options given to \<open>awsconfig.LoadDefaultConfig\<close> and the configuration it returns.\<close>

record aws_options =
  opt_Credentials :: "credentials_provider option"
  opt_Region :: "string option"
  opt_EC2IMDSRegion :: bool

record aws_config =
  cfg_Region :: string
  cfg_Source :: string

record http_response =
  resp_StatusCode :: int
  resp_Body :: string

record tls_config =
  tls_InsecureSkipVerify :: bool
  tls_Certificates :: "(bytes \<times> bytes) list"
  tls_RootCAs :: "bytes option"

text \<open>\<open>None\<close> is the default client \<open>&http.Client{}\<close>.\<close>

type_synonym http_client = "tls_config option"

record 'w platform =
  pf_GetSecret :: "string \<Rightarrow> string \<Rightarrow> 'w \<Rightarrow> Secret outcome \<times> 'w"
  pf_DeleteSecret :: "Secret \<Rightarrow> 'w \<Rightarrow> unit outcome \<times> 'w"
  pf_UpdateSecret :: "Secret \<Rightarrow> 'w \<Rightarrow> unit outcome \<times> 'w"
  pf_CreateSecret :: "Secret \<Rightarrow> 'w \<Rightarrow> unit outcome \<times> 'w"
  pf_ListNamespaces :: "Selector \<Rightarrow> 'w \<Rightarrow> Namespace list outcome \<times> 'w"
  pf_GetRotator :: "string \<times> string \<Rightarrow> 'w \<Rightarrow> SecretRotator outcome \<times> 'w"
  pf_UpdateRotator :: "SecretRotator \<Rightarrow> 'w \<Rightarrow> SecretRotator outcome \<times> 'w"
  pf_StatusUpdate :: "SecretRotator \<Rightarrow> 'w \<Rightarrow> SecretRotator outcome \<times> 'w"
  pf_StatusPatch :: "SecretRotator \<Rightarrow> SecretRotator \<Rightarrow> 'w \<Rightarrow> SecretRotator outcome \<times> 'w"
  pf_ListRotators :: "'w \<Rightarrow> SecretRotator list outcome \<times> 'w"
  pf_IsNotFound :: "goerror \<Rightarrow> bool"
  pf_GetControllerOf :: "ObjectMeta \<Rightarrow> OwnerReference option"
  pf_SetControllerReference :: "SecretRotator \<Rightarrow> Secret \<Rightarrow> Secret outcome"
  pf_ContainsFinalizer :: "SecretRotator \<Rightarrow> string \<Rightarrow> bool"
  pf_AddFinalizer :: "SecretRotator \<Rightarrow> string \<Rightarrow> bool \<times> SecretRotator"
  pf_RemoveFinalizer :: "SecretRotator \<Rightarrow> string \<Rightarrow> bool \<times> SecretRotator"
  pf_SetStatusCondition :: "Condition \<Rightarrow> Condition list \<Rightarrow> 'w \<Rightarrow> Condition list"
  pf_LabelSelectorAsSelector :: "LabelSelector \<Rightarrow> Selector outcome"
  pf_GetConfig :: "'w \<Rightarrow> string outcome"
  pf_NewForConfig :: "string \<Rightarrow> string outcome"
  pf_GetPod :: "string \<Rightarrow> string \<Rightarrow> string \<Rightarrow> 'w \<Rightarrow> Pod outcome \<times> 'w"
  pf_GetServiceAccount :: "string \<Rightarrow> string \<Rightarrow> string \<Rightarrow> 'w \<Rightarrow> ServiceAccount outcome \<times> 'w"
  pf_CreateToken :: "string \<Rightarrow> string \<Rightarrow> string \<Rightarrow> string list \<Rightarrow> int \<Rightarrow> 'w \<Rightarrow> string outcome \<times> 'w"
  pf_Getenv :: "string \<Rightarrow> 'w \<Rightarrow> string"
  pf_Stat :: "string \<Rightarrow> 'w \<Rightarrow> bool outcome"
  pf_IsNotExist :: "goerror \<Rightarrow> bool"
  pf_IsExist :: "goerror \<Rightarrow> bool"
  pf_CreateFile :: "string \<Rightarrow> 'w \<Rightarrow> unit outcome \<times> 'w"
  pf_WriteString :: "string \<Rightarrow> string \<Rightarrow> 'w \<Rightarrow> unit outcome \<times> 'w"
  pf_MkdirAll :: "string \<Rightarrow> 'w \<Rightarrow> unit outcome \<times> 'w"
  pf_ReadFile :: "string \<Rightarrow> 'w \<Rightarrow> bytes outcome"
  pf_LoadX509KeyPair :: "string \<Rightarrow> string \<Rightarrow> 'w \<Rightarrow> (bytes \<times> bytes) outcome"
  pf_LoadDefaultConfig :: "aws_options \<Rightarrow> 'w \<Rightarrow> aws_config outcome \<times> 'w"
  pf_Retrieve :: "credentials_provider \<Rightarrow> 'w \<Rightarrow> (string \<times> string \<times> string) outcome \<times> 'w"
  pf_GetRole :: "aws_config \<Rightarrow> string \<Rightarrow> 'w \<Rightarrow> int option option outcome \<times> 'w"
  pf_GetCallerIdentity :: "aws_config \<Rightarrow> 'w \<Rightarrow> (string option \<times> string option) outcome \<times> 'w"
  pf_Do :: "http_client \<Rightarrow> http_request \<Rightarrow> 'w \<Rightarrow> http_response outcome \<times> 'w"
  pf_DecodeAccess :: "string \<Rightarrow> AccessResponse outcome"
  pf_DecodeCredentials :: "string \<Rightarrow> CredentialsResponse outcome"
  pf_Sign :: "'w \<Rightarrow> ecdsa_sign"
  pf_Now :: "'w \<Rightarrow> go_time"
  pf_UnixMilli :: "'w \<Rightarrow> int"
  pf_Since :: "int \<Rightarrow> 'w \<Rightarrow> int"
  pf_Intn :: "'w \<Rightarrow> nat \<Rightarrow> nat"
  pf_Range :: "string list \<Rightarrow> 'w \<Rightarrow> string list"

section \<open>State and calls\<close>

datatype api_call =
    GetSecretCall string string "Secret outcome"
  | DeleteSecretCall string string "unit outcome"
  | UpdateSecretCall Secret "unit outcome"
  | CreateSecretCall Secret "unit outcome"
  | ListNamespacesCall Selector "Namespace list outcome"
  | GetRotatorCall "string \<times> string" "SecretRotator outcome"
  | UpdateRotatorCall SecretRotator "SecretRotator outcome"
  | StatusUpdateCall SecretRotator "SecretRotator outcome"
  | StatusPatchCall SecretRotator "SecretRotator outcome"
  | ListRotatorsCall "SecretRotator list outcome"
  | GetPodCall string string "Pod outcome"
  | GetServiceAccountCall string string "ServiceAccount outcome"
  | CreateTokenCall string string "string list" int "string outcome"
  | CreateFileCall string "unit outcome"
  | WriteStringCall string string "unit outcome"
  | MkdirAllCall string "unit outcome"
  | LoadDefaultConfigCall aws_options "aws_config outcome"
  | RetrieveCall credentials_provider "(string \<times> string \<times> string) outcome"
  | GetRoleCall string "int option option outcome"
  | GetCallerIdentityCall "(string option \<times> string option) outcome"
  | DoCall http_client http_request "http_response outcome"
  | EventCall string string string
  | EventfCall string string string "string list"

record 'w state =
  s_world :: 'w
  s_calls :: "api_call list"
  s_td :: TokenDetails
  s_sr :: SecretRotator
  s_cache :: credsCache
  s_RequeueInterval :: int

text \<open>One call: the world moves on and the call is recorded with its result.\<close>

definition call ::
    "('w \<Rightarrow> 'a outcome \<times> 'w) \<Rightarrow> ('a outcome \<Rightarrow> api_call) \<Rightarrow> 'w state \<Rightarrow> 'a outcome \<times> 'w state" where
  "call f c s = (let (r, w) = f (s_world s)
                 in (r, s\<lparr>s_world := w, s_calls := s_calls s @ [c r]\<rparr>))"

definition record_call :: "api_call \<Rightarrow> 'w state \<Rightarrow> 'w state" where
  "record_call c s = s\<lparr>s_calls := s_calls s @ [c]\<rparr>"

text \<open>
  \<open>r := f(); if err != nil { h } ; k\<close>: the error branch and the continuation; a panic passes
  through both.
\<close>

definition if_err ::
    "'a outcome \<times> 's \<Rightarrow> (goerror \<Rightarrow> 's \<Rightarrow> 'b outcome \<times> 's) \<Rightarrow> ('a \<Rightarrow> 's \<Rightarrow> 'b outcome \<times> 's) \<Rightarrow> 'b outcome \<times> 's" where
  "if_err r h k = (case r of (Ok x, s) \<Rightarrow> k x s | (Err e, s) \<Rightarrow> h e s | (Panic p, s) \<Rightarrow> (Panic p, s))"

lemma if_err_simps [simp]:
  "if_err (Ok x, s) h k = k x s"
  "if_err (Err e, s) h k = h e s"
  "if_err (Panic p, s) h k = (Panic p, s)"
  by (simp_all add: if_err_def)

lemma if_err_split:
  "P (if_err r h k) \<longleftrightarrow> (\<forall>x s. r = (Ok x, s) \<longrightarrow> P (k x s)) \<and> (\<forall>e s. r = (Err e, s) \<longrightarrow> P (h e s)) \<and>
     (\<forall>p s. r = (Panic p, s) \<longrightarrow> P (Panic p, s))"
  by (cases r; cases "fst r") auto

lemma if_err_split_asm:
  "P (if_err r h k) \<longleftrightarrow> \<not> ((\<exists>x s. r = (Ok x, s) \<and> \<not> P (k x s)) \<or> (\<exists>e s. r = (Err e, s) \<and> \<not> P (h e s)) \<or>
     (\<exists>p s. r = (Panic p, s) \<and> \<not> P (Panic p, s)))"
  by (cases r; cases "fst r") auto

text \<open>\<open>if err != nil { return err }\<close>.\<close>

abbreviation ret_err :: "goerror \<Rightarrow> 's \<Rightarrow> 'b outcome \<times> 's" where
  "ret_err e s \<equiv> (Err e, s)"

abbreviation upd_td :: "(TokenDetails \<Rightarrow> TokenDetails) \<Rightarrow> 'w state \<Rightarrow> 'w state" where
  "upd_td f s \<equiv> s\<lparr>s_td := f (s_td s)\<rparr>"

abbreviation upd_sr :: "(SecretRotator \<Rightarrow> SecretRotator) \<Rightarrow> 'w state \<Rightarrow> 'w state" where
  "upd_sr f s \<equiv> s\<lparr>s_sr := f (s_sr s)\<rparr>"

text \<open>
  The keys of a map in the order the runtime visits them: some permutation of them.
\<close>

definition range_keys :: "'w platform \<Rightarrow> 'v gomap \<Rightarrow> 'w state \<Rightarrow> string list" where
  "range_keys pf m s = (let ks = map fst m; order = pf_Range pf ks (s_world s)
                        in if mset order = mset ks then order else ks)"

lemma mset_range_keys: "mset (range_keys pf m s) = mset (map fst m)"
  by (simp add: range_keys_def Let_def)

lemma set_range_keys [simp]: "set (range_keys pf m s) = fst ` set m"
  using mset_range_keys [of pf m s] by (metis list.set_map set_mset_mset)

section \<open>Histories of calls\<close>

text \<open>
  A guard says which calls may follow which history.  It is monotone when a longer past never takes
  a permission away; then guarded computations compose.
\<close>

definition obeys :: "(api_call list \<Rightarrow> api_call \<Rightarrow> bool) \<Rightarrow> api_call list \<Rightarrow> bool" where
  "obeys G cs \<longleftrightarrow> (\<forall>i < length cs. G (take i cs) (cs ! i))"

definition guarded :: "(api_call list \<Rightarrow> api_call \<Rightarrow> bool) \<Rightarrow> 'w state \<Rightarrow> 'w state \<Rightarrow> bool" where
  "guarded G s s' \<longleftrightarrow> (\<exists>cs. s_calls s' = s_calls s @ cs \<and> obeys G cs)"

lemma obeys_Nil [simp]: "obeys G []"
  by (simp add: obeys_def)

lemma obeys_snoc: "obeys G (cs @ [c]) \<longleftrightarrow> obeys G cs \<and> G cs c"
  by (auto simp: obeys_def nth_append less_Suc_eq)

lemma guarded_refl [simp]: "s_calls s' = s_calls s \<Longrightarrow> guarded G s s'"
  by (auto simp: guarded_def intro: exI [of _ "[]"])

text \<open>
  A relation between the state before and the state after that holds of doing nothing and of doing
  one thing after another: it holds of a computation as soon as it holds of its parts.
\<close>

locale step_rel =
  fixes R :: "'w state \<Rightarrow> 'w state \<Rightarrow> bool"
  assumes refl [simp]: "R s s"
    and trans: "R s s' \<Longrightarrow> R s' s'' \<Longrightarrow> R s s''"
begin

lemma if_err_rel:
  assumes "R s (snd r)" "\<And>x s'. r = (Ok x, s') \<Longrightarrow> R s' (snd (k x s'))"
    and "\<And>e s'. r = (Err e, s') \<Longrightarrow> R s' (snd (h e s'))"
  shows "R s (snd (if_err r h k))"
  using assms by (auto intro: trans split: if_err_split)

lemma trans_snd: "R s (snd r) \<Longrightarrow> r = (x, s') \<Longrightarrow> R s' s'' \<Longrightarrow> R s s''"
  by (auto intro: trans)

end

locale call_guard =
  fixes G :: "api_call list \<Rightarrow> api_call \<Rightarrow> bool"
  assumes mono: "G past c \<Longrightarrow> G (older @ past) c"
begin

lemma obeys_append: "obeys G xs \<Longrightarrow> obeys G ys \<Longrightarrow> obeys G (xs @ ys)"
proof (induction ys rule: rev_induct)
  case (snoc y ys)
  then have "obeys G (xs @ ys)" "G (xs @ ys) y" by (simp_all add: obeys_snoc mono)
  then show ?case unfolding append_assoc [symmetric] by (simp only: obeys_snoc)
qed simp

lemma guarded_trans: "guarded G s s' \<Longrightarrow> guarded G s' s'' \<Longrightarrow> guarded G s s''"
  unfolding guarded_def by (metis append_assoc obeys_append)

end

sublocale call_guard \<subseteq> gd: step_rel "guarded G"
  by unfold_locales (auto intro: guarded_trans)

text \<open>The two shared objects are left alone.\<close>

definition keeps :: "'w state \<Rightarrow> 'w state \<Rightarrow> bool" where
  "keeps s s' \<longleftrightarrow> s_td s' = s_td s \<and> s_sr s' = s_sr s"

interpretation kp: step_rel keeps
  by unfold_locales (auto simp: keeps_def)

lemma call_keeps [simp]: "keeps s (snd (call f c s))"
  by (simp add: keeps_def call_def case_prod_beta Let_def)

lemma guarded_call: "(\<And>r. G [] (c r)) \<Longrightarrow> guarded G s (snd (call f c s))"
  by (auto simp: guarded_def call_def case_prod_beta Let_def obeys_def)

end
