(* ===== verification/Operations.thy ===== *)
theory Operations
  imports Platform
begin

text \<open>
  internal/operations/operations.go and types.go, with internal/client/client.go: validation of the
  custom resource, the operator's service account, namespace events, files, and the clean-up of
  secrets that are no longer managed.
\<close>

section \<open>Environment and clients\<close>

definition DetectPodIdentity :: "'w platform \<Rightarrow> 'w state \<Rightarrow> bool" where
  "DetectPodIdentity pf s =
     (let tokenFile = pf_Getenv pf ''AWS_CONTAINER_AUTHORIZATION_TOKEN_FILE'' (s_world s)
      in tokenFile \<noteq> [])"

text \<open>
  \<open>ctrl.GetConfigOrDie\<close> ends the process when there is no configuration.  That is the panic with the text
  \<open>process_exit\<close>, which no deferred call follows.
\<close>

definition process_exit :: string where
  "process_exit = ''os.Exit(1)''"

definition GetK8sClient :: "'w platform \<Rightarrow> 'w state \<Rightarrow> string outcome \<times> 'w state" where
  "GetK8sClient pf s =
     (case pf_GetConfig pf (s_world s) of
        Err e \<Rightarrow> (Panic process_exit, s)
      | Panic p \<Rightarrow> (Panic p, s)
      | Ok config \<Rightarrow>
          (case pf_NewForConfig pf config of
             Err e \<Rightarrow> (Err (FmtError (''unable to create kubernetes clientSet, error: '' @ Error e @ '': '') None), s)
           | Panic p \<Rightarrow> (Panic p, s)
           | Ok k8sClientSet \<Rightarrow> (Ok k8sClientSet, s)))"

definition GetServiceAccount :: "'w platform \<Rightarrow> 'w state \<Rightarrow> ServiceAccount outcome \<times> 'w state" where
  "GetServiceAccount pf s =
     (let podName = pf_Getenv pf ''POD_NAME'' (s_world s);
          namespace = pf_Getenv pf ''POD_NAMESPACE'' (s_world s)
      in if_err (GetK8sClient pf s) ret_err (\<lambda>clientset s.
         if_err (call (pf_GetPod pf clientset namespace podName) (GetPodCall namespace podName) s) ret_err (\<lambda>pod s.
         if_err (call (pf_GetServiceAccount pf clientset namespace (pod_ServiceAccountName pod))
                      (GetServiceAccountCall namespace (pod_ServiceAccountName pod)) s) ret_err (\<lambda>serviceAccount s.
           (Ok serviceAccount,
            upd_td (\<lambda>t. t\<lparr>td_DefaultServiceAccountName := pod_ServiceAccountName pod,
                           td_DefaultServiceAccountNamespace := namespace\<rparr>) s)))))"

section \<open>Validation of the custom resource\<close>

definition quoted :: "string \<Rightarrow> string" where
  "quoted x = [CHR 0x27] @ x @ [CHR 0x27]"

definition err_duplicate :: "string \<Rightarrow> goerror" where
  "err_duplicate n = ReconcileError 0 (''Duplicate SecretName '' @ quoted n @
     '' in generatedSecrets. Each secret must have a unique name. The current reconciliation cycle will end here.'') None"

definition err_empty_name :: "string \<Rightarrow> goerror" where
  "err_empty_name t = ReconcileError 0 (''Empty SecretName in generatedSecrets for '' @ t @
     '' secret. Each secret must have a valid name. The current reconciliation cycle will end here.'') None"

definition err_secret_type :: "string \<Rightarrow> goerror" where
  "err_secret_type t = ReconcileError 0 (''Invalid SecretType '' @ quoted t @
     '' in generatedSecrets. Must be '' @ quoted ''docker'' @ '' or '' @ quoted ''generic'' @
     ''. The current reconciliation cycle will end here.'') None"

text \<open>The loop over the generated secrets, with the map \<open>seenNames\<close> of the entries before.\<close>

fun validate_secrets :: "string gomap \<Rightarrow> GeneratedSecret list \<Rightarrow> goerror option" where
  "validate_secrets seenNames [] = None"
| "validate_secrets seenNames (gSecret # rest) =
     (if map_of seenNames (gs_SecretName gSecret) \<noteq> None then Some (err_duplicate (gs_SecretName gSecret))
      else let seenNames = AList.update (gs_SecretName gSecret) (gs_SecretType gSecret) seenNames
           in if gs_SecretName gSecret = [] then Some (err_empty_name (gs_SecretType gSecret))
              else if gs_SecretType gSecret \<noteq> SecretTypeDocker \<and> gs_SecretType gSecret \<noteq> SecretTypeGeneric
              then Some (err_secret_type (gs_SecretType gSecret))
              else validate_secrets seenNames rest)"

text \<open>The list of secrets of a specification: the generated ones and, last, \<open>spec.secretName\<close>.\<close>

definition spec_secrets :: "SecretRotatorSpec \<Rightarrow> GeneratedSecret list" where
  "spec_secrets spec = sp_GeneratedSecrets spec @
     (if sp_SecretName spec \<noteq> []
      then [\<lparr>gs_SecretName = sp_SecretName spec, gs_SecretType = SecretTypeDocker, gs_Scope = []\<rparr>] else [])"

text \<open>Removal of a leading \<open>https://\<close> or \<open>http://\<close>, unless nothing would be left.\<close>

definition strip_scheme :: "string \<Rightarrow> string" where
  "strip_scheme url =
     (if length url > 8 \<and> take 8 url = ''https://'' then drop 8 url
      else if length url > 7 \<and> take 7 url = ''http://'' then drop 7 url
      else url)"

definition err_no_secrets :: goerror where
  "err_no_secrets = ReconcileError 0 ''No secrets defined in spec.generatedSecrets and spec.secretName. Please configure secret details. The current reconciliation cycle will end here.'' None"
definition err_selector :: "goerror \<Rightarrow> goerror" where
  "err_selector e = ReconcileError 0 ''Error reading namespace labels selector from operator object configuration, no secrets will be created or updated, the current reconciliation cycle will end here'' (Some e)"
definition err_no_namespaces :: "goerror option \<Rightarrow> goerror" where
  "err_no_namespaces e = ReconcileError 0 ''No namespaces match the configured namespace selector, the current reconciliation cycle will end here'' e"
definition err_no_url :: goerror where
  "err_no_url = ReconcileError 0 ''Missing ArtifactoryUrl in operator object configuration, no secrets will be created or updated, the current reconciliation cycle will end here'' None"
definition err_service_account :: "goerror \<Rightarrow> goerror" where
  "err_service_account e = ReconcileError 0 (''Error reading operator'' @ [CHR 0x27] @ ''s service account resource, the current reconciliation cycle will end here'') (Some e)"
definition err_no_role :: goerror where
  "err_no_role = ReconcileError 0 (''No service account details were provided in resource, and the operator'' @ [CHR 0x27] @ ''s service account does not have the required ARN annotation. Please either update the operator'' @ [CHR 0x27] @ ''s service account with the appropriate annotation or specify your service account by providing serviceAccount.name and serviceAccount.namespace in the custom resource.'') None"

definition ValidateObjectSpec :: "'w platform \<Rightarrow> 'w state \<Rightarrow> unit outcome \<times> 'w state" where
  "ValidateObjectSpec pf s =
     (let spec = sr_Spec (s_sr s);
          s = upd_td (\<lambda>t. t\<lparr>td_GeneratedSecrets := spec_secrets spec\<rparr>) s
      in if td_GeneratedSecrets (s_td s) = [] then (Err err_no_secrets, s)
         else case validate_secrets [] (td_GeneratedSecrets (s_td s)) of
           Some e \<Rightarrow> (Err e, s)
         | None \<Rightarrow>
         (case pf_LabelSelectorAsSelector pf (sp_NamespaceSelector spec) of
           Panic p \<Rightarrow> (Panic p, s)
         | Err e \<Rightarrow> (Err (err_selector e), upd_td (\<lambda>t. t\<lparr>td_NamespaceSelector := []\<rparr>) s)
         | Ok selector \<Rightarrow>
             let s = upd_td (\<lambda>t. t\<lparr>td_NamespaceSelector := selector, td_NamespaceList := []\<rparr>) s
             in if_err (call (pf_ListNamespaces pf selector) (ListNamespacesCall selector) s)
                  (\<lambda>e s. (Err (err_no_namespaces (Some e)), s))
                  (\<lambda>items s.
                    let s = upd_td (\<lambda>t. t\<lparr>td_NamespaceList := items\<rparr>) s
                    in if items = [] then (Err (err_no_namespaces None), s)
                       else let s = upd_td (\<lambda>t. t\<lparr>td_ArtifactoryUrl := sp_ArtifactoryUrl spec\<rparr>) s
                       in if td_ArtifactoryUrl (s_td s) = [] then (Err err_no_url, s)
                       else let s = upd_td (\<lambda>t. t\<lparr>td_IAMRoleAwsRegion :=
                                  (if sp_AwsRegion spec = [] then AwsRegion else sp_AwsRegion spec),
                                  td_ArtifactoryUrl := strip_scheme (td_ArtifactoryUrl t)\<rparr>) s
                       in if_err (GetServiceAccount pf s)
                            (\<lambda>e s. (Err (err_service_account e), s))
                            (\<lambda>serviceAccount s.
                               if sad_Name (sp_ServiceAccount spec) = [] \<or> sad_Namespace (sp_ServiceAccount spec) = []
                               then let roleARN = map_get [] (om_Annotations (sa_Meta serviceAccount)) AwsRoleARNKey
                                    in if roleARN = [] \<and> \<not> DetectPodIdentity pf s then (Err err_no_role, s)
                                       else (Ok (), s)
                               else (Ok (), s)))))"

section \<open>Namespace events\<close>

definition IsExist :: "string gomap \<Rightarrow> string gomap \<Rightarrow> bool" where
  "IsExist namespaceLabels objectLabels =
     list_all (\<lambda>(val, _). \<not> map_get [] namespaceLabels val \<noteq> map_get [] objectLabels val) objectLabels"

definition GetRandomString :: "'w platform \<Rightarrow> 'w state \<Rightarrow> string" where
  "GetRandomString pf s =
     (let charset = ''abcdefghijklmnopqrstuvwxyz''
      in map (\<lambda>i. charset ! (pf_Intn pf (s_world s) i mod length charset)) [0..<10])"

definition ListSecretRotatorObjects :: "'w platform \<Rightarrow> 'w state \<Rightarrow> SecretRotator list outcome \<times> 'w state" where
  "ListSecretRotatorObjects pf s =
     if_err (call (pf_ListRotators pf) ListRotatorsCall s) (\<lambda>_ s. (Ok [], s)) (\<lambda>items s. (Ok items, s))"

definition HandlingNamespaceEvents :: "'w platform \<Rightarrow> SecretRotator \<Rightarrow> 'w state \<Rightarrow> bool outcome \<times> 'w state" where
  "HandlingNamespaceEvents pf obj s =
     (let annotations = AList.update ''uid'' (GetRandomString pf s) (om_Annotations (sr_Meta obj));
          obj = obj\<lparr>sr_Meta := (sr_Meta obj)\<lparr>om_Annotations := annotations\<rparr>\<rparr>
      in if_err (call (pf_UpdateRotator pf obj) (UpdateRotatorCall obj) s)
           (\<lambda>_ s. (Ok False, s)) (\<lambda>_ s. (Ok True, s)))"

section \<open>Files\<close>

text \<open>
  \<open>os.Stat\<close> returns a nil \<open>FileInfo\<close> with every error, so an error other than "not exist" makes
  \<open>info.IsDir()\<close> dereference nil.
\<close>

definition FileExists :: "'w platform \<Rightarrow> string \<Rightarrow> 'w state \<Rightarrow> bool outcome" where
  "FileExists pf filename s =
     (case pf_Stat pf filename (s_world s) of
        Ok isDir \<Rightarrow> Ok (\<not> isDir)
      | Err e \<Rightarrow> if pf_IsNotExist pf e then Ok False
                 else Panic ''invalid memory address or nil pointer dereference''
      | Panic p \<Rightarrow> Panic p)"

definition CreateFile :: "'w platform \<Rightarrow> string \<Rightarrow> string \<Rightarrow> 'w state \<Rightarrow> unit outcome \<times> 'w state" where
  "CreateFile pf filePath content s =
     if_err (call (pf_CreateFile pf filePath) (CreateFileCall filePath) s) ret_err (\<lambda>_ s.
     if_err (call (pf_WriteString pf filePath content) (WriteStringCall filePath content) s) ret_err (\<lambda>_ s.
       (Ok (), s)))"

text \<open>\<open>os.IsExist(nil)\<close> is false.\<close>

definition CreateDir :: "'w platform \<Rightarrow> string \<Rightarrow> 'w state \<Rightarrow> unit outcome \<times> 'w state" where
  "CreateDir pf directoryname s =
     (let mkdir = if_err (call (pf_MkdirAll pf directoryname) (MkdirAllCall directoryname) s) ret_err (\<lambda>_ s. (Ok (), s))
      in case pf_Stat pf directoryname (s_world s) of
           Ok _ \<Rightarrow> mkdir
         | Err e \<Rightarrow> if pf_IsExist pf e then (Ok (), s) else mkdir
         | Panic p \<Rightarrow> (Panic p, s))"

section \<open>Secrets that are no longer managed\<close>

definition findStringSliceDifference :: "string list \<Rightarrow> string list \<Rightarrow> string list" where
  "findStringSliceDifference a b =
     (let bMap = foldl (\<lambda>m item. AList.update item True m) [] b
      in filter (\<lambda>item. map_of bMap item = None) a)"

definition findSecretDifferences ::
    "string list gomap \<Rightarrow> string list gomap \<Rightarrow> string list gomap \<times> bool" where
  "findSecretDifferences newState oldState =
     (let differences = foldl (\<lambda>differences (key, oldValues).
            case map_of newState key of
              None \<Rightarrow> differences
            | Some newValues \<Rightarrow>
                let diff = findStringSliceDifference oldValues newValues
                in if length diff > 0 then AList.update key diff differences else differences)
            [] oldState
      in (differences, differences \<noteq> []))"

text \<open>The inner loop over the names of one namespace; the result says whether to go on.\<close>

fun delete_names :: "'w platform \<Rightarrow> string \<Rightarrow> string list \<Rightarrow> 'w state \<Rightarrow> unit outcome \<times> 'w state" where
  "delete_names pf namespace [] s = (Ok (), s)"
| "delete_names pf namespace (secretName # rest) s =
     (let obj = empty_secret\<lparr>sc_Meta := empty_meta\<lparr>om_Name := secretName, om_Namespace := namespace\<rparr>\<rparr>
      in if_err (call (pf_DeleteSecret pf obj) (DeleteSecretCall namespace secretName) s)
           (\<lambda>err s. if pf_IsNotFound pf err then delete_names pf namespace rest s
                    else (Err (FmtError (''error deleting secret '' @ secretName @ '' in namespace '' @ namespace @
                            '': '' @ Error err) (Some err)), s))
           (\<lambda>_ s. delete_names pf namespace rest s))"

fun delete_namespaces ::
    "'w platform \<Rightarrow> string list gomap \<Rightarrow> string list \<Rightarrow> 'w state \<Rightarrow> unit outcome \<times> 'w state" where
  "delete_namespaces pf changesSecrets [] s = (Ok (), s)"
| "delete_namespaces pf changesSecrets (namespace # rest) s =
     if_err (delete_names pf namespace (map_get [] changesSecrets namespace) s) ret_err
       (\<lambda>_ s. delete_namespaces pf changesSecrets rest s)"

definition DeleteOutdatedGeneratedSecrets :: "'w platform \<Rightarrow> 'w state \<Rightarrow> unit outcome \<times> 'w state" where
  "DeleteOutdatedGeneratedSecrets pf s =
     (let (changesSecrets, changed) =
        findSecretDifferences (td_SecretManagedByNamespaces (s_td s)) (st_SecretManagedByNamespaces (sr_Status (s_sr s)))
      in if changed then delete_namespaces pf changesSecrets (range_keys pf changesSecrets s) s
         else (Ok (), s))"

section \<open>Differences of string lists\<close>

text \<open>
  The contract both difference routines of the repository meet (\<open>findStringSliceDifference\<close> here,
  \<open>getRemovedNamespaces\<close> in the resource package): the elements of the first list that are not in the
  second, in order.
\<close>

locale slice_difference =
  fixes diff :: "string list \<Rightarrow> 'b list \<Rightarrow> string list"
    and key :: "'b \<Rightarrow> string"
  assumes diff_eq: "diff a b = filter (\<lambda>x. x \<notin> key ` set b) a"
begin

lemma set_diff: "set (diff a b) = set a - key ` set b"
  by (auto simp: diff_eq)

lemma diff_Nil_iff: "diff a b = [] \<longleftrightarrow> set a \<subseteq> key ` set b"
  by (auto simp: diff_eq filter_empty_conv)

lemma diff_distinct: "distinct a \<Longrightarrow> distinct (diff a b)"
  by (simp add: diff_eq)

lemma diff_sorted: "sorted a \<Longrightarrow> sorted (diff a b)"
  by (simp add: diff_eq sorted_wrt_filter)

lemma diff_order: "mset b = mset b' \<Longrightarrow> diff a b = diff a b'"
  by (auto simp: diff_eq dest: mset_eq_setD)

end

lemma foldl_update_None:
  "map_of (foldl (\<lambda>m item. AList.update (key item) v m) m b) x = None \<longleftrightarrow> map_of m x = None \<and> x \<notin> key ` set b"
  by (induction b arbitrary: m) auto

interpretation fsd: slice_difference findStringSliceDifference "\<lambda>x. x"
  by unfold_locales (simp add: findStringSliceDifference_def foldl_update_None [where key = "\<lambda>x. x", simplified])

section \<open>Facts on the secret lists\<close>

definition valid_secret :: "GeneratedSecret \<Rightarrow> bool" where
  "valid_secret g \<longleftrightarrow> gs_SecretName g \<noteq> [] \<and> gs_SecretType g \<in> {SecretTypeDocker, SecretTypeGeneric}"

lemma validate_secrets_None_iff:
  "validate_secrets seen gs = None \<longleftrightarrow>
     distinct (map gs_SecretName gs) \<and> (\<forall>g \<in> set gs. map_of seen (gs_SecretName g) = None \<and> valid_secret g)"
  by (induction seen gs rule: validate_secrets.induct)
     (auto simp: Let_def valid_secret_def image_iff split: if_splits)

lemma validate_secrets_error:
  "validate_secrets seen gs = Some e \<Longrightarrow> \<exists>m. e = ReconcileError 0 m None"
  by (induction seen gs rule: validate_secrets.induct)
     (auto simp: Let_def err_duplicate_def err_empty_name_def err_secret_type_def split: if_splits)

lemma GetServiceAccount_keeps:
  assumes "GetServiceAccount pf s = (r, s')"
  shows "s_sr s' = s_sr s \<and> td_GeneratedSecrets (s_td s') = td_GeneratedSecrets (s_td s) \<and>
    td_NamespaceList (s_td s') = td_NamespaceList (s_td s) \<and>
    td_ArtifactoryUrl (s_td s') = td_ArtifactoryUrl (s_td s) \<and>
    td_IAMRoleAwsRegion (s_td s') = td_IAMRoleAwsRegion (s_td s) \<and>
    td_NamespaceSelector (s_td s') = td_NamespaceSelector (s_td s)"
  using assms
  by (auto simp: GetServiceAccount_def GetK8sClient_def call_def Let_def if_err_def
      split: outcome.splits prod.splits)

section \<open>Clean-up of unmanaged secrets\<close>

text \<open>The pairs the clean-up is about: recorded before, in a namespace managed now, and not managed now.\<close>

definition outdated :: "string list gomap \<Rightarrow> string list gomap \<Rightarrow> (string \<times> string) set" where
  "outdated newState oldState =
     {(ns, n). \<exists>os nws. map_of oldState ns = Some os \<and> map_of newState ns = Some nws \<and> n \<in> set os - set nws}"

lemma findSecretDifferences_fold:
  "wf_map old \<Longrightarrow> fst ` set old \<inter> fst ` set d = {} \<Longrightarrow>
   map_of (foldl (\<lambda>differences (key, oldValues).
            case map_of new key of None \<Rightarrow> differences
            | Some newValues \<Rightarrow> let diff = findStringSliceDifference oldValues newValues
                in if length diff > 0 then AList.update key diff differences else differences) d old) k =
   (case map_of old k of
      None \<Rightarrow> map_of d k
    | Some os \<Rightarrow> (case map_of new k of None \<Rightarrow> map_of d k
        | Some nws \<Rightarrow> if findStringSliceDifference os nws = [] then map_of d k
                      else Some (findStringSliceDifference os nws)))"
proof (induction old arbitrary: d)
  case (Cons kv old)
  obtain key os where kv: "kv = (key, os)" by (cases kv)
  from Cons.prems have "key \<notin> fst ` set old" by (simp add: kv)
  then have key: "map_of old key = None" by (simp add: map_of_eq_None_iff)
  show ?case
    using Cons.prems key by (subst foldl_Cons, subst Cons.IH)
      (auto simp: kv Let_def split: option.split)
qed simp

lemma map_of_findSecretDifferences:
  "wf_map old \<Longrightarrow> map_of (fst (findSecretDifferences new old)) k =
   (case (map_of old k, map_of new k) of
      (Some os, Some nws) \<Rightarrow> if set os \<subseteq> set nws then None else Some (findStringSliceDifference os nws)
    | _ \<Rightarrow> None)"
  by (simp add: findSecretDifferences_def Let_def findSecretDifferences_fold fsd.diff_Nil_iff [simplified] split: option.split)

lemma outdated_differences:
  "wf_map old \<Longrightarrow> outdated new old = {(ns, n). n \<in> set (map_get [] (fst (findSecretDifferences new old)) ns)}"
  by (auto simp: outdated_def map_get_def map_of_findSecretDifferences fsd.set_diff [simplified] split: option.splits if_splits)

definition delete_calls :: "api_call list \<Rightarrow> (string \<times> string) set" where
  "delete_calls cs = {(ns, n). \<exists>r. DeleteSecretCall ns n r \<in> set cs}"

definition is_delete :: "api_call \<Rightarrow> bool" where
  "is_delete c \<longleftrightarrow> (case c of DeleteSecretCall _ _ _ \<Rightarrow> True | _ \<Rightarrow> False)"

lemma is_delete_simp [simp]: "is_delete (DeleteSecretCall ns n r)"
  by (simp add: is_delete_def)

lemma delete_calls_simps [simp]:
  "delete_calls [] = {}"
  "delete_calls (cs @ cs') = delete_calls cs \<union> delete_calls cs'"
  "delete_calls (DeleteSecretCall ns n r # cs) = insert (ns, n) (delete_calls cs)"
  by (auto simp: delete_calls_def)

lemma delete_names_calls:
  "delete_names pf ns names s = (r, s') \<Longrightarrow>
   \<exists>cs. s' = s\<lparr>s_world := s_world s', s_calls := s_calls s @ cs\<rparr> \<and> list_all is_delete cs \<and>
        delete_calls cs \<subseteq> {ns} \<times> set names \<and> (r = Ok () \<longrightarrow> delete_calls cs = {ns} \<times> set names)"
proof (induction names arbitrary: s)
  case Nil
  then show ?case by (auto intro: exI [of _ "[]"])
next
  case (Cons n names)
  define obj where "obj = empty_secret\<lparr>sc_Meta := empty_meta\<lparr>om_Name := n, om_Namespace := ns\<rparr>\<rparr>"
  obtain x w where step: "pf_DeleteSecret pf obj (s_world s) = (x, w)" by fastforce
  define s1 where "s1 = s\<lparr>s_world := w, s_calls := s_calls s @ [DeleteSecretCall ns n x]\<rparr>"
  have c: "call (pf_DeleteSecret pf obj) (DeleteSecretCall ns n) s = (x, s1)"
    by (simp add: call_def step s1_def)
  show ?case
  proof (cases "x = Ok () \<or> (\<exists>e. x = Err e \<and> pf_IsNotFound pf e)")
    case True
    with Cons.prems c have rest: "delete_names pf ns names s1 = (r, s')"
      by (auto simp: obj_def Let_def)
    then obtain cs where "s' = s1\<lparr>s_world := s_world s', s_calls := s_calls s1 @ cs\<rparr>" "list_all is_delete cs"
        "delete_calls cs \<subseteq> {ns} \<times> set names" "r = Ok () \<longrightarrow> delete_calls cs = {ns} \<times> set names"
      using Cons.IH [OF rest] by blast
    then show ?thesis
      by (intro exI [of _ "DeleteSecretCall ns n x # cs"]) (auto simp: s1_def)
  next
    case False
    with Cons.prems c have "s' = s1" "r \<noteq> Ok ()"
      by (cases x; auto simp: obj_def Let_def)+
    then show ?thesis
      by (intro exI [of _ "[DeleteSecretCall ns n x]"]) (auto simp: s1_def)
  qed
qed

lemma delete_namespaces_calls:
  "delete_namespaces pf ch nss s = (r, s') \<Longrightarrow>
   \<exists>cs. s' = s\<lparr>s_world := s_world s', s_calls := s_calls s @ cs\<rparr> \<and> list_all is_delete cs \<and>
        delete_calls cs \<subseteq> (SIGMA ns:set nss. set (map_get [] ch ns)) \<and>
        (r = Ok () \<longrightarrow> delete_calls cs = (SIGMA ns:set nss. set (map_get [] ch ns)))"
proof (induction nss arbitrary: s)
  case Nil
  then show ?case by (auto intro: exI [of _ "[]"])
next
  case (Cons ns nss)
  obtain x s1 where step: "delete_names pf ns (map_get [] ch ns) s = (x, s1)" by fastforce
  then obtain cs where cs: "s1 = s\<lparr>s_world := s_world s1, s_calls := s_calls s @ cs\<rparr>" "list_all is_delete cs"
      "delete_calls cs \<subseteq> {ns} \<times> set (map_get [] ch ns)"
      "x = Ok () \<longrightarrow> delete_calls cs = {ns} \<times> set (map_get [] ch ns)"
    using delete_names_calls by blast
  show ?case
  proof (cases "x = Ok ()")
    case True
    with Cons.prems step have "delete_namespaces pf ch nss s1 = (r, s')" by simp
    from Cons.IH [OF this] obtain ds where
      ds: "s' = s1\<lparr>s_world := s_world s', s_calls := s_calls s1 @ ds\<rparr>" "list_all is_delete ds"
        "delete_calls ds \<subseteq> (SIGMA ns:set nss. set (map_get [] ch ns))"
        "r = Ok () \<longrightarrow> delete_calls ds = (SIGMA ns:set nss. set (map_get [] ch ns))" by blast
    have "s' = s\<lparr>s_world := s_world s', s_calls := s_calls s @ cs @ ds\<rparr>"
      by (subst ds(1), subst cs(1)) (subst cs(1), simp)
    with cs ds True show ?thesis by (intro exI [of _ "cs @ ds"]) auto
  next
    case False
    with Cons.prems step have "s' = s1" "r \<noteq> Ok ()" by (cases x; auto)+
    with cs show ?thesis by (intro exI [of _ cs]) auto
  qed
qed

lemma DeleteOutdatedGeneratedSecrets_calls:
  assumes "wf_map (st_SecretManagedByNamespaces (sr_Status (s_sr s)))"
    and "DeleteOutdatedGeneratedSecrets pf s = (r, s')"
  defines "out \<equiv> outdated (td_SecretManagedByNamespaces (s_td s)) (st_SecretManagedByNamespaces (sr_Status (s_sr s)))"
  shows "\<exists>cs. s' = s\<lparr>s_world := s_world s', s_calls := s_calls s @ cs\<rparr> \<and> list_all is_delete cs \<and>
    delete_calls cs \<subseteq> out \<and> (r = Ok () \<longrightarrow> delete_calls cs = out)"
proof -
  let ?d = "findSecretDifferences (td_SecretManagedByNamespaces (s_td s)) (st_SecretManagedByNamespaces (sr_Status (s_sr s)))"
  have sigma: "(SIGMA ns:fst ` set (fst ?d). set (map_get [] (fst ?d) ns)) = out"
    unfolding out_def outdated_differences [OF assms(1)]
    by (auto simp: map_get_def split: option.splits) (metis domI dom_map_of_conv_image_fst fst_conv imageE)
  show ?thesis
  proof (cases "fst ?d = []")
    case True
    then have "r = Ok ()" "s' = s"
      using assms(2) by (auto simp: DeleteOutdatedGeneratedSecrets_def findSecretDifferences_def Let_def)
    moreover have "out = {}" using sigma True by simp
    ultimately show ?thesis by (auto intro: exI [of _ "[]"])
  next
    case False
    then have "delete_namespaces pf (fst ?d) (range_keys pf (fst ?d) s) s = (r, s')"
      using assms(2) by (auto simp: DeleteOutdatedGeneratedSecrets_def findSecretDifferences_def Let_def)
    from delete_namespaces_calls [OF this] show ?thesis by (simp add: sigma)
  qed
qed

end
