(* ===== verification/Resource.thy ===== *)
theory Resource
  imports Operations Go_Codec
begin

text \<open>
  internal/resource/secret.go and namespace.go: ownership, deletion, creation and update of the
  secrets in the cluster, the docker configuration they carry, the certificate files, and the list of
  failed namespaces.  It begins with what the code uses of encoding/json.
\<close>

section \<open>encoding/json: Marshal of string maps\<close>

text \<open>
  The length of the UTF-8 sequence at the head of a string, and 0 where \<open>utf8.DecodeRuneInString\<close>
  reports an invalid byte.
\<close>

abbreviation byte_in :: "nat \<Rightarrow> nat \<Rightarrow> char \<Rightarrow> bool" where
  "byte_in lo hi c \<equiv> lo \<le> (of_char c :: nat) \<and> (of_char c :: nat) \<le> hi"

fun rune_len :: "string \<Rightarrow> nat" where
  "rune_len [] = 0"
| "rune_len (a # s) =
     (if byte_in 0 0x7F a then 1
      else case s of
        [] \<Rightarrow> 0
      | b # s1 \<Rightarrow>
          if byte_in 0xC2 0xDF a then (if byte_in 0x80 0xBF b then 2 else 0)
          else case s1 of
            [] \<Rightarrow> 0
          | c # s2 \<Rightarrow>
              if byte_in 0xE0 0xEF a
              then (if byte_in (if of_char a = (0xE0 :: nat) then 0xA0 else 0x80)
                               (if of_char a = (0xED :: nat) then 0x9F else 0xBF) b \<and> byte_in 0x80 0xBF c
                    then 3 else 0)
              else case s2 of
                [] \<Rightarrow> 0
              | d # s3 \<Rightarrow>
                  if byte_in 0xF0 0xF4 a \<and>
                     byte_in (if of_char a = (0xF0 :: nat) then 0x90 else 0x80)
                             (if of_char a = (0xF4 :: nat) then 0x8F else 0xBF) b \<and>
                     byte_in 0x80 0xBF c \<and> byte_in 0x80 0xBF d
                  then 4 else 0)"

text \<open>The escape of one ASCII character, with HTML escaping on as \<open>json.Marshal\<close> has it.\<close>

definition json_char :: "char \<Rightarrow> string" where
  "json_char c =
     (if c = CHR 0x22 \<or> c = CHR 0x5C then [CHR 0x5C, c]
      else if c = CHR 0x08 then [CHR 0x5C, CHR ''b'']
      else if c = CHR 0x0C then [CHR 0x5C, CHR ''f'']
      else if c = CHR 0x0A then [CHR 0x5C, CHR ''n'']
      else if c = CHR 0x0D then [CHR 0x5C, CHR ''r'']
      else if c = CHR 0x09 then [CHR 0x5C, CHR ''t'']
      else if of_char c < (0x20 :: nat) \<or> c \<in> {CHR ''<'', CHR ''>'', CHR ''&''}
      then [CHR 0x5C] @ ''u00'' @ hex_EncodeToString (bytes_of [c])
      else [c])"

text \<open>
  \<open>appendString\<close>: ASCII is escaped as above, an invalid byte becomes the escape of U+FFFD, the two
  line separators U+2028 and U+2029 are escaped, and every other rune is copied.
\<close>

function json_body :: "string \<Rightarrow> string" where
  "json_body [] = []"
| "json_body (c # s) =
     (let n = rune_len (c # s)
      in if n = 0 then [CHR 0x5C] @ ''ufffd'' @ json_body s
         else if n = 1 then json_char c @ json_body s
         else if take 3 (c # s) = [CHR 0xE2, CHR 0x80, CHR 0xA8] then [CHR 0x5C] @ ''u2028'' @ json_body (drop n (c # s))
         else if take 3 (c # s) = [CHR 0xE2, CHR 0x80, CHR 0xA9] then [CHR 0x5C] @ ''u2029'' @ json_body (drop n (c # s))
         else take n (c # s) @ json_body (drop n (c # s)))"
  by pat_completeness auto
termination
  by (relation "measure length") auto

definition json_string :: "string \<Rightarrow> string" where
  "json_string s = [CHR 0x22] @ json_body s @ [CHR 0x22]"

datatype json_value = JString string | JObject "json_value gomap"

definition json_members :: "string gomap \<Rightarrow> string" where
  "json_members m = Join (map (\<lambda>(k, v). json_string k @ '':'' @ v) (sort_key fst m)) '',''"

primrec Marshal :: "json_value \<Rightarrow> string" where
  "Marshal (JString s) = json_string s"
| "Marshal (JObject m) = ''{'' @ json_members (map (map_prod id Marshal) m) @ ''}''"

section \<open>Failed namespaces\<close>

definition ToNamespaceFailures :: "goerror gomap \<Rightarrow> SecretNamespaceFailure list" where
  "ToNamespaceFailures failedNamespaces =
     sort_key nf_Namespace
       (map (\<lambda>(namespace, err). \<lparr>nf_Namespace = namespace, nf_Reason = Error err\<rparr>) failedNamespaces)"

section \<open>Ownership and deletion\<close>

definition IsSecretOwnedBy :: "'w platform \<Rightarrow> Secret \<Rightarrow> string \<Rightarrow> bool" where
  "IsSecretOwnedBy pf secret secretOperatorName =
     (case pf_GetControllerOf pf (sc_Meta secret) of
        None \<Rightarrow> False
      | Some owner \<Rightarrow> or_APIVersion owner = GroupVersion_String \<and> or_Kind owner = SecretKind \<and>
                      or_Name owner = secretOperatorName)"

definition GetSecret :: "'w platform \<Rightarrow> string \<Rightarrow> string \<Rightarrow> 'w state \<Rightarrow> Secret outcome \<times> 'w state" where
  "GetSecret pf namespace secretName s =
     call (pf_GetSecret pf namespace secretName) (GetSecretCall namespace secretName) s"

definition DeleteSecret ::
    "'w platform \<Rightarrow> string \<Rightarrow> string \<Rightarrow> string \<Rightarrow> string \<Rightarrow> 'w state \<Rightarrow> unit outcome \<times> 'w state" where
  "DeleteSecret pf secretName secretRotatorName namespace secretType s =
     if_err (GetSecret pf namespace secretName s)
       (\<lambda>err s. if pf_IsNotFound pf err then (Ok (), s)
                else (Err (FmtError (''failed to get '' @ secretType @ '' secret '' @ secretName @ '': '' @ Error err)
                        (Some err)), s))
       (\<lambda>existingSecret s.
          if \<not> IsSecretOwnedBy pf existingSecret secretRotatorName then (Ok (), s)
          else if_err (call (pf_DeleteSecret pf existingSecret)
                         (DeleteSecretCall (secret_namespace existingSecret) (secret_name existingSecret)) s)
                 (\<lambda>err s. (Err (FmtError (secretType @ '' secret '' @ secretName @ '' in namespace '' @ namespace @
                               '' could not be deleted: '' @ Error err) (Some err)), s))
                 (\<lambda>_ s. (Ok (), s)))"

definition getRemovedNamespaces :: "Namespace list \<Rightarrow> string list \<Rightarrow> string list" where
  "getRemovedNamespaces currentNSs provisionedNSs =
     (let currentNSSet = foldl (\<lambda>m n. AList.update (ns_name n) () m) [] currentNSs
      in filter (\<lambda>ns. map_of currentNSSet ns = None) provisionedNSs)"

text \<open>The loop over the generated secrets of one removed namespace.\<close>

fun delete_generated ::
    "'w platform \<Rightarrow> string \<Rightarrow> string \<Rightarrow> GeneratedSecret list \<Rightarrow> goerror gomap \<Rightarrow> 'w state \<Rightarrow>
     goerror gomap outcome \<times> 'w state" where
  "delete_generated pf secretRotatorName namespace [] failedNamespaces s = (Ok failedNamespaces, s)"
| "delete_generated pf secretRotatorName namespace (genSecret # rest) failedNamespaces s =
     (if gs_SecretName genSecret = [] then delete_generated pf secretRotatorName namespace rest failedNamespaces s
      else if_err (DeleteSecret pf (gs_SecretName genSecret) secretRotatorName namespace (gs_SecretType genSecret) s)
             (\<lambda>err s. delete_generated pf secretRotatorName namespace rest
                (AList.update namespace (FmtError (''failed to delete '' @ gs_SecretType genSecret @ '' secret '' @
                   gs_SecretName genSecret @ '': '' @ Error err) (Some err)) failedNamespaces) s)
             (\<lambda>_ s. delete_generated pf secretRotatorName namespace rest failedNamespaces s))"

fun delete_removed ::
    "'w platform \<Rightarrow> string \<Rightarrow> GeneratedSecret list \<Rightarrow> string list \<Rightarrow> goerror gomap \<Rightarrow> 'w state \<Rightarrow>
     goerror gomap outcome \<times> 'w state" where
  "delete_removed pf secretRotatorName generated [] failedNamespaces s = (Ok failedNamespaces, s)"
| "delete_removed pf secretRotatorName generated (namespace # rest) failedNamespaces s =
     if_err (delete_generated pf secretRotatorName namespace generated failedNamespaces s) ret_err
       (\<lambda>failedNamespaces s. delete_removed pf secretRotatorName generated rest failedNamespaces s)"

definition DeleteOutdatedSecrets ::
    "'w platform \<Rightarrow> string \<Rightarrow> string list \<Rightarrow> 'w state \<Rightarrow> goerror gomap outcome \<times> 'w state" where
  "DeleteOutdatedSecrets pf secretRotatorName provisionedNamespaces s =
     delete_removed pf secretRotatorName (td_GeneratedSecrets (s_td s))
       (getRemovedNamespaces (td_NamespaceList (s_td s)) provisionedNamespaces) [] s"

section \<open>Docker configuration\<close>

text \<open>\<open>json.Marshal\<close> cannot fail on maps of strings, so the error branch is not reachable.\<close>

definition generateDockerConfigJSON :: "string \<Rightarrow> SecretRotator \<Rightarrow> bytes outcome" where
  "generateDockerConfigJSON tokenb64 secretRotator =
     (let entry = JObject [(''auth'', JString tokenb64)];
          auths = [(sp_ArtifactoryUrl (sr_Spec secretRotator), entry)];
          auths = foldl (\<lambda>m url. AList.update url entry m) auths (sp_ArtifactorySubdomains (sr_Spec secretRotator))
      in Ok (bytes_of (Marshal (JObject [(''auths'', JObject auths)]))))"

section \<open>Creation and update\<close>

text \<open>
  The result is the pair \<open>(error, bool)\<close> of the Go function.  A failed \<open>Get\<close> leaves the object as it
  was initialised.
\<close>

definition setSecretMetadata :: "'w platform \<Rightarrow> SecretRotator \<Rightarrow> string \<Rightarrow> Secret \<Rightarrow> Secret outcome" where
  "setSecretMetadata pf secretRotator namespace secret =
     (let md = sp_SecretMetadata (sr_Spec secretRotator);
          secret = secret\<lparr>sc_Meta := (sc_Meta secret)\<lparr>om_Namespace := namespace, om_Labels := smd_Labels md,
                                                      om_Annotations := smd_Annotations md\<rparr>\<rparr>
      in pf_SetControllerReference pf secretRotator secret)"

definition configure_secret :: "TokenDetails \<Rightarrow> SecretRotator \<Rightarrow> string \<Rightarrow> Secret \<Rightarrow> Secret outcome" where
  "configure_secret td secretRotator secretType secretObj =
     (if secretType = SecretTypeDocker then
        (let auth = td_Username td @ '':'' @ td_Token td;
             tokenb64 = base64_EncodeToString (bytes_of auth)
         in case generateDockerConfigJSON tokenb64 secretRotator of
              Err e \<Rightarrow> Err e
            | Panic p \<Rightarrow> Panic p
            | Ok dockerConfigBytes \<Rightarrow>
                Ok (secretObj\<lparr>sc_Data := [(DockerSecretJSON, dockerConfigBytes)],
                             sc_Type := SecretTypeDockerConfigJson\<rparr>))
      else if secretType = SecretTypeGeneric then
        Ok (secretObj\<lparr>sc_Data := [(GenericSecretUser, bytes_of (td_Username td)),
                                  (GenericSecretToken, bytes_of (td_Token td))],
                     sc_Type := SecretTypeOpaque\<rparr>)
      else Ok secretObj)"

definition write_secret ::
    "'w platform \<Rightarrow> string \<Rightarrow> string \<Rightarrow> Secret \<Rightarrow> 'w state \<Rightarrow> (goerror option \<times> bool) outcome \<times> 'w state" where
  "write_secret pf secretName secretType secretObj s =
     if_err (call (pf_UpdateSecret pf secretObj) (UpdateSecretCall secretObj) s)
       (\<lambda>err s. if pf_IsNotFound pf err
                then if_err (call (pf_CreateSecret pf secretObj) (CreateSecretCall secretObj) s)
                       (\<lambda>err s. (Ok (Some (FmtError (''failed to create '' @ secretType @ '' secret '' @ secretName @
                                  '': '' @ Error err) (Some err)), False), s))
                       (\<lambda>_ s. (Ok (None, False), s))
                else (Ok (Some (FmtError (''failed to update '' @ secretType @ '' secret '' @ secretName @
                        '': '' @ Error err) (Some err)), False), s))
       (\<lambda>_ s. (Ok (None, False), s))"

definition CreateOrUpdateSecrets ::
    "'w platform \<Rightarrow> Namespace \<Rightarrow> string \<Rightarrow> string \<Rightarrow> 'w state \<Rightarrow> (goerror option \<times> bool) outcome \<times> 'w state" where
  "CreateOrUpdateSecrets pf namespace secretName secretType s =
     (let secretObj = empty_secret\<lparr>sc_Meta := empty_meta\<lparr>om_Name := secretName, om_Namespace := ns_name namespace\<rparr>\<rparr>;
          continue = (\<lambda>secretObj s.
            case configure_secret (s_td s) (s_sr s) secretType secretObj of
              Err e \<Rightarrow> (Ok (Some e, False), s)
            | Panic p \<Rightarrow> (Panic p, s)
            | Ok secretObj \<Rightarrow> write_secret pf secretName secretType secretObj s)
      in if_err (call (pf_GetSecret pf (ns_name namespace) secretName) (GetSecretCall (ns_name namespace) secretName) s)
           (\<lambda>err s.
              if pf_IsNotFound pf err
              then case setSecretMetadata pf (s_sr s) (ns_name namespace) secretObj of
                     Err err \<Rightarrow>
                       if Contains (Error err) ''cross-namespace owner references are disallowed''
                       then (Ok (Some (FmtError (''failed to set cross-namespace owner references for '' @ secretType @
                               '' secret '' @ secretName) None), True), s)
                       else (Ok (Some (FmtError (''failed to set controller reference for '' @ secretType @ '' secret '' @
                               secretName @ '': '' @ Error err) (Some err)), False), s)
                   | Panic p \<Rightarrow> (Panic p, s)
                   | Ok secretObj \<Rightarrow> continue secretObj s
              else (Ok (Some (FmtError (''failed to get '' @ secretType @ '' secret '' @ secretName @ '': '' @ Error err)
                      (Some err)), False), s))
           continue)"

section \<open>Certificates\<close>

fun create_certs ::
    "'w platform \<Rightarrow> string \<Rightarrow> bytes gomap \<Rightarrow> string list \<Rightarrow> 'w state \<Rightarrow> unit outcome \<times> 'w state" where
  "create_certs pf secretRotatorName dat [] s = (Ok (), s)"
| "create_certs pf secretRotatorName dat (key # rest) s =
     (if ''/'' @ key \<in> {CaPem, CertPem, KeyPem, TlsKey, TlsCrt, TlsCa}
      then if_err (CreateFile pf (CustomCertificatePath @ secretRotatorName @ ''/'' @ key)
                     (string_of (map_get [] dat key)) s) ret_err
             (\<lambda>_ s. create_certs pf secretRotatorName dat rest s)
      else create_certs pf secretRotatorName dat rest s)"

definition HandleCerts ::
    "'w platform \<Rightarrow> string \<Rightarrow> string \<Rightarrow> string \<Rightarrow> 'w state \<Rightarrow> unit outcome \<times> 'w state" where
  "HandleCerts pf namespace secretName secretRotatorName s =
     if_err (GetSecret pf namespace secretName s) ret_err (\<lambda>secret s.
     if_err (CreateDir pf (CustomCertificatePath @ secretRotatorName) s) ret_err (\<lambda>_ s.
       create_certs pf secretRotatorName (sc_Data secret) (range_keys pf (sc_Data secret) s) s))"

interpretation grn: slice_difference "\<lambda>provisioned current. getRemovedNamespaces current provisioned" ns_name
  by unfold_locales (simp add: getRemovedNamespaces_def foldl_update_None)

section \<open>Deletions are of owned secrets\<close>

text \<open>
  The guard: a deletion is allowed only right after a read whose answer was this secret, controlled by
  the rotator.
\<close>

definition deletes_owned :: "'w platform \<Rightarrow> string \<Rightarrow> api_call list \<Rightarrow> api_call \<Rightarrow> bool" where
  "deletes_owned pf rotator past c =
     (case c of
        DeleteSecretCall ns n _ \<Rightarrow>
          past \<noteq> [] \<and>
          (case last past of
             GetSecretCall _ _ (Ok x) \<Rightarrow>
               IsSecretOwnedBy pf x rotator \<and> secret_namespace x = ns \<and> secret_name x = n
           | _ \<Rightarrow> False)
      | _ \<Rightarrow> True)"

interpretation del: call_guard "deletes_owned pf rotator" for pf rotator
  by unfold_locales (auto simp: deletes_owned_def split: api_call.splits)

lemma DeleteSecret_guarded: "guarded (deletes_owned pf rot) s (snd (DeleteSecret pf n rot ns t s))"
proof -
  obtain g w where g: "pf_GetSecret pf ns n (s_world s) = (g, w)" by fastforce
  show ?thesis
  proof (cases "\<exists>x. g = Ok x \<and> IsSecretOwnedBy pf x rot")
    case True
    then obtain x where x: "g = Ok x" "IsSecretOwnedBy pf x rot" by blast
    obtain r w' where r: "pf_DeleteSecret pf x w = (r, w')" by fastforce
    show ?thesis
      unfolding guarded_def using x g r
      by (intro exI [of _ "[GetSecretCall ns n g, DeleteSecretCall (secret_namespace x) (secret_name x) r]"])
         (cases r; simp add: DeleteSecret_def GetSecret_def call_def obeys_def deletes_owned_def All_less_Suc)
  next
    case False
    then show ?thesis
      unfolding guarded_def using g
      by (intro exI [of _ "[GetSecretCall ns n g]"])
         (cases g; simp add: DeleteSecret_def GetSecret_def call_def obeys_def deletes_owned_def)
  qed
qed

lemma delete_generated_guarded:
  "guarded (deletes_owned pf rot) s (snd (delete_generated pf rot ns gs failed s))"
proof (induction gs arbitrary: failed s)
  case (Cons g gs)
  show ?case
  proof (cases "gs_SecretName g = []")
    case False
    obtain r s1 where d: "DeleteSecret pf (gs_SecretName g) rot ns (gs_SecretType g) s = (r, s1)" by fastforce
    then have "guarded (deletes_owned pf rot) s s1"
      by (metis DeleteSecret_guarded snd_conv)
    with Cons d False show ?thesis by (cases r) (auto intro: del.guarded_trans)
  qed (use Cons in simp)
qed simp

lemma delete_removed_guarded:
  "guarded (deletes_owned pf rot) s (snd (delete_removed pf rot gs nss failed s))"
proof (induction nss arbitrary: failed s)
  case (Cons ns nss)
  obtain r s1 where d: "delete_generated pf rot ns gs failed s = (r, s1)" by fastforce
  then have "guarded (deletes_owned pf rot) s s1"
    by (metis delete_generated_guarded snd_conv)
  with Cons d show ?case by (cases r) (auto intro: del.guarded_trans)
qed simp

section \<open>Failed namespaces\<close>

lemma sort_key_mset_eq:
  assumes "mset xs = mset ys" "distinct (map f xs)"
  shows "sort_key f xs = sort_key f ys"
proof (rule properties_for_sort_key)
  show "mset (sort_key f ys) = mset xs" using assms(1) by simp
  show "sorted (map f (sort_key f ys))" by simp
  fix k assume "k \<in> set (sort_key f ys)"
  have len: "length (filter (\<lambda>y. f k = f y) xs) \<le> 1"
    using assms(2) by (induction xs) (auto simp: filter_empty_conv image_iff)
  have eq: "mset (filter (\<lambda>y. f k = f y) xs) = mset (filter (\<lambda>y. f k = f y) (sort_key f ys))"
    using assms(1) by (metis mset_filter mset_sort)
  from mset_short_eq [OF len eq] show "filter (\<lambda>y. f k = f y) (sort_key f ys) = filter (\<lambda>y. f k = f y) xs"
    by simp
qed

section \<open>Docker configuration\<close>

text \<open>The set of hosts, and the text for them: one entry per host, in order, each with the same auth.\<close>

definition docker_hosts :: "SecretRotatorSpec \<Rightarrow> string list" where
  "docker_hosts spec = sorted_list_of_set (insert (sp_ArtifactoryUrl spec) (set (sp_ArtifactorySubdomains spec)))"

definition docker_text :: "string \<Rightarrow> string list \<Rightarrow> string" where
  "docker_text auth hosts =
     ''{'' @ json_string ''auths'' @ '':{'' @
     Join (map (\<lambda>h. json_string h @ '':{'' @ json_string ''auth'' @ '':'' @ json_string auth @ ''}'') hosts) '','' @ ''}}''"

lemma foldl_update_const:
  "\<forall>(k, x) \<in> set m. x = v \<Longrightarrow> wf_map m \<Longrightarrow> m' = foldl (\<lambda>m k. AList.update k v m) m ks \<Longrightarrow>
   wf_map m' \<and> fst ` set m' = fst ` set m \<union> set ks \<and> (\<forall>(k, x) \<in> set m'. x = v)"
proof (induction ks arbitrary: m)
  case (Cons k ks)
  have "x = v" if "(k', x) \<in> set (AList.update k v m)" for k' x
  proof -
    have "map_of (AList.update k v m) k' = Some x"
      using that Cons.prems(2) by (intro map_of_is_SomeI) auto
    then show ?thesis using Cons.prems(1) by (auto split: if_splits dest: map_of_SomeD)
  qed
  then show ?case using Cons.IH [of "AList.update k v m"] Cons.prems(2,3) by auto
qed auto

lemma insort_key_const: "insort_key fst (k, v) (map (\<lambda>k. (k, v)) ks) = map (\<lambda>k. (k, v)) (insort k ks)"
  by (induction ks) auto

lemma sort_key_pairs: "sort_key fst (map (\<lambda>k. (k, v)) ks) = map (\<lambda>k. (k, v)) (sort ks)"
  by (induction ks) (auto simp: insort_key_const)

lemma sort_key_const:
  assumes "wf_map m" "\<forall>(k, x) \<in> set m. x = v"
  shows "sort_key fst (map (map_prod id f) m) = map (\<lambda>k. (k, f v)) (sorted_list_of_set (fst ` set m))"
proof -
  have "map (map_prod id f) m = map (\<lambda>k. (k, f v)) (map fst m)"
    using assms(2) by (induction m) auto
  then have "sort_key fst (map (map_prod id f) m) = map (\<lambda>k. (k, f v)) (sort (map fst m))"
    by (simp only: sort_key_pairs)
  also have "sort (map fst m) = sorted_list_of_set (fst ` set m)"
    using assms(1) by (metis distinct_remdups_id list.set_map sorted_list_of_set_sort_remdups)
  finally show ?thesis .
qed

lemma generateDockerConfigJSON_text:
  "generateDockerConfigJSON auth r = Ok (bytes_of (docker_text auth (docker_hosts (sr_Spec r))))"
proof -
  define e where "e = JObject [(''auth'', JString auth)]"
  define m where "m = foldl (\<lambda>m url. AList.update url e m) [(sp_ArtifactoryUrl (sr_Spec r), e)]
              (sp_ArtifactorySubdomains (sr_Spec r))"
  have "wf_map m \<and> fst ` set m = insert (sp_ArtifactoryUrl (sr_Spec r)) (set (sp_ArtifactorySubdomains (sr_Spec r)))
      \<and> (\<forall>(k, x) \<in> set m. x = e)"
    using foldl_update_const [of "[(sp_ArtifactoryUrl (sr_Spec r), e)]" e m] m_def by simp
  then have "sort_key fst (map (map_prod id Marshal) m) = map (\<lambda>k. (k, Marshal e)) (docker_hosts (sr_Spec r))"
    unfolding docker_hosts_def using sort_key_const [of m e Marshal] by metis
  then show ?thesis
    by (simp add: generateDockerConfigJSON_def Let_def json_members_def docker_text_def comp_def
        flip: e_def m_def) (simp add: e_def json_members_def)
qed

section \<open>Effect on the cluster\<close>

text \<open>
  What the theorems about the cluster's content assume of the API server, for a function \<open>st\<close> that
  reads the stored secrets off a world: reads return what is stored and change nothing; a successful
  write stores the object's data, type, labels and annotations under its name; "not found" is
  answered only for what is not there and leaves the store alone; a successful delete removes the
  object; \<open>SetControllerReference\<close> touches the owner references only.  Writers other than the operator
  are excluded by the first law.
\<close>

definition get_law :: "'w platform \<Rightarrow> ('w \<Rightarrow> string \<times> string \<Rightarrow> Secret option) \<Rightarrow> bool" where
  "get_law pf st \<longleftrightarrow> (\<forall>ns n w r w'. pf_GetSecret pf ns n w = (r, w') \<longrightarrow> st w' = st w \<and>
     (\<forall>x. r = Ok x \<longrightarrow> st w (ns, n) = Some x \<and> secret_namespace x = ns \<and> secret_name x = n) \<and>
     (\<forall>e. r = Err e \<longrightarrow> pf_IsNotFound pf e \<longrightarrow> st w (ns, n) = None))"

definition same_content :: "Secret \<Rightarrow> Secret \<Rightarrow> bool" where
  "same_content x y \<longleftrightarrow> sc_Data y = sc_Data x \<and> sc_Type y = sc_Type x \<and>
     om_Labels (sc_Meta y) = om_Labels (sc_Meta x) \<and> om_Annotations (sc_Meta y) = om_Annotations (sc_Meta x) \<and>
     om_OwnerReferences (sc_Meta y) = om_OwnerReferences (sc_Meta x) \<and>
     secret_name y = secret_name x \<and> secret_namespace y = secret_namespace x"

definition write_law ::
    "'w platform \<Rightarrow> (Secret \<Rightarrow> 'w \<Rightarrow> unit outcome \<times> 'w) \<Rightarrow> ('w \<Rightarrow> string \<times> string \<Rightarrow> Secret option) \<Rightarrow> bool" where
  "write_law pf f st \<longleftrightarrow> (\<forall>x w r w'. f x w = (r, w') \<longrightarrow>
     (r = Ok () \<longrightarrow> (\<exists>y. same_content x y \<and> st w' = (st w)((secret_namespace x, secret_name x) \<mapsto> y))) \<and>
     (\<forall>e. r = Err e \<longrightarrow> pf_IsNotFound pf e \<longrightarrow> st w' = st w))"

definition delete_law :: "'w platform \<Rightarrow> ('w \<Rightarrow> string \<times> string \<Rightarrow> Secret option) \<Rightarrow> bool" where
  "delete_law pf st \<longleftrightarrow> (\<forall>x w w'. pf_DeleteSecret pf x w = (Ok (), w') \<longrightarrow>
     st w' = (st w)((secret_namespace x, secret_name x) := None))"

definition reference_law :: "'w platform \<Rightarrow> bool" where
  "reference_law pf \<longleftrightarrow> (\<forall>r x y. pf_SetControllerReference pf r x = Ok y \<longrightarrow>
     (\<exists>os. y = x\<lparr>sc_Meta := (sc_Meta x)\<lparr>om_OwnerReferences := os\<rparr>\<rparr>))"

definition cluster_laws :: "'w platform \<Rightarrow> ('w \<Rightarrow> string \<times> string \<Rightarrow> Secret option) \<Rightarrow> bool" where
  "cluster_laws pf st \<longleftrightarrow> get_law pf st \<and> write_law pf (pf_UpdateSecret pf) st \<and>
     write_law pf (pf_CreateSecret pf) st \<and> delete_law pf st \<and> reference_law pf"

text \<open>The content a secret of a given type is meant to have.\<close>

definition desired_data :: "TokenDetails \<Rightarrow> SecretRotator \<Rightarrow> string \<Rightarrow> bytes gomap" where
  "desired_data td r t =
     (if t = SecretTypeDocker
      then [(DockerSecretJSON, bytes_of (docker_text
              (base64_EncodeToString (bytes_of (td_Username td @ '':'' @ td_Token td))) (docker_hosts (sr_Spec r))))]
      else [(GenericSecretUser, bytes_of (td_Username td)), (GenericSecretToken, bytes_of (td_Token td))])"

definition desired_type :: "string \<Rightarrow> string" where
  "desired_type t = (if t = SecretTypeDocker then SecretTypeDockerConfigJson else SecretTypeOpaque)"

lemma configure_secret_eq:
  "t \<in> {SecretTypeDocker, SecretTypeGeneric} \<Longrightarrow>
   configure_secret td r t x = Ok (x\<lparr>sc_Data := desired_data td r t, sc_Type := desired_type t\<rparr>)"
  by (auto simp: configure_secret_def generateDockerConfigJSON_text desired_data_def desired_type_def Let_def)

lemma write_secret_stores:
  assumes laws: "cluster_laws pf st" and r: "write_secret pf n t x s = (Ok (None, b), s')"
  shows "\<not> b \<and> (\<exists>y. same_content x y \<and>
    st (s_world s') = (st (s_world s))((secret_namespace x, secret_name x) \<mapsto> y))"
proof -
  have upd: "write_law pf (pf_UpdateSecret pf) st" and cre: "write_law pf (pf_CreateSecret pf) st"
    using laws by (simp_all add: cluster_laws_def)
  obtain u w where u: "pf_UpdateSecret pf x (s_world s) = (u, w)" by fastforce
  obtain c w2 where c: "pf_CreateSecret pf x w = (c, w2)" by fastforce
  show ?thesis
  proof (cases u)
    case (Ok z)
    then have "s_world s' = w" "\<not> b" using r u by (auto simp: write_secret_def call_def)
    then show ?thesis using upd u Ok unfolding write_law_def by (cases z) metis
  next
    case (Err e)
    then have nf: "pf_IsNotFound pf e" and "c = Ok ()" and "s_world s' = w2" "\<not> b"
      using r u c by (auto simp: write_secret_def call_def split: if_splits; cases c; auto)+
    moreover have "st w = st (s_world s)"
      using upd u Err nf unfolding write_law_def by metis
    ultimately show ?thesis using cre c unfolding write_law_def by metis
  next
    case (Panic p)
    with r u show ?thesis by (simp add: write_secret_def call_def)
  qed
qed

lemma write_secret_keeps: "keeps s (snd (write_secret pf n t x s))"
  by (auto simp: write_secret_def intro!: kp.if_err_rel)

lemma CreateOrUpdateSecrets_stores:
  assumes laws: "cluster_laws pf st" and t: "t \<in> {SecretTypeDocker, SecretTypeGeneric}"
    and r: "CreateOrUpdateSecrets pf ns n t s = (Ok (None, b), s')"
  shows "\<exists>y. st (s_world s') = (st (s_world s))((ns_name ns, n) \<mapsto> y) \<and>
    sc_Data y = desired_data (s_td s) (s_sr s) t \<and> sc_Type y = desired_type t \<and>
    (st (s_world s) (ns_name ns, n) = None \<longrightarrow>
       om_Labels (sc_Meta y) = smd_Labels (sp_SecretMetadata (sr_Spec (s_sr s))) \<and>
       om_Annotations (sc_Meta y) = smd_Annotations (sp_SecretMetadata (sr_Spec (s_sr s)))) \<and>
    s_td s' = s_td s \<and> s_sr s' = s_sr s"
proof -
  have get: "get_law pf st" using laws by (simp add: cluster_laws_def)
  obtain g w where g: "pf_GetSecret pf (ns_name ns) n (s_world s) = (g, w)" by fastforce
  define s1 where "s1 = s\<lparr>s_world := w, s_calls := s_calls s @ [GetSecretCall (ns_name ns) n g]\<rparr>"
  have st1: "st (s_world s1) = st (s_world s)" using get g unfolding get_law_def s1_def by simp
  have "\<exists>x. write_secret pf n t (x\<lparr>sc_Data := desired_data (s_td s) (s_sr s) t, sc_Type := desired_type t\<rparr>) s1 =
      (Ok (None, b), s') \<and> secret_namespace x = ns_name ns \<and> secret_name x = n \<and>
      (st (s_world s) (ns_name ns, n) = None \<longrightarrow>
       om_Labels (sc_Meta x) = smd_Labels (sp_SecretMetadata (sr_Spec (s_sr s))) \<and>
       om_Annotations (sc_Meta x) = smd_Annotations (sp_SecretMetadata (sr_Spec (s_sr s))))"
  proof (cases g)
    case (Ok x)
    then show ?thesis
      using r g get t
      by (intro exI [of _ x]) (auto simp: CreateOrUpdateSecrets_def call_def configure_secret_eq get_law_def Let_def s1_def)
  next
    case (Err e)
    let ?o = "empty_secret\<lparr>sc_Meta := empty_meta\<lparr>om_Name := n, om_Namespace := ns_name ns\<rparr>\<rparr>"
    obtain x where x: "setSecretMetadata pf (s_sr s) (ns_name ns) ?o = Ok x"
      and w: "write_secret pf n t (x\<lparr>sc_Data := desired_data (s_td s) (s_sr s) t, sc_Type := desired_type t\<rparr>) s1 =
      (Ok (None, b), s')"
      using r g Err t
      by (auto simp: CreateOrUpdateSecrets_def call_def configure_secret_eq Let_def s1_def
          split: if_splits outcome.splits)
    have "\<exists>os. x = (let md = sp_SecretMetadata (sr_Spec (s_sr s)) in ?o\<lparr>sc_Meta := (sc_Meta ?o)
        \<lparr>om_Namespace := ns_name ns, om_Labels := smd_Labels md, om_Annotations := smd_Annotations md,
         om_OwnerReferences := os\<rparr>\<rparr>)"
      using x laws unfolding setSecretMetadata_def Let_def cluster_laws_def reference_law_def by fastforce
    then have "secret_namespace x = ns_name ns \<and> secret_name x = n \<and>
       om_Labels (sc_Meta x) = smd_Labels (sp_SecretMetadata (sr_Spec (s_sr s))) \<and>
       om_Annotations (sc_Meta x) = smd_Annotations (sp_SecretMetadata (sr_Spec (s_sr s)))"
      by (auto simp: Let_def)
    with w show ?thesis by (intro exI [of _ x]) simp
  next
    case (Panic p)
    with r g show ?thesis by (simp add: CreateOrUpdateSecrets_def call_def)
  qed
  then obtain x where
    w: "write_secret pf n t (x\<lparr>sc_Data := desired_data (s_td s) (s_sr s) t, sc_Type := desired_type t\<rparr>) s1 =
      (Ok (None, b), s')"
    and x: "secret_namespace x = ns_name ns" "secret_name x = n"
      "st (s_world s) (ns_name ns, n) = None \<longrightarrow>
       om_Labels (sc_Meta x) = smd_Labels (sp_SecretMetadata (sr_Spec (s_sr s))) \<and>
       om_Annotations (sc_Meta x) = smd_Annotations (sp_SecretMetadata (sr_Spec (s_sr s)))"
    by (elim exE conjE) (rule that)
  from write_secret_stores [OF laws w] obtain y where
    "same_content (x\<lparr>sc_Data := desired_data (s_td s) (s_sr s) t, sc_Type := desired_type t\<rparr>) y"
    "st (s_world s') = (st (s_world s))((ns_name ns, n) \<mapsto> y)"
    using x st1 by auto
  moreover have "s_td s' = s_td s \<and> s_sr s' = s_sr s"
    using write_secret_keeps [of s1 pf n t] w by (simp add: s1_def keeps_def, metis snd_conv)
  ultimately show ?thesis using x by (auto simp: same_content_def)
qed

lemma DeleteSecret_effect:
  assumes laws: "cluster_laws pf st" and r: "DeleteSecret pf n rot ns t s = (Ok (), s')"
  shows "st (s_world s') =
    (case st (s_world s) (ns, n) of
       Some x \<Rightarrow> if IsSecretOwnedBy pf x rot then (st (s_world s))((ns, n) := None) else st (s_world s)
     | None \<Rightarrow> st (s_world s))"
proof -
  have get: "get_law pf st" and del: "delete_law pf st" using laws by (simp_all add: cluster_laws_def)
  obtain g w where g: "pf_GetSecret pf ns n (s_world s) = (g, w)" by fastforce
  have st: "st w = st (s_world s)" using get g unfolding get_law_def by simp
  show ?thesis
  proof (cases g)
    case (Ok x)
    then have x: "st (s_world s) (ns, n) = Some x" "secret_namespace x = ns" "secret_name x = n"
      using get g unfolding get_law_def by simp_all
    obtain d w2 where d: "pf_DeleteSecret pf x w = (d, w2)" by fastforce
    show ?thesis
    proof (cases "IsSecretOwnedBy pf x rot")
      case True
      then have "d = Ok () \<and> s_world s' = w2"
        using r g Ok d by (cases d) (auto simp: DeleteSecret_def GetSecret_def call_def)
      then show ?thesis using del d st x True unfolding delete_law_def by simp
    next
      case False
      then have "s_world s' = w" using r g Ok by (auto simp: DeleteSecret_def GetSecret_def call_def)
      then show ?thesis using st x False by simp
    qed
  next
    case (Err e)
    then have "pf_IsNotFound pf e" "s_world s' = w"
      using r g by (auto simp: DeleteSecret_def GetSecret_def call_def split: if_splits)
    then show ?thesis using get g Err st unfolding get_law_def by simp
  next
    case (Panic p)
    with r g show ?thesis by (simp add: DeleteSecret_def GetSecret_def call_def)
  qed
qed

section \<open>Certificate files\<close>

definition cert_keys :: "string list" where
  "cert_keys = [''ca.pem'', ''cert.pem'', ''key.pem'', ''tls.key'', ''tls.crt'', ''ca.crt'']"

definition cert_file :: "string \<Rightarrow> string \<Rightarrow> string" where
  "cert_file rotator key = ''/usr/tmp/'' @ rotator @ ''/'' @ key"

text \<open>
  The guard of \<open>HandleCerts\<close>: it reads a secret, makes the rotator's directory, and touches no file but
  the six certificate files in it.
\<close>

definition touches_certs :: "string \<Rightarrow> api_call list \<Rightarrow> api_call \<Rightarrow> bool" where
  "touches_certs rotator past c =
     (case c of
        GetSecretCall _ _ _ \<Rightarrow> True
      | MkdirAllCall d _ \<Rightarrow> d = ''/usr/tmp/'' @ rotator
      | CreateFileCall p _ \<Rightarrow> p \<in> cert_file rotator ` set cert_keys
      | WriteStringCall p _ _ \<Rightarrow> p \<in> cert_file rotator ` set cert_keys
      | _ \<Rightarrow> False)"

interpretation crt: call_guard "touches_certs rotator" for rotator
  by unfold_locales (simp add: touches_certs_def)

lemma cert_key_iff: "''/'' @ key \<in> {CaPem, CertPem, KeyPem, TlsKey, TlsCrt, TlsCa} \<longleftrightarrow> key \<in> set cert_keys"
  by (simp add: cert_paths cert_keys_def)

lemma CreateFile_guarded:
  "key \<in> set cert_keys \<Longrightarrow>
   guarded (touches_certs rot) s (snd (CreateFile pf (CustomCertificatePath @ rot @ ''/'' @ key) v s))"
  unfolding CreateFile_def
  by (intro crt.gd.if_err_rel guarded_call)
     (auto simp: touches_certs_def cert_file_def CustomCertificatePath_def)

lemma create_certs_guarded: "guarded (touches_certs rot) s (snd (create_certs pf rot dat keys s))"
proof (induction keys arbitrary: s)
  case (Cons k ks)
  show ?case
  proof (cases "k \<in> set cert_keys")
    case True
    then have "guarded (touches_certs rot) s (snd (if_err (CreateFile pf (CustomCertificatePath @ rot @ ''/'' @ k)
        (string_of (map_get [] dat k)) s) ret_err (\<lambda>_ s. create_certs pf rot dat ks s)))"
      by (intro crt.gd.if_err_rel CreateFile_guarded) (auto intro: Cons)
    then show ?thesis using True unfolding create_certs.simps cert_key_iff by simp
  next
    case False
    then show ?thesis using Cons unfolding create_certs.simps cert_key_iff by simp
  qed
qed simp

lemma HandleCerts_guarded: "guarded (touches_certs rot) s (snd (HandleCerts pf ns n rot s))"
proof -
  have dir: "guarded (touches_certs rot) s (snd (CreateDir pf (CustomCertificatePath @ rot) s))" for s
    unfolding CreateDir_def Let_def
    by (auto split: outcome.split intro!: crt.gd.if_err_rel guarded_call
        simp: touches_certs_def CustomCertificatePath_def)
  show ?thesis
    unfolding HandleCerts_def GetSecret_def
    by (intro crt.gd.if_err_rel guarded_call dir create_certs_guarded) (auto simp: touches_certs_def)
qed

text \<open>On success every supported key of the secret has been written to its file.\<close>

lemma create_certs_written:
  "create_certs pf rot dat keys s = (Ok (), s') \<Longrightarrow>
   (\<exists>cs. s_calls s' = s_calls s @ cs \<and>
     (\<forall>k \<in> set keys \<inter> set cert_keys.
        WriteStringCall (cert_file rot k) (string_of (map_get [] dat k)) (Ok ()) \<in> set cs))"
proof (induction keys arbitrary: s)
  case (Cons k ks)
  show ?case
  proof (cases "k \<in> set cert_keys")
    case True
    then obtain s1 where f: "CreateFile pf (CustomCertificatePath @ rot @ ''/'' @ k) (string_of (map_get [] dat k)) s
        = (Ok (), s1)" and rest: "create_certs pf rot dat ks s1 = (Ok (), s')"
      using Cons.prems unfolding create_certs.simps cert_key_iff by (auto split: if_err_split_asm)
    from f obtain a b where "s_calls s1 = s_calls s @ [a, b]"
      and "b = WriteStringCall (cert_file rot k) (string_of (map_get [] dat k)) (Ok ())"
      unfolding CreateFile_def call_def case_prod_beta Let_def
      by (auto split: if_err_split_asm simp: cert_file_def CustomCertificatePath_def)
    then show ?thesis using Cons.IH [OF rest] by auto
  next
    case False
    then have "create_certs pf rot dat ks s = (Ok (), s')"
      using Cons.prems unfolding create_certs.simps cert_key_iff by simp
    with False show ?thesis using Cons.IH by auto
  qed
qed simp

end
