(* ===== verification/Handler.thy ===== *)
theory Handler
  imports Resource
begin

text \<open>
  internal/handler: how the operator obtains an Artifactory token.  aws.go and webidentity.go (IRSA),
  podidentity.go (EKS Pod Identity) and token.go, each function with all its calls, in order.  Log
  output is left out; the pointers a log line dereferences are not.
\<close>

section \<open>aws.go\<close>

definition ErrorExtractMaxSession :: string where
  "ErrorExtractMaxSession = ''could not extract max session from roleARN''"

abbreviation nil_deref :: "'a outcome" where
  "nil_deref \<equiv> Panic ''invalid memory address or nil pointer dereference''"

definition load_config :: "'w platform \<Rightarrow> aws_options \<Rightarrow> 'w state \<Rightarrow> aws_config outcome \<times> 'w state" where
  "load_config pf opts s = call (pf_LoadDefaultConfig pf opts) (LoadDefaultConfigCall opts) s"

definition default_options :: aws_options where
  "default_options = \<lparr>opt_Credentials = None, opt_Region = None, opt_EC2IMDSRegion = False\<rparr>"

definition uses_default_account :: "string \<Rightarrow> string \<Rightarrow> 'w state \<Rightarrow> bool" where
  "uses_default_account resourceSAName resourceSANamespace s \<longleftrightarrow>
     resourceSAName = td_DefaultServiceAccountName (s_td s) \<and>
     resourceSANamespace = td_DefaultServiceAccountNamespace (s_td s)"

definition GetMaxSession ::
    "'w platform \<Rightarrow> string \<Rightarrow> credentials_provider \<Rightarrow> string \<Rightarrow> string \<Rightarrow> 'w state \<Rightarrow>
     int option outcome \<times> 'w state" where
  "GetMaxSession pf roleArn appCreds resourceSAName resourceSANamespace s =
     (let substrings = Split roleArn (CHR ''/'')
      in if length substrings \<noteq> 2 then (Err (FmtError ''role arn is not valid'' None), s)
         else let roleName = substrings ! 1;
                  opts = (if uses_default_account resourceSAName resourceSANamespace s then default_options
                          else \<lparr>opt_Credentials = Some appCreds, opt_Region = Some (td_IAMRoleAwsRegion (s_td s)),
                                opt_EC2IMDSRegion = True\<rparr>)
              in if_err (load_config pf opts s) ret_err (\<lambda>cfg s.
                 if_err (call (pf_GetRole pf cfg roleName) (GetRoleCall roleName) s) ret_err (\<lambda>role s.
                   case role of
                     None \<Rightarrow> (Err (FmtError ''could not extract max session from roleARN'' None), s)
                   | Some maxSessionDuration \<Rightarrow> (Ok maxSessionDuration, s))))"

definition region_or_default :: "TokenDetails \<Rightarrow> string" where
  "region_or_default td = (if td_IAMRoleAwsRegion td = [] then AwsRegion else td_IAMRoleAwsRegion td)"

definition GetMaxSessionWithCredentialCache ::
    "'w platform \<Rightarrow> string \<Rightarrow> credentials_provider \<Rightarrow> 'w state \<Rightarrow> int option outcome \<times> 'w state" where
  "GetMaxSessionWithCredentialCache pf roleArn credCache s =
     (let substrings = Split roleArn (CHR ''/'')
      in if length substrings \<noteq> 2 then (Err (FmtError ''role arn is not valid'' None), s)
         else let roleName = substrings ! 1;
                  region = region_or_default (s_td s);
                  opts = \<lparr>opt_Credentials = Some credCache, opt_Region = Some region, opt_EC2IMDSRegion = False\<rparr>
              in if_err (load_config pf opts s) ret_err (\<lambda>cfg s.
                 if_err (call (pf_GetRole pf cfg roleName) (GetRoleCall roleName) s) ret_err (\<lambda>role s.
                   case role of
                     None \<Rightarrow> (Err (FmtError ''could not extract max session from roleARN'' None), s)
                   | Some maxSessionDuration \<Rightarrow> (Ok maxSessionDuration, s))))"

text \<open>The signing call of both flows, with the clock and the random source of the moment.\<close>

definition sign_sts :: "'w platform \<Rightarrow> AwsCredentials \<Rightarrow> 'w state \<Rightarrow> http_request outcome \<times> 'w state" where
  "sign_sts pf creds s =
     (let (r, cache) = SignV4a (pf_Sign pf (s_world s)) (pf_Now pf (s_world s)) ''GET'' sts_url ''sts'' creds (s_cache s)
      in (r, s\<lparr>s_cache := cache\<rparr>))"

text \<open>The session duration: the answer of the lookup, or three hours when the lookup failed.\<close>

definition set_max_session :: "int option outcome \<times> 'w state \<Rightarrow> unit outcome \<times> 'w state" where
  "set_max_session r = if_err r
     (\<lambda>err s. (Ok (), upd_td (\<lambda>t. t\<lparr>td_RoleMaxSessionDuration := Some RoleMaxSessionDuration\<rparr>) s))
     (\<lambda>d s. (Ok (), upd_td (\<lambda>t. t\<lparr>td_RoleMaxSessionDuration := d\<rparr>) s))"

definition GetSignedRequestAndHandleRoleMaxSession ::
    "'w platform \<Rightarrow> string \<Rightarrow> string \<Rightarrow> string \<Rightarrow> string \<Rightarrow> 'w state \<Rightarrow> http_request outcome \<times> 'w state" where
  "GetSignedRequestAndHandleRoleMaxSession pf roleArn webIdentityToken resourceSAName resourceSANamespace s =
     (let opts = (if uses_default_account resourceSAName resourceSANamespace s then default_options
                  else \<lparr>opt_Credentials = None, opt_Region = Some (td_IAMRoleAwsRegion (s_td s)), opt_EC2IMDSRegion = True\<rparr>)
      in if_err (load_config pf opts s)
           (\<lambda>err s. (Err (ReconcileError Minute ''Got error loading default aws config'' (Some err)), s)) (\<lambda>cfg s.
         let sessionTime = pf_UnixMilli pf (s_world s);
             sessionName = ''artifactorySecretRotation'' @ FormatInt sessionTime;
             appCreds = WebIdentityRoleProvider (cfg_Source cfg) roleArn webIdentityToken sessionName
         in if_err (call (pf_Retrieve pf appCreds) (RetrieveCall appCreds) s)
              (\<lambda>err s. (Err (ReconcileError Minute ''Got error on appCreds.Retrieve'' (Some err)), s))
              (\<lambda>(accessKeyID, secretAccessKey, sessionToken) s.
                 let creds = \<lparr>aws_AccessKey = accessKeyID, aws_SecretKey = secretAccessKey,
                              aws_RegionName = cfg_Region cfg, aws_SessionToken = sessionToken\<rparr>
                 in if_err (sign_sts pf creds s)
                      (\<lambda>err s. (Err (ReconcileError Minute ''Got error signing sts request'' (Some err)), s))
                      (\<lambda>req s.
                        if_err (set_max_session (GetMaxSession pf roleArn appCreds resourceSAName resourceSANamespace s))
                          ret_err (\<lambda>_ s. (Ok req, s))))))"

section \<open>podidentity.go\<close>

definition assumed_role_marker :: string where
  "assumed_role_marker = '':assumed-role/''"

definition assumedRoleSTSArnToIAMRoleARN :: "string \<Rightarrow> string \<Rightarrow> string outcome" where
  "assumedRoleSTSArnToIAMRoleARN stsArn accountID =
     (case Index stsArn assumed_role_marker of
        None \<Rightarrow> Err (FmtError (''caller identity ARN is not an assumed role: '' @ stsArn) None)
      | Some i \<Rightarrow>
          let tail = drop (i + length assumed_role_marker) stsArn
          in case LastIndexByte tail (CHR ''/'') of
               None \<Rightarrow> Err (FmtError (''invalid assumed-role ARN: '' @ stsArn) None)
             | Some lastSlash \<Rightarrow> Ok (''arn:aws:iam::'' @ accountID @ '':role/'' @ take lastSlash tail))"

definition ToString :: "string option \<Rightarrow> string" where
  "ToString p = (case p of None \<Rightarrow> [] | Some v \<Rightarrow> v)"

definition ResolveIAMRoleARNFromPodIdentityCredentials ::
    "'w platform \<Rightarrow> string \<Rightarrow> CredentialsResponse \<Rightarrow> 'w state \<Rightarrow> int option outcome \<times> 'w state" where
  "ResolveIAMRoleARNFromPodIdentityCredentials pf region credResp s =
     (let provider = StaticCredentialsProvider (cred_AccessKeyId credResp) (cred_SecretAccessKey credResp) (cred_Token credResp)
      in if_err (load_config pf \<lparr>opt_Credentials = Some provider, opt_Region = Some region, opt_EC2IMDSRegion = False\<rparr> s)
           ret_err (\<lambda>cfg s.
         if_err (call (pf_GetCallerIdentity pf cfg) GetCallerIdentityCall s) ret_err (\<lambda>(arn, account) s.
           let stsArn = ToString arn; accountID = ToString account
           in if stsArn = [] \<or> accountID = []
              then (Err (FmtError ''STS GetCallerIdentity returned empty Arn or Account'' None), s)
              else if_err (assumedRoleSTSArnToIAMRoleARN stsArn accountID, s) ret_err (\<lambda>roleARN s.
                   if_err (GetMaxSessionWithCredentialCache pf roleARN provider s) ret_err (\<lambda>maxDur s.
                     case maxDur of None \<Rightarrow> (nil_deref, s) | Some _ \<Rightarrow> (Ok maxDur, s))))))"

definition GetSignedRequestForPodIdentity :: "'w platform \<Rightarrow> 'w state \<Rightarrow> http_request outcome \<times> 'w state" where
  "GetSignedRequestForPodIdentity pf s =
     (let credUri = pf_Getenv pf ''AWS_CONTAINER_CREDENTIALS_FULL_URI'' (s_world s)
      in if credUri = [] then
           (Err (ReconcileError Minute ''No AWS credentials available for Pod Identity (AWS_CONTAINER_CREDENTIALS_FULL_URI not set)'' None), s)
         else if_err (http_NewRequest ''GET'' credUri [], s)
           (\<lambda>err s. (Err (ReconcileError Minute ''Failed to create Pod Identity request'' (Some err)), s)) (\<lambda>req s.
         let authTokenFile = pf_Getenv pf ''AWS_CONTAINER_AUTHORIZATION_TOKEN_FILE'' (s_world s)
         in if authTokenFile = [] then
           (Err (ReconcileError Minute ''Pod Identity token file not found (AWS_CONTAINER_AUTHORIZATION_TOKEN_FILE not set)'' None), s)
         else if_err (pf_ReadFile pf authTokenFile (s_world s), s)
           (\<lambda>err s. (Err (ReconcileError Minute ''Failed to read Pod Identity token file'' (Some err)), s)) (\<lambda>tokenBytes s.
         let req = req\<lparr>r_Header := header_Set ''Authorization'' (string_of tokenBytes) (r_Header req)\<rparr>
         in if_err (call (pf_Do pf None req) (DoCall None req) s)
           (\<lambda>err s. (Err (ReconcileError Minute ''Failed to get Pod Identity credentials'' (Some err)), s)) (\<lambda>resp s.
         if resp_StatusCode resp \<noteq> 200 then
           (Err (ReconcileError Minute (''Error getting in Pod Identity credentials endpoint '' @ credUri @
              '' returned '' @ FormatInt (resp_StatusCode resp) @ '' response'') None), s)
         else if_err (pf_DecodeCredentials pf (resp_Body resp), s)
           (\<lambda>err s. (Err (ReconcileError Minute ''Failed to parse Pod Identity credentials'' (Some err)), s)) (\<lambda>credResp s.
         if_err (slice_to (cred_AccessKeyId credResp) 8, s) ret_err (\<lambda>_ s.
         let region = region_or_default (s_td s);
             creds = \<lparr>aws_AccessKey = cred_AccessKeyId credResp, aws_SecretKey = cred_SecretAccessKey credResp,
                      aws_RegionName = region, aws_SessionToken = cred_Token credResp\<rparr>
         in if_err (sign_sts pf creds s)
           (\<lambda>err s. (Err (ReconcileError Minute ''Failed to sign the STS GetCallerIdentity request using Pod Identity credentials'' (Some err)), s))
           (\<lambda>req s.
              if_err (set_max_session (ResolveIAMRoleARNFromPodIdentityCredentials pf region credResp s)) ret_err
                (\<lambda>_ s. (Ok req, s)))))))))"

section \<open>webidentity.go\<close>

definition GetSignedRequestForWebIdentity ::
    "'w platform \<Rightarrow> ServiceAccount \<Rightarrow> string \<Rightarrow> 'w state \<Rightarrow> http_request outcome \<times> 'w state" where
  "GetSignedRequestForWebIdentity pf serviceAccount clientset s =
     (let roleARN = map_get [] (om_Annotations (sa_Meta serviceAccount)) RoleARNKey;
          name = sad_Name (sp_ServiceAccount (sr_Spec (s_sr s)));
          namespace = sad_Namespace (sp_ServiceAccount (sr_Spec (s_sr s)))
      in if roleARN = [] then (Err (ReconcileError Minute ''role ARN annotation is empty'' None), s)
         else if_err (call (pf_CreateToken pf clientset namespace name [AmazonAwsSts] ServiceAccountExpirationSeconds)
                        (CreateTokenCall namespace name [AmazonAwsSts] ServiceAccountExpirationSeconds) s)
           (\<lambda>err s. (Err err, record_call (EventfCall ''Warning'' ''Misconfiguration''
              (''failed to create token for user/service account '' @ name @ '' from '' @ namespace @
               '' namespace, error: '' @ Error err) []) s))
           (\<lambda>token s.
              if_err (GetSignedRequestAndHandleRoleMaxSession pf roleARN token name namespace s)
                (\<lambda>err s. (Err err, record_call (EventfCall ''Warning'' ''TokenGenerationFailure''
                   (''Error getting signed AWS credentials, error was '' @ Error err) []) s))
                (\<lambda>request s. (Ok request, s))))"

section \<open>token.go\<close>

definition tokenEndpoint :: string where
  "tokenEndpoint = ''/access/api/v1/aws/token''"

definition both_exist :: "'w platform \<Rightarrow> string \<Rightarrow> string \<Rightarrow> 'w state \<Rightarrow> bool outcome" where
  "both_exist pf a b s = (case FileExists pf a s of Ok x \<Rightarrow> if x then FileExists pf b s else Ok False | r \<Rightarrow> r)"

definition or_exist :: "bool outcome \<Rightarrow> bool outcome \<Rightarrow> bool outcome" where
  "or_exist a b = (case a of Ok x \<Rightarrow> if x then Ok True else b | r \<Rightarrow> r)"

definition client_certificates ::
    "'w platform \<Rightarrow> string \<Rightarrow> tls_config \<Rightarrow> 'w state \<Rightarrow> tls_config outcome \<times> 'w state" where
  "client_certificates pf dirPath cfg s =
     (let pem = both_exist pf (dirPath @ CertPem) (dirPath @ KeyPem) s;
          tls = both_exist pf (dirPath @ TlsCrt) (dirPath @ TlsKey) s
      in if_err (or_exist pem tls, s) ret_err (\<lambda>any s.
         if \<not> any then (Ok cfg, s)
         else if_err (tls, s) ret_err (\<lambda>useTls s.
              let certPath = (if useTls then TlsCrt else CertPem);
                  keyPath = (if useTls then TlsKey else KeyPem)
              in if_err (pf_LoadX509KeyPair pf (dirPath @ certPath) (dirPath @ keyPath) (s_world s), s) ret_err
                   (\<lambda>cert s. (Ok (cfg\<lparr>tls_Certificates := [cert]\<rparr>), s)))))"

definition root_certificates ::
    "'w platform \<Rightarrow> string \<Rightarrow> tls_config \<Rightarrow> 'w state \<Rightarrow> tls_config outcome \<times> 'w state" where
  "root_certificates pf dirPath cfg s =
     (let tlsCa = FileExists pf (dirPath @ TlsCa) s
      in if_err (or_exist (FileExists pf (dirPath @ CaPem) s) tlsCa, s) ret_err (\<lambda>any s.
         if \<not> any then (Ok cfg, s)
         else if_err (tlsCa, s) ret_err (\<lambda>useTls s.
              let caPath = (if useTls then TlsCa else CaPem)
              in if_err (pf_ReadFile pf (dirPath @ caPath) (s_world s), s) ret_err
                   (\<lambda>caCert s. (Ok (cfg\<lparr>tls_RootCAs := Some caCert\<rparr>), s)))))"

definition createCustomHTTPClient ::
    "'w platform \<Rightarrow> SecurityDetails \<Rightarrow> string \<Rightarrow> 'w state \<Rightarrow> http_client outcome \<times> 'w state" where
  "createCustomHTTPClient pf securityDetails secretRotatorName s =
     (let cfg = \<lparr>tls_InsecureSkipVerify = False, tls_Certificates = [], tls_RootCAs = None\<rparr>
      in if \<not> sec_Enabled securityDetails then (Ok None, s)
         else if sec_InsecureSkipVerify securityDetails then (Ok (Some (cfg\<lparr>tls_InsecureSkipVerify := True\<rparr>)), s)
         else let dirPath = CustomCertificatePath @ secretRotatorName
              in if_err (client_certificates pf dirPath cfg s) ret_err (\<lambda>cfg s.
                 if_err (root_certificates pf dirPath cfg s) ret_err (\<lambda>cfg s. (Ok (Some cfg), s))))"

text \<open>The loop that copies the signed headers; \<open>v[0]\<close> panics on a header without values.\<close>

fun copy_headers :: "http_header \<Rightarrow> string list \<Rightarrow> http_header \<Rightarrow> http_header outcome" where
  "copy_headers src [] hdr = Ok hdr"
| "copy_headers src (k # ks) hdr =
     (case map_get [] src k of
        [] \<Rightarrow> Panic ''index out of range''
      | v # _ \<Rightarrow> copy_headers src ks (header_Add k v hdr))"

definition createArtifactoryToken ::
    "'w platform \<Rightarrow> http_request \<Rightarrow> string \<Rightarrow> int option \<Rightarrow> SecurityDetails \<Rightarrow> string \<Rightarrow> 'w state \<Rightarrow>
     (string \<times> string) outcome \<times> 'w state" where
  "createArtifactoryToken pf request artifactoryUrl secretTTL securityDetails secretRotatorName s =
     (case secretTTL of
        None \<Rightarrow> (nil_deref, s)
      | Some ttl \<Rightarrow>
         let url = ''https://'' @ artifactoryUrl @ tokenEndpoint;
             requestBody = ''{'' @ [CHR 0x22] @ ''expires_in'' @ [CHR 0x22] @ '': '' @ FormatInt ttl @ ''}''
         in if_err (http_NewRequest ''POST'' url (bytes_of requestBody), s)
              (\<lambda>err s. (Err (ReconcileError Minute ''Error constructing artifactory request'' (Some err)), s)) (\<lambda>req s.
            if_err (copy_headers (r_Header request) (range_keys pf (r_Header request) s)
                      (header_Set ''Content-Type'' ''application/json'' (r_Header req)), s) ret_err (\<lambda>hdr s.
            let req = req\<lparr>r_Header := hdr\<rparr>
            in if_err (createCustomHTTPClient pf securityDetails secretRotatorName s)
              (\<lambda>err s. (Err (ReconcileError Minute ''Error in intialising custom HTTP client with TLS configuration'' (Some err)), s))
              (\<lambda>client s.
            if_err (call (pf_Do pf client req) (DoCall client req) s)
              (\<lambda>err s. (Err (ReconcileError Minute ''Error sending artifactory create token request'' (Some err)), s)) (\<lambda>resp s.
            if resp_StatusCode resp \<noteq> 200 then
              (Err (ReconcileError Minute (''Error getting artifactory token request, token creation to '' @ url @
                 '' returned '' @ FormatInt (resp_StatusCode resp) @ '' response'') None), s)
            else if_err (pf_DecodeAccess pf (resp_Body resp), s)
              (\<lambda>err s. (Err (ReconcileError Minute ''Error reading artifactory response'' None), s))
              (\<lambda>myResponse s. (Ok (ar_Username myResponse, ar_AccessToken myResponse), s)))))))"

text \<open>
  The choice of the authentication flow.  The result is the signed request; \<open>AuthType\<close> of the token
  details records the flow that was used.
\<close>

definition signed_request ::
    "'w platform \<Rightarrow> ServiceAccount \<Rightarrow> string \<Rightarrow> 'w state \<Rightarrow> http_request outcome \<times> 'w state" where
  "signed_request pf serviceAccount clientset s =
     (let configured = sp_AuthType (sr_Spec (s_sr s));
          configuredAuthType = (if configured = [] then AutoAuthType else configured);
          s = upd_td (\<lambda>t. t\<lparr>td_AuthType := configuredAuthType\<rparr>) s
      in if configuredAuthType \<in> {PodIdentityAuthType, AutoAuthType} \<and> DetectPodIdentity pf s
         then if_err (GetSignedRequestForPodIdentity pf s) ret_err
                (\<lambda>request s. (Ok request, upd_td (\<lambda>t. t\<lparr>td_AuthType := PodIdentityAuthType\<rparr>) s))
         else if configuredAuthType \<in> {WebIdentityAuthType, AutoAuthType}
         then if_err (GetSignedRequestForWebIdentity pf serviceAccount clientset s) ret_err
                (\<lambda>request s. (Ok request, upd_td (\<lambda>t. t\<lparr>td_AuthType := WebIdentityAuthType\<rparr>) s))
         else (Err (FmtError ''failed to get correct auth (auto, podIdentity or webIdentity) or missing pod identity environments for podIdentity auth type'' None),
               record_call (EventfCall ''Error'' ''Misconfiguration''
                 (''failed to get the correct auth type ('' @ configuredAuthType @ '') from secretRotator.spec.authType or missing Pod Identity environment (Pod Identity detected: '' @
                  (if DetectPodIdentity pf s then ''true'' else ''false'') @ '')'') []) s))"

text \<open>The defaulting of the service account in the custom resource, in place.\<close>

definition default_account :: "'w state \<Rightarrow> 'w state" where
  "default_account s =
     (let sa = sp_ServiceAccount (sr_Spec (s_sr s));
          sa = (if sad_Name sa = [] then sa\<lparr>sad_Name := td_DefaultServiceAccountName (s_td s)\<rparr> else sa);
          sa = (if sad_Namespace sa = [] then sa\<lparr>sad_Namespace := td_DefaultServiceAccountNamespace (s_td s)\<rparr> else sa)
      in upd_sr (\<lambda>r. r\<lparr>sr_Spec := (sr_Spec r)\<lparr>sp_ServiceAccount := sa\<rparr>\<rparr>) s)"

definition ttl_warning :: "int \<Rightarrow> 'w state \<Rightarrow> 'w state" where
  "ttl_warning ttl s =
     (case sp_RefreshInterval (sr_Spec (s_sr s)) of
        None \<Rightarrow> s
      | Some d \<Rightarrow>
          if of_int ttl < Duration_Seconds d
          then record_call (EventfCall ''Warning'' ''TokenGenerationFailure''
                 (''The token TTL taken from Role max session value ('' @ FormatInt ttl @
                  ''), is shorter then reconciliation duration set through operator refreshTime ('' @ Duration_String d @
                  ''), which is a misconfiguration causing token expire events'') []) s
          else s)"

text \<open>The part of \<open>HandlingToken\<close> after the request is signed.\<close>

definition finish_token :: "'w platform \<Rightarrow> http_request \<Rightarrow> 'w state \<Rightarrow> unit outcome \<times> 'w state" where
  "finish_token pf request s =
     (case td_RoleMaxSessionDuration (s_td s) of
        None \<Rightarrow> (nil_deref, s)
      | Some ttl \<Rightarrow>
          let s1 = ttl_warning ttl (upd_td (\<lambda>t. t\<lparr>td_TTLInSeconds := ttl\<rparr>) s)
          in if_err (createArtifactoryToken pf request (td_ArtifactoryUrl (s_td s1)) (Some ttl)
                       (sp_Security (sr_Spec (s_sr s1))) (sr_name (s_sr s1)) s1)
               (\<lambda>err s. (Err err, record_call (EventfCall ''Warning'' ''Misconfiguration''
                  (''could not get artifactory Token, notice we might ran into expired tokens if this persists, error was '' @ Error err) [])
                  (upd_td (\<lambda>t. t\<lparr>td_Username := [], td_Token := []\<rparr>) s)))
               (\<lambda>(username, token) s. (Ok (), upd_td (\<lambda>t. t\<lparr>td_Username := username, td_Token := token\<rparr>) s)))"

definition HandlingToken :: "'w platform \<Rightarrow> 'w state \<Rightarrow> unit outcome \<times> 'w state" where
  "HandlingToken pf s =
     (if td_Token (s_td s) \<noteq> [] then (Ok (), s)
      else let s = default_account s;
               sa = sp_ServiceAccount (sr_Spec (s_sr s))
      in if_err (GetK8sClient pf s)
           (\<lambda>err s. (Err err, record_call (EventfCall ''Warning'' ''Misconfiguration''
              (''failed to initialise k8s client, error: '' @ Error err) []) s)) (\<lambda>clientset s.
         if_err (call (pf_GetServiceAccount pf clientset (sad_Namespace sa) (sad_Name sa))
                   (GetServiceAccountCall (sad_Namespace sa) (sad_Name sa)) s)
           (\<lambda>err s. (Err err, record_call (EventfCall ''Warning'' ''Misconfiguration''
              (''failed to get service account '' @ sad_Name sa @ '' from '' @ sad_Namespace sa @
               '' namespace, error: '' @ Error err) []) s)) (\<lambda>serviceAccount s.
         if_err (signed_request pf serviceAccount clientset s) ret_err (finish_token pf))))"

section \<open>Role names\<close>

lemma Index_marker:
  "CHR ''/'' \<notin> set pre \<Longrightarrow> Index (pre @ assumed_role_marker @ rest) assumed_role_marker = Some (length pre)"
proof (induction pre)
  case Nil
  then show ?case by (cases rest) (simp_all add: assumed_role_marker_def HasPrefix_def)
next
  case (Cons c pre)
  have "\<not> HasPrefix (c # pre @ assumed_role_marker @ rest) assumed_role_marker"
  proof
    assume "HasPrefix (c # pre @ assumed_role_marker @ rest) assumed_role_marker"
    then obtain t where t: "c # pre @ assumed_role_marker @ rest = assumed_role_marker @ t"
      by (auto simp: HasPrefix_iff)
    have "takeWhile (\<lambda>x. x \<noteq> CHR ''/'') ((c # pre) @ assumed_role_marker @ rest) = (c # pre) @ '':assumed-role''"
      using Cons.prems by (subst takeWhile_append2) (auto simp: assumed_role_marker_def)
    moreover have "takeWhile (\<lambda>x. x \<noteq> CHR ''/'') (assumed_role_marker @ t) = '':assumed-role''"
      by (simp add: assumed_role_marker_def)
    ultimately have "(c # pre) @ '':assumed-role'' = '':assumed-role''"
      using t by (metis append_Cons)
    then show False by (simp only: append_self_conv2) simp
  qed
  then show ?case using Cons by simp
qed

lemma assumed_role_arn:
  assumes "CHR ''/'' \<notin> set pre" "CHR ''/'' \<notin> set session"
  shows "assumedRoleSTSArnToIAMRoleARN (pre @ '':assumed-role/'' @ role @ ''/'' @ session) acct =
    Ok (''arn:aws:iam::'' @ acct @ '':role/'' @ role)"
proof -
  have "Index (pre @ assumed_role_marker @ role @ ''/'' @ session) assumed_role_marker = Some (length pre)"
    by (rule Index_marker [OF assms(1)])
  moreover have "LastIndexByte (role @ ''/'' @ session) (CHR ''/'') = Some (length role)"
    using LastIndexByte_append [OF assms(2), of role] by simp
  ultimately show ?thesis
    by (simp add: assumedRoleSTSArnToIAMRoleARN_def assumed_role_marker_def Let_def)
qed

lemma role_of_arn:
  assumes "CHR ''/'' \<notin> set acct"
  shows "Split (''arn:aws:iam::'' @ acct @ '':role/'' @ role) (CHR ''/'') =
    (''arn:aws:iam::'' @ acct @ '':role'') # Split role (CHR ''/'')"
proof -
  have "CHR ''/'' \<notin> set (''arn:aws:iam::'' @ acct @ '':role'')" using assms by simp
  from Split_append [OF this, of role] show ?thesis by simp
qed

section \<open>Headers of the token request\<close>

text \<open>
  Copying headers with canonical names and one value each adds exactly these, whatever the order.
\<close>

definition plain_header :: "http_header \<Rightarrow> bool" where
  "plain_header h \<longleftrightarrow> wf_map h \<and> (\<forall>(k, vs) \<in> set h. CanonicalMIMEHeaderKey k = k \<and> length vs = 1)"

lemma plain_header_get:
  "plain_header h \<Longrightarrow> k \<in> fst ` set h \<Longrightarrow> \<exists>v. map_get [] h k = [v] \<and> CanonicalMIMEHeaderKey k = k"
proof -
  assume h: "plain_header h" and k: "k \<in> fst ` set h"
  then obtain vs where "(k, vs) \<in> set h" by auto
  with h have "map_of h k = Some vs" "length vs = 1" "CanonicalMIMEHeaderKey k = k"
    by (auto simp: plain_header_def)
  then show ?thesis by (auto simp: map_get_def length_Suc_conv)
qed

lemma copy_headers_plain:
  assumes "plain_header src" "distinct ks" "set ks \<subseteq> fst ` set src"
  shows "\<exists>h. copy_headers src ks hdr = Ok h \<and>
    (\<forall>k. map_get [] h k = map_get [] hdr k @ (if k \<in> set ks then map_get [] src k else []))"
  using assms(2,3)
proof (induction ks arbitrary: hdr)
  case (Cons k ks)
  then obtain v where v: "map_get [] src k = [v]" "CanonicalMIMEHeaderKey k = k"
    using plain_header_get [OF assms(1)] by force
  from Cons obtain h where "copy_headers src ks (header_Add k v hdr) = Ok h"
    "\<forall>k'. map_get [] h k' = map_get [] (header_Add k v hdr) k' @ (if k' \<in> set ks then map_get [] src k' else [])"
    by force
  with v Cons.prems(1) show ?case by (auto simp: header_Add_def Let_def)
qed simp

lemma sts_headers_plain: "plain_header (sts_headers auth now token)"
proof -
  have "CanonicalMIMEHeaderKey ''Host'' = ''Host''" "CanonicalMIMEHeaderKey ''Authorization'' = ''Authorization''"
    by code_simp+
  then show ?thesis
    using key_canonical by (auto simp: plain_header_def sts_headers_def v4_consts signer_consts)
qed

section \<open>What obtaining a token leaves alone\<close>

text \<open>
  The token handler changes the credentials in the token details and the service account in the
  resource; it makes no call on a secret.
\<close>

fun on_secret :: "api_call \<Rightarrow> bool" where
  "on_secret (GetSecretCall _ _ _) = True"
| "on_secret (DeleteSecretCall _ _ _) = True"
| "on_secret (UpdateSecretCall _ _) = True"
| "on_secret (CreateSecretCall _ _) = True"
| "on_secret _ = False"

definition no_account :: "SecretRotatorSpec \<Rightarrow> SecretRotatorSpec" where
  "no_account spec = spec\<lparr>sp_ServiceAccount := \<lparr>sad_Name = [], sad_Namespace = []\<rparr>\<rparr>"

lemma no_account_fields:
  assumes "no_account a = no_account b"
  shows "sp_RefreshInterval a = sp_RefreshInterval b" "sp_ArtifactoryUrl a = sp_ArtifactoryUrl b"
    "sp_ArtifactorySubdomains a = sp_ArtifactorySubdomains b" "sp_SecretMetadata a = sp_SecretMetadata b"
    "sp_Security a = sp_Security b"
  using arg_cong [OF assms, of sp_RefreshInterval] arg_cong [OF assms, of sp_ArtifactoryUrl]
    arg_cong [OF assms, of sp_ArtifactorySubdomains] arg_cong [OF assms, of sp_SecretMetadata]
    arg_cong [OF assms, of sp_Security]
  by (simp_all add: no_account_def)

definition token_frame :: "'w state \<Rightarrow> 'w state \<Rightarrow> bool" where
  "token_frame s s' \<longleftrightarrow>
     td_GeneratedSecrets (s_td s') = td_GeneratedSecrets (s_td s) \<and>
     td_ArtifactoryUrl (s_td s') = td_ArtifactoryUrl (s_td s) \<and>
     td_NamespaceList (s_td s') = td_NamespaceList (s_td s) \<and>
     td_NamespaceSelector (s_td s') = td_NamespaceSelector (s_td s) \<and>
     td_FailedNamespaces (s_td s') = td_FailedNamespaces (s_td s) \<and>
     td_ProvisionedNamespaces (s_td s') = td_ProvisionedNamespaces (s_td s) \<and>
     td_SecretManagedByNamespaces (s_td s') = td_SecretManagedByNamespaces (s_td s) \<and>
     sr_Meta (s_sr s') = sr_Meta (s_sr s) \<and> sr_Status (s_sr s') = sr_Status (s_sr s) \<and>
     no_account (sr_Spec (s_sr s')) = no_account (sr_Spec (s_sr s)) \<and>
     (\<exists>cs. s_calls s' = s_calls s @ cs \<and> list_all (\<lambda>c. \<not> on_secret c) cs)"

interpretation tf: step_rel token_frame
proof
  show "token_frame s s" for s by (simp add: token_frame_def)
  fix s s' s'' :: "'a state"
  assume a: "token_frame s s'" and b: "token_frame s' s''"
  obtain cs ds where "s_calls s' = s_calls s @ cs" "list_all (\<lambda>c. \<not> on_secret c) cs"
    "s_calls s'' = s_calls s' @ ds" "list_all (\<lambda>c. \<not> on_secret c) ds"
    using a b unfolding token_frame_def by blast
  then have "\<exists>es. s_calls s'' = s_calls s @ es \<and> list_all (\<lambda>c. \<not> on_secret c) es"
    by (intro exI [of _ "cs @ ds"]) simp
  then show "token_frame s s''" using a b by (simp add: token_frame_def)
qed

lemma tf_call: "(\<And>r. \<not> on_secret (c r)) \<Longrightarrow> token_frame s (snd (call f c s))"
  by (simp add: token_frame_def call_def case_prod_beta Let_def)

lemma tf_record: "\<not> on_secret c \<Longrightarrow> token_frame s (record_call c s)"
  by (simp add: token_frame_def record_call_def)

lemma tf_credentials:
  "token_frame s (upd_td (\<lambda>t. t\<lparr>td_RoleMaxSessionDuration := d\<rparr>) s)"
  "token_frame s (upd_td (\<lambda>t. t\<lparr>td_AuthType := a\<rparr>) s)"
  "token_frame s (upd_td (\<lambda>t. t\<lparr>td_TTLInSeconds := n\<rparr>) s)"
  "token_frame s (upd_td (\<lambda>t. t\<lparr>td_Username := u, td_Token := v\<rparr>) s)"
  "token_frame s (s\<lparr>s_cache := c\<rparr>)"
  by (simp_all add: token_frame_def)

lemma tf_default_account: "token_frame s (default_account s)"
  by (simp add: default_account_def token_frame_def Let_def no_account_def)

lemma tf_k8s: "token_frame s (snd (GetK8sClient pf s))"
  by (simp add: GetK8sClient_def split: outcome.split)

lemma tf_sign: "token_frame s (snd (sign_sts pf creds s))"
  by (simp add: sign_sts_def case_prod_beta Let_def tf_credentials)

lemmas tf_intros = tf.if_err_rel tf_call tf_k8s tf_sign

lemma tf_max_session: "token_frame s (snd (GetMaxSession pf arn creds n ns s))"
  by (auto simp: GetMaxSession_def load_config_def Let_def intro!: tf_intros split: option.split)

lemma tf_max_session_cached: "token_frame s (snd (GetMaxSessionWithCredentialCache pf arn creds s))"
  by (auto simp: GetMaxSessionWithCredentialCache_def load_config_def Let_def intro!: tf_intros split: option.split)

lemma tf_set_max_session: "token_frame s (snd r) \<Longrightarrow> token_frame s (snd (set_max_session r))"
  by (auto simp: set_max_session_def tf_credentials intro!: tf_intros)

lemma tf_web_signed: "token_frame s (snd (GetSignedRequestAndHandleRoleMaxSession pf arn t n ns s))"
  by (auto simp: GetSignedRequestAndHandleRoleMaxSession_def load_config_def Let_def
      intro!: tf_intros tf_set_max_session tf_max_session split: prod.split)

lemma tf_web: "token_frame s (snd (GetSignedRequestForWebIdentity pf sa cs s))"
  by (auto simp: GetSignedRequestForWebIdentity_def Let_def tf_record intro!: tf_intros tf_web_signed)

lemma tf_resolve: "token_frame s (snd (ResolveIAMRoleARNFromPodIdentityCredentials pf region c s))"
  by (auto simp: ResolveIAMRoleARNFromPodIdentityCredentials_def load_config_def Let_def
      intro!: tf_intros tf_max_session_cached split: option.split prod.split)

lemma tf_pod: "token_frame s (snd (GetSignedRequestForPodIdentity pf s))"
  by (auto simp: GetSignedRequestForPodIdentity_def Let_def intro!: tf_intros tf_set_max_session tf_resolve)

lemma tf_signed_request: "token_frame s (snd (signed_request pf sa cs s))"
proof -
  define a where "a = (if sp_AuthType (sr_Spec (s_sr s)) = [] then AutoAuthType else sp_AuthType (sr_Spec (s_sr s)))"
  have "token_frame (upd_td (\<lambda>t. t\<lparr>td_AuthType := a\<rparr>) s) (snd (signed_request pf sa cs s))"
    unfolding signed_request_def Let_def a_def [symmetric]
    by (auto intro!: tf.if_err_rel tf_pod tf_web tf_record tf_credentials)
  then show ?thesis by (rule tf.trans [OF tf_credentials(2)])
qed

lemma tf_client: "token_frame s (snd (createCustomHTTPClient pf sec n s))"
  by (auto simp: createCustomHTTPClient_def client_certificates_def root_certificates_def Let_def intro!: tf_intros)

lemma tf_create_token: "token_frame s (snd (createArtifactoryToken pf req url ttl sec n s))"
  by (auto simp: createArtifactoryToken_def Let_def intro!: tf_intros tf_client split: option.split)

lemma tf_ttl_warning: "token_frame s (ttl_warning ttl s)"
  by (simp add: ttl_warning_def tf_record split: option.split)

lemma tf_finish: "token_frame s (snd (finish_token pf req s))"
proof (cases "td_RoleMaxSessionDuration (s_td s)")
  case (Some ttl)
  define s1 where "s1 = ttl_warning ttl (upd_td (\<lambda>t. t\<lparr>td_TTLInSeconds := ttl\<rparr>) s)"
  have "token_frame s s1"
    unfolding s1_def by (rule tf.trans [OF tf_credentials(3) tf_ttl_warning])
  moreover have "token_frame s1 (snd (finish_token pf req s))"
    unfolding finish_token_def Some option.case Let_def s1_def [symmetric]
    by (auto intro!: tf.if_err_rel tf_create_token tf.trans [OF tf_credentials(4) tf_record] tf_credentials
        split: prod.split)
  ultimately show ?thesis by (rule tf.trans)
qed (simp add: finish_token_def)

lemma tf_HandlingToken: "token_frame s (snd (HandlingToken pf s))"
proof (cases "td_Token (s_td s) = []")
  case True
  have "token_frame (default_account s) (snd (HandlingToken pf s))"
    unfolding HandlingToken_def Let_def
    by (auto simp: True intro!: tf.if_err_rel tf_k8s tf_call tf_signed_request tf_finish tf_record)
  then show ?thesis by (rule tf.trans [OF tf_default_account])
qed (simp add: HandlingToken_def)

section \<open>Results\<close>

lemma signed_request_auth:
  assumes "signed_request pf sa cs s = (Ok req, s')"
  shows "let a = sp_AuthType (sr_Spec (s_sr s))
    in (DetectPodIdentity pf s \<and> a \<in> {[], AutoAuthType, PodIdentityAuthType} \<and> td_AuthType (s_td s') = PodIdentityAuthType) \<or>
       (a \<in> {[], AutoAuthType} \<and> \<not> DetectPodIdentity pf s \<and> td_AuthType (s_td s') = WebIdentityAuthType) \<or>
       (a = WebIdentityAuthType \<and> td_AuthType (s_td s') = WebIdentityAuthType)"
proof -
  have d: "DetectPodIdentity pf (upd_td f s) = DetectPodIdentity pf s" for f
    by (simp add: DetectPodIdentity_def)
  show ?thesis
    using assms unfolding signed_request_def Let_def
    by (auto simp: d auth_types split: if_splits if_err_split_asm)
qed

lemma HandlingToken_ttl:
  assumes "HandlingToken pf s = (Ok (), s')" "td_Token (s_td s) = []"
  shows "td_RoleMaxSessionDuration (s_td s') = Some (td_TTLInSeconds (s_td s'))"
proof -
  obtain req s1 where f: "finish_token pf req s1 = (Ok (), s')"
    using assms unfolding HandlingToken_def Let_def by (auto split: if_err_split_asm)
  obtain ttl where ttl: "td_RoleMaxSessionDuration (s_td s1) = Some ttl"
    using f by (auto simp: finish_token_def split: option.splits)
  define s2 where "s2 = ttl_warning ttl (upd_td (\<lambda>t. t\<lparr>td_TTLInSeconds := ttl\<rparr>) s1)"
  have s2: "td_RoleMaxSessionDuration (s_td s2) = Some ttl" "td_TTLInSeconds (s_td s2) = ttl"
    using ttl by (auto simp: s2_def ttl_warning_def record_call_def split: option.split)
  have "keeps s2 (snd (createArtifactoryToken pf req (td_ArtifactoryUrl (s_td s2)) (Some ttl)
      (sp_Security (sr_Spec (s_sr s2))) (sr_name (s_sr s2)) s2))"
    by (auto simp: createArtifactoryToken_def createCustomHTTPClient_def client_certificates_def
        root_certificates_def Let_def intro!: kp.if_err_rel)
  then show ?thesis
    using f s2 unfolding finish_token_def ttl option.case Let_def s2_def [symmetric]
    by (auto simp: keeps_def split: if_err_split_asm)
qed

lemma http_NewRequest_fields:
  "http_NewRequest m u b = Ok r \<Longrightarrow> m \<noteq> [] \<Longrightarrow> r_Method r = m \<and> r_Body r = b \<and> r_Header r = []"
  by (auto simp: http_NewRequest_def Let_def split: outcome.splits if_splits)

lemma createCustomHTTPClient_state: "snd (createCustomHTTPClient pf sec n s) = s"
proof -
  have "snd (client_certificates pf d cfg s) = s" "snd (root_certificates pf d cfg s) = s" for d cfg
    by (auto simp: client_certificates_def root_certificates_def Let_def split: if_err_split)
  then show ?thesis
    by (auto simp: createCustomHTTPClient_def Let_def split: if_err_split) (metis snd_conv)+
qed

lemma content_type_canonical: "CanonicalMIMEHeaderKey ''Content-Type'' = ''Content-Type''"
  by code_simp

text \<open>The request that Artifactory receives.\<close>

definition token_request_ok :: "http_request \<Rightarrow> int \<Rightarrow> http_request \<Rightarrow> bool" where
  "token_request_ok signed_req d req \<longleftrightarrow> r_Method req = ''POST'' \<and>
    r_Body req = bytes_of (''{'' @ [CHR 0x22] @ ''expires_in'' @ [CHR 0x22] @ '': '' @ FormatInt d @ ''}'') \<and>
    (\<forall>k. map_get [] (r_Header req) k =
       (if k = ''Content-Type'' then [''application/json''] else []) @ map_get [] (r_Header signed_req) k)"

lemma copied_request_ok:
  assumes "plain_header (r_Header signed_req)" "http_NewRequest ''POST'' url
      (bytes_of (''{'' @ [CHR 0x22] @ ''expires_in'' @ [CHR 0x22] @ '': '' @ FormatInt d @ ''}'')) = Ok req"
  shows "\<exists>h. copy_headers (r_Header signed_req) (range_keys pf (r_Header signed_req) s)
      (header_Set ''Content-Type'' ''application/json'' (r_Header req)) = Ok h \<and>
      token_request_ok signed_req d (req\<lparr>r_Header := h\<rparr>)"
proof -
  note req = http_NewRequest_fields [OF assms(2)]
  have "distinct (range_keys pf (r_Header signed_req) s)"
    using mset_range_keys assms(1) unfolding plain_header_def by (metis mset_eq_imp_distinct_iff)
  from copy_headers_plain [OF assms(1) this, of "header_Set ''Content-Type'' ''application/json'' (r_Header req)"]
  obtain h where h: "copy_headers (r_Header signed_req) (range_keys pf (r_Header signed_req) s)
      (header_Set ''Content-Type'' ''application/json'' (r_Header req)) = Ok h"
    "\<forall>k. map_get [] h k = map_get [] (header_Set ''Content-Type'' ''application/json'' (r_Header req)) k @
      (if k \<in> fst ` set (r_Header signed_req) then map_get [] (r_Header signed_req) k else [])"
    by auto
  moreover have "map_get [] (r_Header signed_req) k = []" if "k \<notin> fst ` set (r_Header signed_req)" for k
    using that by (simp add: map_get_def map_of_eq_None_iff [THEN iffD2])
  ultimately show ?thesis
    using req by (auto simp: token_request_ok_def header_Set_def content_type_canonical map_get_Cons)
qed

text \<open>
  Where it is sent: to the token endpoint of the host, over https.  For a host name written in letters,
  digits, hyphens and dots the parts of the URL are spelled out; in general it is what \<open>net/url\<close> makes
  of the text.
\<close>

definition plain_host :: "string \<Rightarrow> bool" where
  "plain_host h \<longleftrightarrow> h \<noteq> [] \<and> list_all (\<lambda>c. is_alnum c \<or> c = CHR ''-'' \<or> c = CHR ''.'') h"

definition sent_to :: "string \<Rightarrow> http_request \<Rightarrow> bool" where
  "sent_to host req \<longleftrightarrow> u_Scheme (r_URL req) = ''https'' \<and> r_Host req = u_Host (r_URL req) \<and>
     (\<exists>u. url_Parse (''https://'' @ host @ ''/access/api/v1/aws/token'') = Ok u \<and>
        r_URL req = u\<lparr>u_Host := removeEmptyPort (u_Host u)\<rparr>) \<and>
     (plain_host host \<longrightarrow> u_Host (r_URL req) = host \<and> u_Path (r_URL req) = ''/access/api/v1/aws/token'' \<and>
        u_RawQuery (r_URL req) = [])"

text \<open>How: with the default client when security is off, and skipping the verification of the server only when asked to.\<close>

definition client_as_configured :: "SecurityDetails \<Rightarrow> http_client \<Rightarrow> bool" where
  "client_as_configured sec client \<longleftrightarrow>
     (if \<not> sec_Enabled sec then client = None
      else \<exists>cfg. client = Some cfg \<and> tls_InsecureSkipVerify cfg = sec_InsecureSkipVerify sec)"

lemma http_NewRequest_url:
  "http_NewRequest m u b = Ok r \<Longrightarrow>
   \<exists>x. url_Parse u = Ok x \<and> r_URL r = x\<lparr>u_Host := removeEmptyPort (u_Host x)\<rparr> \<and> r_Host r = u_Host (r_URL r)"
  by (auto simp: http_NewRequest_def Let_def split: outcome.splits if_splits)

lemma getScheme_https: "getScheme [] (''https:'' @ r) = Some (''https'', r)"
  by (simp add: is_alnum_def less_eq_char_def)

lemma Cut_fst_append: "c \<notin> set a \<Longrightarrow> fst (Cut (a @ b) c) = a @ fst (Cut b c)"
  by (induction a) (auto simp: Cut_def split: option.splits)

lemma Cut_absent: "c \<notin> set a \<Longrightarrow> Cut a c = (a, [])"
  by (simp add: Cut_def IndexByte_None_iff [THEN iffD2])

lemma setPath_scheme: "setPath p u = Some v \<Longrightarrow> u_Scheme v = u_Scheme u"
  by (auto simp: setPath_def split: option.splits)

lemma url_Parse_https:
  assumes "url_Parse (''https://'' @ r) = Ok u"
  shows "u_Scheme u = ''https''"
proof -
  obtain r' where cut: "fst (Cut (''https://'' @ r) (CHR ''#'')) = ''https:'' @ (''//'' @ r')"
    using Cut_fst_append [of "CHR ''#''" "''https://''" r] by simp
  have "ToLower ''https'' = ''https''" by code_simp
  with assms show ?thesis
    unfolding url_Parse_def Let_def cut getScheme_https
    by (auto simp: Cut_fst_append split: if_splits option.splits prod.splits dest!: setPath_scheme)
qed

lemma plain_host_chars:
  assumes "plain_host h"
  shows "list_all host_char h" "\<not> list_ex is_ctl h" "set h \<inter> set ''/?#[]:%'' = {}"
proof -
  have c: "host_char c \<and> \<not> is_ctl c \<and> c \<notin> set ''/?#[]:%''" if "is_alnum c \<or> c = CHR ''-'' \<or> c = CHR ''.''" for c
    using that by (auto simp: host_char_def is_ctl_def is_alnum_def less_eq_char_def less_char_def)
  then show "list_all host_char h" "\<not> list_ex is_ctl h" "set h \<inter> set ''/?#[]:%'' = {}"
    using assms unfolding plain_host_def list_all_iff list_ex_iff by blast+
qed

lemma url_Parse_plain:
  assumes "plain_host h"
  shows "url_Parse (''https://'' @ h @ ''/access/api/v1/aws/token'') =
    Ok \<lparr>u_Scheme = ''https'', u_Opaque = [], u_Host = h, u_Path = ''/access/api/v1/aws/token'', u_RawPath = [], u_RawQuery = []\<rparr>"
proof -
  note h = plain_host_chars [OF assms]
  let ?p = "''/access/api/v1/aws/token''"
  have abs: "CHR ''#'' \<notin> set h" "CHR ''?'' \<notin> set h" "CHR ''/'' \<notin> set h" "CHR '':'' \<notin> set h" "CHR '']'' \<notin> set h"
    using h(3) by auto
  have cut: "fst (Cut (''https://'' @ h @ ?p) (CHR ''#'')) = ''https:'' @ (''//'' @ h @ ?p)"
    "Cut (''//'' @ h @ ?p) (CHR ''?'') = (''//'' @ h @ ?p, [])"
    using abs by (simp_all add: Cut_absent)
  have ctl: "\<not> list_ex is_ctl (''https:'' @ (''//'' @ h @ ?p))"
    using h(2) by simp (simp add: is_ctl_def less_char_def)
  have slash: "IndexByte (h @ ?p) (CHR ''/'') = Some (length h)"
    using IndexByte_append [OF abs(3), of "''access/api/v1/aws/token''"] by simp
  have host: "parseHost h = Some h"
  proof -
    have "\<not> HasPrefix h ''[''" "LastIndexByte h (CHR '':'') = None"
      using h(3) by (auto simp: HasPrefix_iff LastIndexByte_None_iff)
    then show ?thesis using h(1) by (simp add: parseHost_def)
  qed
  have path: "setPath ?p u = Some (u\<lparr>u_Path := ?p, u_RawPath := []\<rparr>)" for u :: go_url
  proof -
    have "unescape encodePath ?p = Some ?p" "escape encodePath ?p = ?p" by code_simp+
    then show ?thesis by (simp add: setPath_def)
  qed
  have "ToLower ''https'' = ''https''" by code_simp
  then show ?thesis
    unfolding url_Parse_def Let_def cut(1) getScheme_https option.case prod.case cut(2)
    using ctl slash host path by (simp add: HasPrefix_def del: unescape.simps)
qed

lemma removeEmptyPort_plain: "plain_host h \<Longrightarrow> removeEmptyPort h = h"
  using plain_host_chars(3) [of h] by (auto simp: removeEmptyPort_def LastIndexByte_None_iff [THEN iffD2])

lemma http_NewRequest_sent_to:
  assumes "http_NewRequest m (''https://'' @ host @ tokenEndpoint) b = Ok r"
  shows "sent_to host (r\<lparr>r_Header := h\<rparr>)"
proof -
  obtain x where x: "url_Parse (''https://'' @ host @ ''/access/api/v1/aws/token'') = Ok x"
    "r_URL r = x\<lparr>u_Host := removeEmptyPort (u_Host x)\<rparr>" "r_Host r = u_Host (r_URL r)"
    using http_NewRequest_url [OF assms] unfolding tokenEndpoint_def by blast
  moreover have "u_Scheme x = ''https''" using x(1) by (rule url_Parse_https)
  ultimately show ?thesis
    using url_Parse_plain [of host] removeEmptyPort_plain [of host] by (auto simp: sent_to_def)
qed

lemma createCustomHTTPClient_configured:
  "createCustomHTTPClient pf sec n s = (Ok client, s') \<Longrightarrow> client_as_configured sec client"
  by (auto simp: createCustomHTTPClient_def client_as_configured_def client_certificates_def root_certificates_def Let_def
      split: if_splits if_err_split_asm)

lemma createArtifactoryToken_sends:
  assumes ok: "createArtifactoryToken pf request url ttl sec n s = (Ok (u, t), s')"
    and plain: "plain_header (r_Header request)"
  shows "\<exists>d client req resp ar. ttl = Some d \<and> token_request_ok request d req \<and>
    s_calls s' = s_calls s @ [DoCall client req (Ok resp)] \<and>
    resp_StatusCode resp = 200 \<and> pf_DecodeAccess pf (resp_Body resp) = Ok ar \<and>
    u = ar_Username ar \<and> t = ar_AccessToken ar \<and> sent_to url req \<and> client_as_configured sec client"
proof -
  obtain d where d: "ttl = Some d" using ok by (cases ttl) (auto simp: createArtifactoryToken_def)
  let ?b = "bytes_of (''{'' @ [CHR 0x22] @ ''expires_in'' @ [CHR 0x22] @ '': '' @ FormatInt d @ ''}'')"
  let ?u = "''https://'' @ url @ tokenEndpoint"
  obtain req where req: "http_NewRequest ''POST'' ?u ?b = Ok req"
    using ok d by (auto simp: createArtifactoryToken_def Let_def split: if_err_split_asm)
  obtain h where h: "copy_headers (r_Header request) (range_keys pf (r_Header request) s)
      (header_Set ''Content-Type'' ''application/json'' (r_Header req)) = Ok h"
    "token_request_ok request d (req\<lparr>r_Header := h\<rparr>)"
    using copied_request_ok [OF plain req] by blast
  obtain client where c: "createCustomHTTPClient pf sec n s = (Ok client, s)"
    using ok d req h createCustomHTTPClient_state [of pf sec n s]
    by (auto simp: createArtifactoryToken_def Let_def split: if_err_split_asm)
  obtain resp w where do: "pf_Do pf client (req\<lparr>r_Header := h\<rparr>) (s_world s) = (resp, w)" by fastforce
  note sent = http_NewRequest_sent_to [OF req, of h] createCustomHTTPClient_configured [OF c]
  show ?thesis
    using ok d req h c do sent
    by (cases resp) (auto simp: createArtifactoryToken_def Let_def call_def split: if_err_split_asm if_splits)
qed

section \<open>The whole token request\<close>

text \<open>Both flows end with the signed STS request.\<close>

definition is_sts_signed :: "http_request \<Rightarrow> bool" where
  "is_sts_signed req \<longleftrightarrow> (\<exists>keyId now token sig. req = sts_signed_request keyId now token sig)"

lemma sign_sts_signed: "sign_sts pf creds s = (Ok req, s') \<Longrightarrow> is_sts_signed req"
  by (auto simp: sign_sts_def SignV4a_sts is_sts_signed_def split: outcome.splits prod.splits)

lemma signed_request_signed: "signed_request pf sa cs s = (Ok req, s') \<Longrightarrow> is_sts_signed req"
proof -
  have web: "GetSignedRequestForWebIdentity pf sa cs s = (Ok req, s') \<Longrightarrow> is_sts_signed req" for s s'
    unfolding GetSignedRequestForWebIdentity_def GetSignedRequestAndHandleRoleMaxSession_def Let_def
    by (auto dest: sign_sts_signed split: if_err_split_asm if_splits prod.splits)
  have pod: "GetSignedRequestForPodIdentity pf s = (Ok req, s') \<Longrightarrow> is_sts_signed req" for s s'
    unfolding GetSignedRequestForPodIdentity_def Let_def
    by (auto dest: sign_sts_signed split: if_err_split_asm if_splits)
  assume "signed_request pf sa cs s = (Ok req, s')"
  then show ?thesis
    unfolding signed_request_def Let_def by (auto dest: web pod split: if_err_split_asm if_splits)
qed

lemma is_sts_signed_plain: "is_sts_signed req \<Longrightarrow> plain_header (r_Header req)"
  by (auto simp: is_sts_signed_def sts_signed_request_def sts_headers_plain)

lemma HandlingToken_request:
  assumes "HandlingToken pf s = (Ok (), s')" "td_Token (s_td s) = []"
  shows "\<exists>client signed_req req resp ar.
    last (s_calls s') = DoCall client req (Ok resp) \<and> is_sts_signed signed_req \<and>
    token_request_ok signed_req (td_TTLInSeconds (s_td s')) req \<and> resp_StatusCode resp = 200 \<and>
    pf_DecodeAccess pf (resp_Body resp) = Ok ar \<and>
    td_Username (s_td s') = ar_Username ar \<and> td_Token (s_td s') = ar_AccessToken ar \<and>
    sent_to (td_ArtifactoryUrl (s_td s)) req \<and> client_as_configured (sp_Security (sr_Spec (s_sr s))) client"
proof -
  obtain cs s00 ns n sa s0 signed_req s1 where k: "GetK8sClient pf (default_account s) = (Ok cs, s00)"
    and g: "call (pf_GetServiceAccount pf cs ns n) (GetServiceAccountCall ns n) s00 = (Ok sa, s0)"
    and sg: "signed_request pf sa cs s0 = (Ok signed_req, s1)" and f: "finish_token pf signed_req s1 = (Ok (), s')"
    using assms unfolding HandlingToken_def Let_def by (auto split: if_err_split_asm)
  have "token_frame s s00" using tf.trans [OF tf_default_account tf_k8s] k by (metis snd_conv)
  moreover have "token_frame s00 s0"
    using tf_call [of "GetServiceAccountCall ns n" s00 "pf_GetServiceAccount pf cs ns n"] g by simp
  moreover have "token_frame s0 s1" using tf_signed_request [of s0 pf sa cs] sg by simp
  ultimately have s1: "token_frame s s1" by (blast intro: tf.trans)
  note signed = signed_request_signed [OF sg]
  obtain ttl where ttl: "td_RoleMaxSessionDuration (s_td s1) = Some ttl"
    using f by (auto simp: finish_token_def split: option.splits)
  define s2 where "s2 = ttl_warning ttl (upd_td (\<lambda>t. t\<lparr>td_TTLInSeconds := ttl\<rparr>) s1)"
  obtain u t s3 where c: "createArtifactoryToken pf signed_req (td_ArtifactoryUrl (s_td s2)) (Some ttl)
      (sp_Security (sr_Spec (s_sr s2))) (sr_name (s_sr s2)) s2 = (Ok (u, t), s3)"
    and s': "s' = upd_td (\<lambda>d. d\<lparr>td_Username := u, td_Token := t\<rparr>) s3"
    using f unfolding finish_token_def ttl option.case Let_def s2_def [symmetric]
    by (auto split: if_err_split_asm)
  have "keeps s2 s3"
  proof -
    have "keeps s2 (snd (createArtifactoryToken pf signed_req (td_ArtifactoryUrl (s_td s2)) (Some ttl)
        (sp_Security (sr_Spec (s_sr s2))) (sr_name (s_sr s2)) s2))"
      by (auto simp: createArtifactoryToken_def createCustomHTTPClient_state Let_def intro!: kp.if_err_rel)
    then show ?thesis using c by simp
  qed
  moreover have "td_TTLInSeconds (s_td s2) = ttl"
    by (auto simp: s2_def ttl_warning_def record_call_def split: option.split)
  ultimately have "td_TTLInSeconds (s_td s') = ttl" by (simp add: s' keeps_def)
  moreover have "token_frame s s2"
    unfolding s2_def by (rule tf.trans [OF s1 tf.trans [OF tf_credentials(3) tf_ttl_warning]])
  then have "td_ArtifactoryUrl (s_td s2) = td_ArtifactoryUrl (s_td s)" "sp_Security (sr_Spec (s_sr s2)) = sp_Security (sr_Spec (s_sr s))"
    using no_account_fields(5) unfolding token_frame_def by blast+
  ultimately show ?thesis
    using createArtifactoryToken_sends [OF c is_sts_signed_plain [OF signed]] signed s' by auto
qed

section \<open>The two flows\<close>

text \<open>The calls of the lookup of the session duration, which ends both flows.\<close>

fun role_lookup :: "api_call \<Rightarrow> bool" where
  "role_lookup (LoadDefaultConfigCall _ _) = True"
| "role_lookup (GetRoleCall _ _) = True"
| "role_lookup (GetCallerIdentityCall _) = True"
| "role_lookup _ = False"

interpretation rl: call_guard "\<lambda>_. role_lookup"
  by unfold_locales

lemma guarded_lookup: "guarded (\<lambda>_. role_lookup) s s' \<Longrightarrow> \<exists>cs. s_calls s' = s_calls s @ cs \<and> list_all role_lookup cs"
  by (auto simp: guarded_def obeys_def list_all_length)

lemma rl_call: "(\<And>r. role_lookup (c r)) \<Longrightarrow> guarded (\<lambda>_. role_lookup) s (snd (call f c s))"
  by (rule guarded_call)

lemma rl_set_max_session: "guarded (\<lambda>_. role_lookup) s (snd r) \<Longrightarrow> guarded (\<lambda>_. role_lookup) s (snd (set_max_session r))"
  by (auto simp: set_max_session_def intro!: rl.gd.if_err_rel)

lemma rl_max_session: "guarded (\<lambda>_. role_lookup) s (snd (GetMaxSession pf arn creds n ns s))"
  by (auto simp: GetMaxSession_def load_config_def Let_def intro!: rl.gd.if_err_rel rl_call split: option.split)

lemma rl_resolve: "guarded (\<lambda>_. role_lookup) s (snd (ResolveIAMRoleARNFromPodIdentityCredentials pf region c s))"
  by (auto simp: ResolveIAMRoleARNFromPodIdentityCredentials_def GetMaxSessionWithCredentialCache_def load_config_def Let_def
      intro!: rl.gd.if_err_rel rl_call split: option.split prod.split)

text \<open>The STS request signed for an access key.\<close>

definition sts_signed_by :: "string \<Rightarrow> http_request \<Rightarrow> bool" where
  "sts_signed_by keyId req \<longleftrightarrow> (\<exists>now token sig. req = sts_signed_request keyId now token sig)"

lemma sign_sts_by: "sign_sts pf creds s = (Ok req, s') \<Longrightarrow> sts_signed_by (aws_AccessKey creds) req \<and> s_calls s' = s_calls s"
  by (auto simp: sign_sts_def SignV4a_sts sts_signed_by_def retrievePrivateKey_def Let_def
      split: outcome.splits prod.splits option.splits if_splits)

text \<open>
  Web identity: a token for the resource's service account, exchanged for credentials of the role its
  annotation names.  Pod Identity: credentials answered by the endpoint the environment names.  The
  request is signed for the access key of those credentials, and nothing else is called but the lookup.
\<close>

definition signed_by_web :: "'w platform \<Rightarrow> ServiceAccount \<Rightarrow> 'w state \<Rightarrow> 'w state \<Rightarrow> http_request \<Rightarrow> bool" where
  "signed_by_web pf account s s' req \<longleftrightarrow>
     (let sa = sp_ServiceAccount (sr_Spec (s_sr s)); role = map_get [] (om_Annotations (sa_Meta account)) RoleARNKey
      in role \<noteq> [] \<and> (\<exists>token opts cfg session keyId secret sessionToken rest. s_calls s' = s_calls s @
           [CreateTokenCall (sad_Namespace sa) (sad_Name sa) [AmazonAwsSts] ServiceAccountExpirationSeconds (Ok token),
            LoadDefaultConfigCall opts (Ok cfg),
            RetrieveCall (WebIdentityRoleProvider (cfg_Source cfg) role token session) (Ok (keyId, secret, sessionToken))] @ rest \<and>
           list_all role_lookup rest \<and> sts_signed_by keyId req))"

definition signed_by_pod :: "'w platform \<Rightarrow> 'w state \<Rightarrow> 'w state \<Rightarrow> http_request \<Rightarrow> bool" where
  "signed_by_pod pf s s' req \<longleftrightarrow>
     (\<exists>plain token resp creds rest. s_calls s' = s_calls s @
        DoCall None (plain\<lparr>r_Header := header_Set ''Authorization'' (string_of token) []\<rparr>) (Ok resp) # rest \<and>
        http_NewRequest ''GET'' (pf_Getenv pf ''AWS_CONTAINER_CREDENTIALS_FULL_URI'' (s_world s)) [] = Ok plain \<and>
        pf_ReadFile pf (pf_Getenv pf ''AWS_CONTAINER_AUTHORIZATION_TOKEN_FILE'' (s_world s)) (s_world s) = Ok token \<and>
        resp_StatusCode resp = 200 \<and> pf_DecodeCredentials pf (resp_Body resp) = Ok creds \<and>
        list_all role_lookup rest \<and> sts_signed_by (cred_AccessKeyId creds) req)"

lemma web_flow:
  assumes "GetSignedRequestForWebIdentity pf account clientset s = (Ok req, s')"
  shows "signed_by_web pf account s s' req"
proof -
  let ?sa = "sp_ServiceAccount (sr_Spec (s_sr s))" and ?role = "map_get [] (om_Annotations (sa_Meta account)) RoleARNKey"
  let ?ns = "sad_Namespace ?sa" and ?n = "sad_Name ?sa"
  obtain token s1 where role: "?role \<noteq> []"
    and t: "call (pf_CreateToken pf clientset ?ns ?n [AmazonAwsSts] ServiceAccountExpirationSeconds)
        (CreateTokenCall ?ns ?n [AmazonAwsSts] ServiceAccountExpirationSeconds) s = (Ok token, s1)"
    and g: "GetSignedRequestAndHandleRoleMaxSession pf ?role token ?n ?ns s1 = (Ok req, s')"
    using assms unfolding GetSignedRequestForWebIdentity_def Let_def by (auto split: if_err_split_asm if_splits)
  obtain opts cfg s2 session keyId secret st s3 creds s4 where
    l: "load_config pf opts s1 = (Ok cfg, s2)"
    and p: "call (pf_Retrieve pf (WebIdentityRoleProvider (cfg_Source cfg) ?role token session))
        (RetrieveCall (WebIdentityRoleProvider (cfg_Source cfg) ?role token session)) s2 = (Ok (keyId, secret, st), s3)"
    and sg: "sign_sts pf creds s3 = (Ok req, s4)" "aws_AccessKey creds = keyId"
    and m: "s' = snd (set_max_session (GetMaxSession pf ?role (WebIdentityRoleProvider (cfg_Source cfg) ?role token session) ?n ?ns s4))"
    using g unfolding GetSignedRequestAndHandleRoleMaxSession_def Let_def
    by (auto split: if_err_split_asm prod.splits)
  have "guarded (\<lambda>_. role_lookup) s4 s'" unfolding m by (intro rl_set_max_session rl_max_session)
  then obtain rest where "s_calls s' = s_calls s4 @ rest" "list_all role_lookup rest" using guarded_lookup by blast
  moreover note sign_sts_by [OF sg(1)]
  moreover have "s_calls s3 = s_calls s @
      [CreateTokenCall ?ns ?n [AmazonAwsSts] ServiceAccountExpirationSeconds (Ok token), LoadDefaultConfigCall opts (Ok cfg),
       RetrieveCall (WebIdentityRoleProvider (cfg_Source cfg) ?role token session) (Ok (keyId, secret, st))]"
    using t l p by (auto simp: call_def load_config_def Let_def split: prod.splits)
  ultimately show ?thesis using role sg(2) by (auto simp: signed_by_web_def Let_def)
qed

lemma if_err_ret:
  "if_err r (\<lambda>e s. (Err (f e), s)) k = (Ok y, s') \<Longrightarrow> \<exists>x s1. r = (Ok x, s1) \<and> k x s1 = (Ok y, s')"
  by (auto split: if_err_split_asm)

lemma pod_flow:
  assumes "GetSignedRequestForPodIdentity pf s = (Ok req, s')"
  shows "signed_by_pod pf s s' req"
proof -
  let ?auth = "\<lambda>plain token. plain\<lparr>r_Header := header_Set ''Authorization'' (string_of token) (r_Header plain)\<rparr>"
  obtain plain token resp s1 where
    r: "http_NewRequest ''GET'' (pf_Getenv pf ''AWS_CONTAINER_CREDENTIALS_FULL_URI'' (s_world s)) [] = Ok plain"
      "pf_ReadFile pf (pf_Getenv pf ''AWS_CONTAINER_AUTHORIZATION_TOKEN_FILE'' (s_world s)) (s_world s) = Ok token"
    and d: "call (pf_Do pf None (?auth plain token)) (DoCall None (?auth plain token)) s = (Ok resp, s1)"
    and st: "resp_StatusCode resp = 200"
    and g: "if_err (pf_DecodeCredentials pf (resp_Body resp), s1)
       (\<lambda>err s. (Err (ReconcileError Minute ''Failed to parse Pod Identity credentials'' (Some err)), s)) (\<lambda>credResp s.
         if_err (slice_to (cred_AccessKeyId credResp) 8, s) ret_err (\<lambda>_ s.
         if_err (sign_sts pf \<lparr>aws_AccessKey = cred_AccessKeyId credResp, aws_SecretKey = cred_SecretAccessKey credResp,
                      aws_RegionName = region_or_default (s_td s), aws_SessionToken = cred_Token credResp\<rparr> s)
           (\<lambda>err s. (Err (ReconcileError Minute ''Failed to sign the STS GetCallerIdentity request using Pod Identity credentials'' (Some err)), s))
           (\<lambda>req s'. if_err (set_max_session (ResolveIAMRoleARNFromPodIdentityCredentials pf (region_or_default (s_td s)) credResp s')) ret_err
                (\<lambda>_ s. (Ok req, s))))) = (Ok req, s')"
    using assms unfolding GetSignedRequestForPodIdentity_def Let_def
    by (simp split: if_split_asm) (auto dest!: if_err_ret split: if_split_asm)
  obtain creds aws s2 region u where creds: "pf_DecodeCredentials pf (resp_Body resp) = Ok creds"
    and sg: "sign_sts pf aws s1 = (Ok req, s2)" "aws_AccessKey aws = cred_AccessKeyId creds"
    and m: "set_max_session (ResolveIAMRoleARNFromPodIdentityCredentials pf region creds s2) = (Ok u, s')"
    using g by (auto dest!: if_err_ret)
  have "guarded (\<lambda>_. role_lookup) s2 s'" using rl_set_max_session [OF rl_resolve] m by (metis snd_conv)
  then obtain rest where "s_calls s' = s_calls s2 @ rest" "list_all role_lookup rest" using guarded_lookup by blast
  moreover note sign_sts_by [OF sg(1)]
  moreover have "r_Header plain = []" using http_NewRequest_fields [OF r(1)] by simp
  moreover have "s_calls s1 = s_calls s @ [DoCall None (plain\<lparr>r_Header := header_Set ''Authorization'' (string_of token) (r_Header plain)\<rparr>) (Ok resp)]"
    using d by (auto simp: call_def Let_def split: prod.splits)
  ultimately show ?thesis using r st creds sg(2) unfolding signed_by_pod_def by (intro exI conjI) auto
qed

end
