(* ===== verification/Controller.thy ===== *)
theory Controller
  imports Handler
begin

text \<open>
  controllers: the reconciliation.  secretrotator_operations.go (initialisation, management of the
  secrets, status, conditions, finalizers, errors) and secretrotator_controller.go (\<open>Reconcile\<close> and the
  event filter for namespaces).  A request is the namespaced name \<open>(namespace, name)\<close> of a resource.
\<close>

section \<open>Conditions and finalizers\<close>

definition set_condition :: "'w platform \<Rightarrow> string \<Rightarrow> string \<Rightarrow> string \<Rightarrow> string \<Rightarrow> 'w state \<Rightarrow> 'w state" where
  "set_condition pf ctype status reason message s =
     upd_sr (\<lambda>r. r\<lparr>sr_Status := (sr_Status r)\<lparr>st_Conditions := pf_SetStatusCondition pf
        \<lparr>cd_Type = ctype, cd_Status = status, cd_Reason = reason, cd_Message = message, cd_LastTransitionTime = 0\<rparr>
        (st_Conditions (sr_Status r)) (s_world s)\<rparr>\<rparr>) s"

text \<open>The client writes the server's answer back into the object it was given.\<close>

definition status_update :: "'w platform \<Rightarrow> 'w state \<Rightarrow> unit outcome \<times> 'w state" where
  "status_update pf s = if_err (call (pf_StatusUpdate pf (s_sr s)) (StatusUpdateCall (s_sr s)) s) ret_err
     (\<lambda>r s. (Ok (), s\<lparr>s_sr := r\<rparr>))"

definition update_rotator :: "'w platform \<Rightarrow> 'w state \<Rightarrow> unit outcome \<times> 'w state" where
  "update_rotator pf s = if_err (call (pf_UpdateRotator pf (s_sr s)) (UpdateRotatorCall (s_sr s)) s) ret_err
     (\<lambda>r s. (Ok (), s\<lparr>s_sr := r\<rparr>))"

definition get_rotator :: "'w platform \<Rightarrow> string \<times> string \<Rightarrow> 'w state \<Rightarrow> unit outcome \<times> 'w state" where
  "get_rotator pf req s = if_err (call (pf_GetRotator pf req) (GetRotatorCall req) s) ret_err
     (\<lambda>r s. (Ok (), s\<lparr>s_sr := r\<rparr>))"

definition HandleConditions :: "'w platform \<Rightarrow> string \<times> string \<Rightarrow> 'w state \<Rightarrow> unit outcome \<times> 'w state" where
  "HandleConditions pf req s =
     (if st_Conditions (sr_Status (s_sr s)) = []
      then let s = set_condition pf TypeAvailableSecretRotator ''Unknown'' ''Reconciling'' ''Starting reconciliation'' s
           in if_err (status_update pf s)
                (\<lambda>err s. (Err (ReconcileError 0 (''Failed to update secretRotator status, exiting reconciliation. secret rotator: '' @
                    [CHR 0x60] @ sr_name (s_sr s) @ [CHR 0x60]) (Some err)), s)) (\<lambda>_ s.
              if_err (get_rotator pf req s)
                (\<lambda>err s. (Err (ReconcileError 0 ''Failed to re-fetch secretRotator, the reconciliation will not run'' (Some err)), s))
                (\<lambda>_ s. (Ok (), s)))
      else (Ok (), s))"

definition HandleFinalizers :: "'w platform \<Rightarrow> 'w state \<Rightarrow> unit outcome \<times> 'w state" where
  "HandleFinalizers pf s =
     (if \<not> pf_ContainsFinalizer pf (s_sr s) SecretRotatorFinalizer
      then let (ok, r) = pf_AddFinalizer pf (s_sr s) SecretRotatorFinalizer;
               s = s\<lparr>s_sr := r\<rparr>
           in if \<not> ok then (Err (ReconcileError Minute ''Failed to add finalizer into the custom resource, requeuing'' None), s)
              else if_err (update_rotator pf s)
                     (\<lambda>err s. (Err (ReconcileError Minute ''Failed to update custom resource to add finalizer, requeuing'' (Some err)), s))
                     (\<lambda>_ s. (Ok (), s))
      else (Ok (), s))"

definition DoFinalizerOperationsForSecretRotator :: "'w state \<Rightarrow> 'w state" where
  "DoFinalizerOperationsForSecretRotator s =
     record_call (EventCall ''Warning'' ''Deleting'' (''Custom Resource '' @ sr_name (s_sr s) @
       '' is being deleted from the namespace '' @ om_Namespace (sr_Meta (s_sr s)))) s"

definition SecretRotatorChecker :: "'w platform \<Rightarrow> string \<times> string \<Rightarrow> 'w state \<Rightarrow> unit outcome \<times> 'w state" where
  "SecretRotatorChecker pf req s =
     (if om_DeletionTimestamp (sr_Meta (s_sr s)) \<noteq> None \<and> pf_ContainsFinalizer pf (s_sr s) SecretRotatorFinalizer
      then let s = set_condition pf TypeDegradedSecretRotator ''Unknown'' ''Finalizing''
                     (''Performing finalizer operations for the custom resource: '' @ sr_name (s_sr s) @ '' '') s
           in if_err (status_update pf s)
                (\<lambda>err s. (Err (ReconcileError 0 ''Failed to update SecretRotator status'' (Some err)), s)) (\<lambda>_ s.
              let s = DoFinalizerOperationsForSecretRotator s
              in if_err (get_rotator pf req s)
                (\<lambda>err s. (Err (ReconcileError 0 ''Failed to re-fetch secretRotator'' (Some err)), s)) (\<lambda>_ s.
              let s = set_condition pf TypeDegradedSecretRotator ''True'' ''Finalizing''
                        (''Finalizer operations for custom resource '' @ sr_name (s_sr s) @ '' name were successfully accomplished'') s
              in if_err (status_update pf s)
                (\<lambda>err s. (Err (ReconcileError 0 ''Failed to update SecretRotator status'' (Some err)), s)) (\<lambda>_ s.
              let (ok, r) = pf_RemoveFinalizer pf (s_sr s) SecretRotatorFinalizer;
                  s = s\<lparr>s_sr := r\<rparr>
              in if \<not> ok then (Err (ReconcileError 0 ''Failed to remove finalizer for SecretRotator'' None), s)
                 else if_err (update_rotator pf s)
                (\<lambda>err s. (Err (ReconcileError 0 ''Failed to update - remove finalizer for secretRotator'' (Some err)), s))
                (\<lambda>_ s. (Ok (), s)))))
      else (Ok (), s))"

section \<open>Initialisation\<close>

definition DeferPatch :: "'w platform \<Rightarrow> SecretRotator \<Rightarrow> 'w state \<Rightarrow> unit outcome \<times> 'w state" where
  "DeferPatch pf base s =
     if_err (call (pf_StatusPatch pf base (s_sr s)) (StatusPatchCall (s_sr s)) s)
       (\<lambda>_ s. (Ok (), s)) (\<lambda>r s. (Ok (), s\<lparr>s_sr := r\<rparr>))"

text \<open>
  A deferred call runs after the body whatever its outcome, unless the process has ended; a panic of its
  own wins.
\<close>

definition with_defer :: "'a outcome \<times> 's \<Rightarrow> ('s \<Rightarrow> unit outcome \<times> 's) \<Rightarrow> 'a outcome \<times> 's" where
  "with_defer r d =
     (if fst r = Panic process_exit then r
      else case d (snd r) of (Panic p, s) \<Rightarrow> (Panic p, s) | (_, s) \<Rightarrow> (fst r, s))"

lemma with_defer_snd: "snd (with_defer r d) = snd r \<or> snd (with_defer r d) = snd (d (snd r))"
  by (auto simp: with_defer_def split: prod.split outcome.split)

lemma with_defer_Ok: "with_defer r d = (Ok u, s') \<Longrightarrow> r = (Ok u, snd r) \<and> s' = snd (d (snd r))"
  by (cases r) (auto simp: with_defer_def split: if_splits prod.splits outcome.splits)

context step_rel
begin

lemma with_defer_rel: "R s (snd r) \<Longrightarrow> R (snd r) (snd (d (snd r))) \<Longrightarrow> R s (snd (with_defer r d))"
  using with_defer_snd [of r d] trans [of s "snd r"] by metis

end

definition validate_and_certs :: "'w platform \<Rightarrow> 'w state \<Rightarrow> unit outcome \<times> 'w state" where
  "validate_and_certs pf s =
     if_err (ValidateObjectSpec pf s) ret_err (\<lambda>_ s.
       let sec = sp_Security (sr_Spec (s_sr s))
       in if sec_Enabled sec \<and> \<not> sec_InsecureSkipVerify sec
          then if_err (HandleCerts pf (sec_SecretNamespace sec) (sec_CertificateSecretName sec) (sr_name (s_sr s)) s)
                 ret_err (\<lambda>_ s. (Ok (), s))
          else (Ok (), s))"

definition InitializeResource :: "'w platform \<Rightarrow> string \<times> string \<Rightarrow> 'w state \<Rightarrow> unit outcome \<times> 'w state" where
  "InitializeResource pf req s =
     if_err (HandleConditions pf req s) ret_err (\<lambda>_ s.
     if_err (HandleFinalizers pf s) ret_err (\<lambda>_ s.
     if_err (SecretRotatorChecker pf req s) ret_err (\<lambda>_ s.
       with_defer (validate_and_certs pf s) (DeferPatch pf (s_sr s)))))"

section \<open>Management of the secrets\<close>

text \<open>The first loop over the secrets of a namespace: which ones may not be touched.\<close>

fun scan_secrets ::
    "'w platform \<Rightarrow> string \<Rightarrow> GeneratedSecret list \<Rightarrow> string list \<Rightarrow> string gomap \<Rightarrow> 'w state \<Rightarrow>
     (string list \<times> string gomap) outcome \<times> 'w state" where
  "scan_secrets pf namespace [] failedSecrets skippedSecrets s = (Ok (failedSecrets, skippedSecrets), s)"
| "scan_secrets pf namespace (gSecret # rest) failedSecrets skippedSecrets s =
     if_err (GetSecret pf namespace (gs_SecretName gSecret) s)
       (\<lambda>err s. if \<not> pf_IsNotFound pf err
                then scan_secrets pf namespace rest
                       (failedSecrets @ [gs_SecretName gSecret @ '' ('' @ gs_SecretType gSecret @ '') Reason: not found, ''])
                       (AList.update (gs_SecretName gSecret) namespace skippedSecrets) s
                else scan_secrets pf namespace rest failedSecrets skippedSecrets s)
       (\<lambda>existingSecret s. if \<not> IsSecretOwnedBy pf existingSecret (sr_name (s_sr s))
                then scan_secrets pf namespace rest
                       (failedSecrets @ [gs_SecretName gSecret @ '' ('' @ gs_SecretType gSecret @ '') Reason: not owned by secretrotator, ''])
                       (AList.update (gs_SecretName gSecret) namespace skippedSecrets) s
                else scan_secrets pf namespace rest failedSecrets skippedSecrets s)"

text \<open>Recording a secret as managed in a namespace.\<close>

definition add_managed :: "string \<Rightarrow> string \<Rightarrow> 'w state \<Rightarrow> 'w state" where
  "add_managed ns n s = upd_td (\<lambda>t. t\<lparr>td_SecretManagedByNamespaces := AList.update ns
     (map_get [] (td_SecretManagedByNamespaces t) ns @ [n]) (td_SecretManagedByNamespaces t)\<rparr>) s"

text \<open>The second loop: create or update the others.\<close>

fun write_secrets ::
    "'w platform \<Rightarrow> Namespace \<Rightarrow> GeneratedSecret list \<Rightarrow> string gomap \<Rightarrow> string list \<Rightarrow> 'w state \<Rightarrow>
     string list outcome \<times> 'w state" where
  "write_secrets pf namespace [] skippedSecrets failedSecrets s = (Ok failedSecrets, s)"
| "write_secrets pf namespace (gSecret # rest) skippedSecrets failedSecrets s =
     (if map_of skippedSecrets (gs_SecretName gSecret) \<noteq> None \<or>
         map_get [] skippedSecrets (gs_SecretName gSecret) = ns_name namespace
      then write_secrets pf namespace rest skippedSecrets failedSecrets s
      else if_err (CreateOrUpdateSecrets pf namespace (gs_SecretName gSecret) (gs_SecretType gSecret) s) ret_err
        (\<lambda>(err, isCrossOwnershipConflict) s.
           case err of
             Some e \<Rightarrow>
               write_secrets pf namespace rest skippedSecrets
                 (failedSecrets @ [if isCrossOwnershipConflict
                    then '' Skipping secret '' @ gs_SecretName gSecret @ '': namespace is out of scope. Verify the installation scope and namespace selectors''
                    else gs_SecretName gSecret @ '' ('' @ gs_SecretType gSecret @ '') Reason: failed in create/update'']) s
           | None \<Rightarrow>
               write_secrets pf namespace rest skippedSecrets failedSecrets
                 (add_managed (ns_name namespace) (gs_SecretName gSecret) s)))"

definition warning_sign :: string where
  "warning_sign = [CHR 0xE2, CHR 0x9A, CHR 0xA0, CHR 0xEF, CHR 0xB8, CHR 0x8F]"

definition manage_error :: "string list \<Rightarrow> string \<Rightarrow> goerror" where
  "manage_error failedSecrets namespace = FmtError (''Unable to manage secrets '' @ warning_sign @ '' '' @
     Join failedSecrets '', '' @ '' in namespace '' @ namespace) None"

text \<open>
  One round of the loop over the namespaces; \<open>failedSecrets\<close> and \<open>skippedSecrets\<close> are the variables the
  loop carries, returned with the values the next round starts from.
\<close>

definition report_failures :: "string \<Rightarrow> string list \<Rightarrow> 'w state \<Rightarrow> 'w state" where
  "report_failures ns failedSecrets s =
     (if length failedSecrets > 0
      then upd_td (\<lambda>t. t\<lparr>td_FailedNamespaces := AList.update ns (manage_error failedSecrets ns) (td_FailedNamespaces t)\<rparr>) s
      else s)"

definition finish_namespace ::
    "'w platform \<Rightarrow> string \<Rightarrow> string list \<Rightarrow> 'w state \<Rightarrow> (string list \<times> string gomap) outcome \<times> 'w state" where
  "finish_namespace pf ns failedSecrets s =
     (let s = report_failures ns failedSecrets s
      in if_err (if length (st_SecretManagedByNamespaces (sr_Status (s_sr s))) > 0
                 then DeleteOutdatedGeneratedSecrets pf s else (Ok (), s)) ret_err
           (\<lambda>_ s. (Ok ([], []), upd_td (\<lambda>t. t\<lparr>td_ProvisionedNamespaces := td_ProvisionedNamespaces t @ [ns]\<rparr>) s)))"

definition manage_namespace ::
    "'w platform \<Rightarrow> Namespace \<Rightarrow> string list \<Rightarrow> string gomap \<Rightarrow> 'w state \<Rightarrow>
     (string list \<times> string gomap) outcome \<times> 'w state" where
  "manage_namespace pf namespace failedSecrets skippedSecrets s =
     if_err (scan_secrets pf (ns_name namespace) (td_GeneratedSecrets (s_td s)) failedSecrets skippedSecrets s) ret_err
       (\<lambda>(failedSecrets, skippedSecrets) s.
     if_err (HandlingToken pf s) ret_err (\<lambda>_ s.
     if_err (write_secrets pf namespace (td_GeneratedSecrets (s_td s)) skippedSecrets failedSecrets s) ret_err
       (\<lambda>failedSecrets s. finish_namespace pf (ns_name namespace) failedSecrets s)))"

fun manage_namespaces ::
    "'w platform \<Rightarrow> Namespace list \<Rightarrow> string list \<Rightarrow> string gomap \<Rightarrow> 'w state \<Rightarrow> unit outcome \<times> 'w state" where
  "manage_namespaces pf [] failedSecrets skippedSecrets s = (Ok (), s)"
| "manage_namespaces pf (namespace # rest) failedSecrets skippedSecrets s =
     if_err (manage_namespace pf namespace failedSecrets skippedSecrets s) ret_err
       (\<lambda>(failedSecrets, skippedSecrets) s. manage_namespaces pf rest failedSecrets skippedSecrets s)"

definition ManagingSecrets :: "'w platform \<Rightarrow> 'w state \<Rightarrow> unit outcome \<times> 'w state" where
  "ManagingSecrets pf s =
     if_err (DeleteOutdatedSecrets pf (sr_name (s_sr s)) (st_ProvisionedNamespaces (sr_Status (s_sr s))) s) ret_err
       (\<lambda>failedNamespaces s.
        let s = upd_td (\<lambda>t. t\<lparr>td_FailedNamespaces := failedNamespaces, td_RequeueInterval := s_RequeueInterval s,
                               td_SecretManagedByNamespaces := []\<rparr>) s
        in manage_namespaces pf (td_NamespaceList (s_td s)) [] [] s)"

section \<open>Status\<close>

definition status_message :: "TokenDetails \<Rightarrow> string" where
  "status_message td =
     (let docker = map gs_SecretName (filter (\<lambda>g. gs_SecretType g = SecretTypeDocker) (td_GeneratedSecrets td));
          generic = map gs_SecretName (filter (\<lambda>g. gs_SecretType g \<noteq> SecretTypeDocker \<and> gs_SecretType g = SecretTypeGeneric)
                      (td_GeneratedSecrets td));
          secretNames = (if docker \<noteq> [] then [''['' @ Join docker '' '' @ ''] (docker)''] else []) @
                        (if generic \<noteq> [] then [''['' @ Join generic '' '' @ ''] (generic)''] else [])
      in ''Secrets '' @ Join secretNames '' and '' @ '' in namespaces with label '' @ td_NamespaceSelector td @
         '' managed successfully, Please check if any failed namespaces are visible, in order to evaluate individual secret failures, if any.'')"

definition UpdateStatus :: "'w platform \<Rightarrow> 'w state \<Rightarrow> unit outcome \<times> 'w state" where
  "UpdateStatus pf s =
     (let s = set_condition pf TypeAvailableSecretRotator ''True'' ''Reconciling'' (status_message (s_td s)) s;
          s = upd_td (\<lambda>t. t\<lparr>td_ProvisionedNamespaces := sort (td_ProvisionedNamespaces t)\<rparr>) s;
          td = s_td s;
          s = upd_sr (\<lambda>r. r\<lparr>sr_Status := (sr_Status r)
                \<lparr>st_FailedNamespaces := ToNamespaceFailures (td_FailedNamespaces td),
                 st_AuthType := td_AuthType td,
                 st_ProvisionedNamespaces := td_ProvisionedNamespaces td,
                 st_SecretManagedByNamespaces := td_SecretManagedByNamespaces td\<rparr>\<rparr>) s
      in if_err (status_update pf s)
           (\<lambda>err s. (Err (ReconcileError Minute ''Failed to update SecretRotator status'' (Some err)), s))
           (\<lambda>_ s. (Ok (), record_call (EventfCall ''Normal'' ''Secret rotated successfully'' [] []) s)))"

section \<open>Reconcile\<close>

record Result =
  res_Requeue :: bool
  res_RequeueAfter :: int

definition handleError :: "goerror \<Rightarrow> Result \<times> goerror option" where
  "handleError err =
     (case as_ReconcileError err of
        None \<Rightarrow> (\<lparr>res_Requeue = False, res_RequeueAfter = 0\<rparr>,
                 Some (ReconcileError (10 * Second) ''Unexpected error during reconciliation, wait for 10 seconds'' (Some err)))
      | Some status \<Rightarrow>
          if RetryIn status = 0 then (\<lparr>res_Requeue = False, res_RequeueAfter = 0\<rparr>, None)
          else (\<lparr>res_Requeue = False, res_RequeueAfter = RetryIn status\<rparr>, None))"

definition empty_SecretRotator :: SecretRotator where
  "empty_SecretRotator = \<lparr>sr_Meta = empty_meta,
     sr_Spec = \<lparr>sp_SecretMetadata = \<lparr>smd_Annotations = [], smd_Labels = []\<rparr>, sp_SecretName = [],
       sp_GeneratedSecrets = [], sp_NamespaceSelector = \<lparr>ls_MatchLabels = [], ls_MatchExpressions = []\<rparr>,
       sp_ArtifactoryUrl = [], sp_ArtifactorySubdomains = [],
       sp_ServiceAccount = \<lparr>sad_Name = [], sad_Namespace = []\<rparr>, sp_RefreshInterval = None,
       sp_Security = \<lparr>sec_Enabled = False, sec_CertificateSecretName = [], sec_SecretNamespace = [], sec_InsecureSkipVerify = False\<rparr>,
       sp_AuthType = [], sp_AwsRegion = []\<rparr>,
     sr_Status = \<lparr>st_Conditions = [], st_FailedNamespaces = [], st_ProvisionedNamespaces = [],
       st_SecretManagedByNamespaces = [], st_AuthType = []\<rparr>\<rparr>"

text \<open>\<open>Eventf(..., "%s", err)\<close> and a requeue after one second, as after each of the three stages.\<close>

definition stage_failed :: "string \<Rightarrow> goerror \<Rightarrow> 'w state \<Rightarrow> (Result \<times> goerror option) outcome \<times> 'w state" where
  "stage_failed reason err s =
     (Ok (\<lparr>res_Requeue = True, res_RequeueAfter = 1 * Second\<rparr>, None),
      record_call (EventfCall ''Warning'' reason ''%s'' [Error err]) s)"

definition next_interval :: "'w state \<Rightarrow> int" where
  "next_interval s =
     (case sp_RefreshInterval (sr_Spec (s_sr s)) of
        None \<Rightarrow> three_quarters (td_TTLInSeconds (s_td s))
      | Some d \<Rightarrow> d)"

definition Reconcile ::
    "'w platform \<Rightarrow> string \<times> string \<Rightarrow> 'w state \<Rightarrow> (Result \<times> goerror option) outcome \<times> 'w state" where
  "Reconcile pf req s =
     (let s = s\<lparr>s_td := empty_TokenDetails, s_sr := empty_SecretRotator\<rparr>
      in if_err (get_rotator pf req s)
           (\<lambda>err s. if pf_IsNotFound pf err
              then let s = record_call (EventCall ''Warning'' ''MissingResource'' ''Operator object not found, the reconciliation will not run'') s
                   in (Ok (handleError (ReconcileError 0 ''Secret rotator object not found'' (Some err))), s)
              else (Ok (handleError (ReconcileError (10 * Minute) ''Failed to get SecretRotator'' (Some err))), s)) (\<lambda>_ s.
         if_err (InitializeResource pf req s) (stage_failed ''Failed in initializing resource'') (\<lambda>_ s.
         if_err (ManagingSecrets pf s) (stage_failed ''Failed in managing secret'') (\<lambda>_ s.
         if_err (UpdateStatus pf s) (stage_failed ''Failed in updating status'') (\<lambda>_ s.
           let s = s\<lparr>s_RequeueInterval := next_interval s\<rparr>
           in (Ok (\<lparr>res_Requeue = False, res_RequeueAfter = s_RequeueInterval s\<rparr>, None), s))))))"

section \<open>The event filter\<close>

datatype event_object = NamespaceObject Namespace | OtherObject ObjectMeta

text \<open>The loop over the rotators; a failed update ends it with \<open>false\<close>.\<close>

fun touch_rotators ::
    "'w platform \<Rightarrow> (SecretRotator \<Rightarrow> bool) \<Rightarrow> SecretRotator list \<Rightarrow> 'w state \<Rightarrow> bool outcome \<times> 'w state" where
  "touch_rotators pf matches [] s = (Ok True, s)"
| "touch_rotators pf matches (item # rest) s =
     (if matches item
      then if_err (HandlingNamespaceEvents pf item s) ret_err
             (\<lambda>flag s. if \<not> flag then (Ok False, s) else touch_rotators pf matches rest s)
      else touch_rotators pf matches rest s)"

definition selector_labels :: "SecretRotator \<Rightarrow> string gomap" where
  "selector_labels r = ls_MatchLabels (sp_NamespaceSelector (sr_Spec r))"

definition CreateFunc :: "'w platform \<Rightarrow> event_object \<Rightarrow> 'w state \<Rightarrow> bool outcome \<times> 'w state" where
  "CreateFunc pf obj s =
     (case obj of
        OtherObject _ \<Rightarrow> (Ok True, s)
      | NamespaceObject n \<Rightarrow>
          if_err (ListSecretRotatorObjects pf s) ret_err (\<lambda>items s.
            let difference = pf_Since pf (om_CreationTimestamp (ns_Meta n)) (s_world s)
            in touch_rotators pf (\<lambda>r. IsExist (om_Labels (ns_Meta n)) (selector_labels r) \<and>
                 truncate_rat \<bar>Duration_Seconds difference\<bar> < 20) items s))"

text \<open>
  \<open>reflect.DeepEqual\<close> on the two label maps compares their entries; a nil and an empty map are one
  value here.
\<close>

definition UpdateFunc :: "'w platform \<Rightarrow> event_object \<Rightarrow> ObjectMeta \<Rightarrow> 'w state \<Rightarrow> bool outcome \<times> 'w state" where
  "UpdateFunc pf objectOld metaNew s =
     (case objectOld of
        OtherObject _ \<Rightarrow> (Ok True, s)
      | NamespaceObject n \<Rightarrow>
          if set (om_Labels (ns_Meta n)) \<noteq> set (om_Labels metaNew)
          then if_err (ListSecretRotatorObjects pf s) ret_err (\<lambda>items s.
                 touch_rotators pf (\<lambda>r. IsExist (om_Labels metaNew) (selector_labels r) \<or>
                   IsExist (om_Labels (ns_Meta n)) (selector_labels r)) items s)
          else (Ok True, s))"

section \<open>What a round of management changes\<close>

abbreviation managed :: "'w state \<Rightarrow> string \<Rightarrow> string set" where
  "managed s ns \<equiv> set (map_get [] (td_SecretManagedByNamespaces (s_td s)) ns)"

abbreviation failed :: "'w state \<Rightarrow> string set" where
  "failed s \<equiv> fst ` set (td_FailedNamespaces (s_td s))"

abbreviation configured :: "'w state \<Rightarrow> string set" where
  "configured s \<equiv> gs_SecretName ` set (td_GeneratedSecrets (s_td s))"

text \<open>
  The management of the secrets only adds to its reports, and leaves the configuration alone.
\<close>

definition progress :: "'w state \<Rightarrow> 'w state \<Rightarrow> bool" where
  "progress s s' \<longleftrightarrow>
     td_GeneratedSecrets (s_td s') = td_GeneratedSecrets (s_td s) \<and>
     td_NamespaceList (s_td s') = td_NamespaceList (s_td s) \<and>
     td_NamespaceSelector (s_td s') = td_NamespaceSelector (s_td s) \<and>
     sr_Meta (s_sr s') = sr_Meta (s_sr s) \<and> sr_Status (s_sr s') = sr_Status (s_sr s) \<and>
     no_account (sr_Spec (s_sr s')) = no_account (sr_Spec (s_sr s)) \<and>
     (\<forall>ns. managed s ns \<subseteq> managed s' ns) \<and> failed s \<subseteq> failed s'"

interpretation pr: step_rel progress
  by unfold_locales (simp_all add: progress_def, meson subset_trans)

lemma keeps_progress: "keeps s s' \<Longrightarrow> progress s s'"
  by (simp add: keeps_def progress_def)

lemma token_frame_progress: "token_frame s s' \<Longrightarrow> progress s s'"
  by (simp add: token_frame_def progress_def)

lemma GetSecret_keeps [simp]: "keeps s (snd (GetSecret pf ns n s))"
  by (simp add: GetSecret_def)

lemma scan_secrets_keeps: "keeps s (snd (scan_secrets pf ns gs f sk s))"
proof (induction gs arbitrary: f sk s)
  case (Cons g gs)
  then show ?case by (auto intro!: kp.if_err_rel)
qed simp

lemma CreateOrUpdateSecrets_keeps: "keeps s (snd (CreateOrUpdateSecrets pf ns n t s))"
  by (auto simp: CreateOrUpdateSecrets_def Let_def intro!: kp.if_err_rel write_secret_keeps split: outcome.split)

lemma delete_names_keeps: "keeps s (snd (delete_names pf ns names s))"
proof (induction names arbitrary: s)
  case (Cons n names)
  then show ?case by (auto simp: Let_def intro!: kp.if_err_rel)
qed simp

lemma delete_namespaces_keeps: "keeps s (snd (delete_namespaces pf ch nss s))"
proof (induction nss arbitrary: s)
  case (Cons n nss)
  then show ?case by (auto intro!: kp.if_err_rel delete_names_keeps)
qed simp

lemma DeleteOutdatedGeneratedSecrets_keeps: "keeps s (snd (DeleteOutdatedGeneratedSecrets pf s))"
  by (simp add: DeleteOutdatedGeneratedSecrets_def case_prod_beta Let_def delete_namespaces_keeps)

lemma DeleteSecret_keeps: "keeps s (snd (DeleteSecret pf n rot ns t s))"
  by (auto simp: DeleteSecret_def intro!: kp.if_err_rel)

lemma delete_generated_keeps: "keeps s (snd (delete_generated pf rot ns gs f s))"
proof (induction gs arbitrary: f s)
  case (Cons g gs)
  then show ?case by (auto intro!: kp.if_err_rel DeleteSecret_keeps)
qed simp

lemma delete_removed_keeps: "keeps s (snd (delete_removed pf rot gs nss f s))"
proof (induction nss arbitrary: f s)
  case (Cons n nss)
  then show ?case by (auto intro!: kp.if_err_rel delete_generated_keeps)
qed simp

lemma DeleteOutdatedSecrets_keeps: "keeps s (snd (DeleteOutdatedSecrets pf rot prov s))"
  by (simp add: DeleteOutdatedSecrets_def delete_removed_keeps)

section \<open>Every selected namespace is managed or reported\<close>

lemma scan_secrets_reports:
  "scan_secrets pf ns gs f sk s = (Ok (f', sk'), s') \<Longrightarrow>
   (f \<noteq> [] \<longrightarrow> f' \<noteq> []) \<and> (\<forall>n. map_of sk' n \<noteq> None \<longrightarrow> map_of sk n \<noteq> None \<or> f' \<noteq> [])"
proof (induction gs arbitrary: f sk s)
  case (Cons g gs)
  obtain r s1 where g: "GetSecret pf ns (gs_SecretName g) s = (r, s1)" by fastforce
  show ?case
  proof (cases "\<exists>m. scan_secrets pf ns gs (f @ [m]) (AList.update (gs_SecretName g) ns sk) s1 = (Ok (f', sk'), s')")
    case True
    then show ?thesis using Cons.IH by fastforce
  next
    case False
    then have "scan_secrets pf ns gs f sk s1 = (Ok (f', sk'), s')"
      using Cons.prems g by (cases r) (auto split: if_splits)
    then show ?thesis using Cons.IH by blast
  qed
qed simp

text \<open>
  What the write loop for a namespace may do to the state: record names out of a given set as managed
  there.
\<close>

definition write_frame :: "string \<Rightarrow> string set \<Rightarrow> 'w state \<Rightarrow> 'w state \<Rightarrow> bool" where
  "write_frame ns names s s' \<longleftrightarrow> progress s s' \<and> s_sr s' = s_sr s \<and>
     td_ProvisionedNamespaces (s_td s') = td_ProvisionedNamespaces (s_td s) \<and>
     td_FailedNamespaces (s_td s') = td_FailedNamespaces (s_td s) \<and>
     (\<forall>x. managed s' x \<subseteq> managed s x \<union> (if x = ns then names else {}))"

interpretation wr: step_rel "write_frame ns names" for ns names
proof
  show "write_frame ns names s s" for s :: "'a state" by (simp add: write_frame_def)
  fix s s' s'' :: "'a state"
  assume a: "write_frame ns names s s'" and b: "write_frame ns names s' s''"
  then have "\<forall>x. managed s'' x \<subseteq> managed s x \<union> (if x = ns then names else {})"
    unfolding write_frame_def by (auto split: if_splits) blast+
  with a b pr.trans [of s s' s''] show "write_frame ns names s s''"
    by (simp add: write_frame_def)
qed

lemma keeps_write_frame: "keeps s s' \<Longrightarrow> write_frame ns names s s'"
  by (simp add: keeps_def write_frame_def progress_def)

lemma add_managed_frame: "n \<in> names \<Longrightarrow> write_frame ns names s (add_managed ns n s)"
  by (auto simp: add_managed_def write_frame_def progress_def)

lemma add_managed_in: "n \<in> managed (add_managed ns n s) ns"
  by (simp add: add_managed_def)

lemma write_secrets_frame:
  "gs_SecretName ` set gs \<subseteq> names \<Longrightarrow> write_frame (ns_name ns) names s (snd (write_secrets pf ns gs sk f s))"
proof (induction gs arbitrary: f s)
  case (Cons g gs)
  then have g: "gs_SecretName g \<in> names" by simp
  have step: "write_frame (ns_name ns) names s1
      (snd (write_secrets pf ns gs sk f (add_managed (ns_name ns) (gs_SecretName g) s1)))" for f s1
    using wr.trans [OF add_managed_frame [OF g] Cons.IH] Cons.prems by simp
  show ?case
    using Cons step
    by (auto intro!: wr.if_err_rel keeps_write_frame [OF CreateOrUpdateSecrets_keeps] split: option.split)
qed simp

lemma write_secrets_reports:
  "write_secrets pf ns gs sk f s = (Ok f', s') \<Longrightarrow> ns_name ns \<noteq> [] \<Longrightarrow>
   (f \<noteq> [] \<longrightarrow> f' \<noteq> []) \<and>
   (\<forall>g \<in> set gs. map_of sk (gs_SecretName g) \<noteq> None \<or> gs_SecretName g \<in> managed s' (ns_name ns) \<or> f' \<noteq> [])"
proof (induction gs arbitrary: f s)
  case (Cons g gs)
  show ?case
  proof (cases "map_of sk (gs_SecretName g) \<noteq> None \<or> map_get [] sk (gs_SecretName g) = ns_name ns")
    case True
    then have "map_of sk (gs_SecretName g) \<noteq> None"
      using Cons.prems(2) by (auto simp: map_get_def split: option.splits)
    moreover have "write_secrets pf ns gs sk f s = (Ok f', s')"
      using Cons.prems(1) True by simp
    ultimately show ?thesis using Cons.IH [OF _ Cons.prems(2)] by simp
  next
    case False
    obtain e b s1 where c: "CreateOrUpdateSecrets pf ns (gs_SecretName g) (gs_SecretType g) s = (Ok (e, b), s1)"
      using Cons.prems(1) False by (auto split: if_err_split_asm)
    show ?thesis
    proof (cases e)
      case (Some err)
      then obtain m where "write_secrets pf ns gs sk (f @ [m]) s1 = (Ok f', s')"
        using Cons.prems(1) False c by auto
      from Cons.IH [OF this Cons.prems(2)] show ?thesis by simp
    next
      case None
      then have w: "write_secrets pf ns gs sk f (add_managed (ns_name ns) (gs_SecretName g) s1) = (Ok f', s')"
        using Cons.prems(1) False c by simp
      have "gs_SecretName g \<in> managed s' (ns_name ns)"
        using write_secrets_frame [of gs "gs_SecretName ` set gs" ns "add_managed (ns_name ns) (gs_SecretName g) s1" pf sk f,
            OF order_refl]
          add_managed_in [of "gs_SecretName g" "ns_name ns" s1]
        unfolding w snd_conv write_frame_def progress_def by blast
      with Cons.IH [OF w Cons.prems(2)] show ?thesis by simp
    qed
  qed
qed simp

text \<open>
  One round: the namespace is provisioned, everything configured is managed there or it is reported,
  and nothing outside the configuration is recorded.
\<close>

lemma report_failures_simps:
  "progress s (report_failures ns f s)" "managed (report_failures ns f s) x = managed s x"
  "td_ProvisionedNamespaces (s_td (report_failures ns f s)) = td_ProvisionedNamespaces (s_td s)"
  "f \<noteq> [] \<Longrightarrow> ns \<in> failed (report_failures ns f s)"
  by (auto simp: report_failures_def progress_def)

lemma finish_namespace_ok:
  assumes "finish_namespace pf ns f s = (Ok r, s')"
  shows "r = ([], []) \<and> progress s s' \<and> (\<forall>x. managed s' x = managed s x) \<and>
    td_ProvisionedNamespaces (s_td s') = td_ProvisionedNamespaces (s_td s) @ [ns] \<and>
    (f \<noteq> [] \<longrightarrow> ns \<in> failed s')"
proof -
  define s1 where "s1 = report_failures ns f s"
  note s1 = report_failures_simps [where s = s and ns = ns and f = f, folded s1_def]
  obtain s2 where del: "(if length (st_SecretManagedByNamespaces (sr_Status (s_sr s1))) > 0
                 then DeleteOutdatedGeneratedSecrets pf s1 else (Ok (), s1)) = (Ok (), s2)"
    and r: "r = ([], [])"
    and s': "s' = upd_td (\<lambda>t. t\<lparr>td_ProvisionedNamespaces := td_ProvisionedNamespaces t @ [ns]\<rparr>) s2"
    using assms unfolding finish_namespace_def Let_def s1_def [symmetric] by (auto split: if_err_split_asm)
  have k: "keeps s1 s2"
    using del DeleteOutdatedGeneratedSecrets_keeps [of s1 pf] by (auto split: if_splits)
  have "progress s2 s'" by (simp add: s' progress_def)
  then have "progress s s'" using s1(1) keeps_progress [OF k] pr.trans by blast
  with r s1 k show ?thesis by (simp add: s' keeps_def)
qed

lemma manage_namespace_ok:
  assumes ok: "manage_namespace pf ns f sk s = (Ok r, s')" and ns: "ns_name ns \<noteq> []"
    and sk: "\<And>n. map_of sk n \<noteq> None \<Longrightarrow> f \<noteq> []"
  shows "r = ([], []) \<and> progress s s' \<and>
    td_ProvisionedNamespaces (s_td s') = td_ProvisionedNamespaces (s_td s) @ [ns_name ns] \<and>
    (\<forall>x. managed s' x \<subseteq> managed s x \<union> (if x = ns_name ns then configured s else {})) \<and>
    (configured s \<subseteq> managed s' (ns_name ns) \<or> ns_name ns \<in> failed s')"
proof -
  obtain f1 sk1 s1 s2 f2 s3
    where scan: "scan_secrets pf (ns_name ns) (td_GeneratedSecrets (s_td s)) f sk s = (Ok (f1, sk1), s1)"
    and tok: "HandlingToken pf s1 = (Ok (), s2)"
    and wri: "write_secrets pf ns (td_GeneratedSecrets (s_td s2)) sk1 f1 s2 = (Ok f2, s3)"
    and fin: "finish_namespace pf (ns_name ns) f2 s3 = (Ok r, s')"
    using ok unfolding manage_namespace_def by (auto split: if_err_split_asm)
  have k1: "keeps s s1" using scan_secrets_keeps [of s pf "ns_name ns" _ f sk] scan by (metis snd_conv)
  have k2: "token_frame s1 s2" using tf_HandlingToken [of s1 pf] tok by simp
  have gen: "td_GeneratedSecrets (s_td s2) = td_GeneratedSecrets (s_td s)"
    and same: "\<And>x. managed s2 x = managed s x"
      "td_ProvisionedNamespaces (s_td s2) = td_ProvisionedNamespaces (s_td s)"
    using k1 k2 by (simp_all add: keeps_def token_frame_def)
  have k3: "write_frame (ns_name ns) (configured s) s2 s3"
    using write_secrets_frame [of "td_GeneratedSecrets (s_td s2)" "configured s" ns s2 pf sk1 f1] wri gen by simp
  note k4 = finish_namespace_ok [OF fin]
  have "progress s s'"
    using pr.trans [OF pr.trans [OF keeps_progress [OF k1] token_frame_progress [OF k2]], of s3] k3 k4 pr.trans [of s s3 s']
    unfolding write_frame_def by simp
  moreover have "configured s \<subseteq> managed s3 (ns_name ns) \<or> f2 \<noteq> []"
  proof (cases "f2 = []")
    case True
    note rep = write_secrets_reports [OF wri ns]
    then have "f1 = []" using True by blast
    then have "map_of sk1 n = None" for n
      using scan_secrets_reports [OF scan] sk by blast
    with rep True show ?thesis by (auto simp: gen)
  qed simp
  ultimately show ?thesis using k3 k4 same by (auto simp: write_frame_def)
qed

lemma manage_namespaces_ok:
  "manage_namespaces pf nss f sk s = (Ok (), s') \<Longrightarrow> \<forall>n \<in> set nss. ns_name n \<noteq> [] \<Longrightarrow>
   (\<And>n. map_of sk n \<noteq> None \<Longrightarrow> f \<noteq> []) \<Longrightarrow>
   progress s s' \<and>
   td_ProvisionedNamespaces (s_td s') = td_ProvisionedNamespaces (s_td s) @ map ns_name nss \<and>
   (\<forall>x. managed s' x \<subseteq> managed s x \<union> (if x \<in> ns_name ` set nss then configured s else {})) \<and>
   (\<forall>n \<in> set nss. configured s \<subseteq> managed s' (ns_name n) \<or> ns_name n \<in> failed s')"
proof (induction nss arbitrary: f sk s)
  case (Cons n nss)
  obtain r s1 where one: "manage_namespace pf n f sk s = (Ok r, s1)"
    using Cons.prems(1) by (auto split: if_err_split_asm)
  have one': "r = ([], []) \<and> progress s s1 \<and>
    td_ProvisionedNamespaces (s_td s1) = td_ProvisionedNamespaces (s_td s) @ [ns_name n] \<and>
    (\<forall>x. managed s1 x \<subseteq> managed s x \<union> (if x = ns_name n then configured s else {})) \<and>
    (configured s \<subseteq> managed s1 (ns_name n) \<or> ns_name n \<in> failed s1)"
    using Cons.prems(2) by (intro manage_namespace_ok [OF one _ Cons.prems(3)]) simp_all
  then have c: "configured s1 = configured s" by (simp add: progress_def)
  have "manage_namespaces pf nss [] [] s1 = (Ok (), s')" using Cons.prems(1) one one' by simp
  then have rest: "progress s1 s' \<and>
    td_ProvisionedNamespaces (s_td s') = td_ProvisionedNamespaces (s_td s1) @ map ns_name nss \<and>
    (\<forall>x. managed s' x \<subseteq> managed s1 x \<union> (if x \<in> ns_name ` set nss then configured s else {})) \<and>
    (\<forall>n \<in> set nss. configured s \<subseteq> managed s' (ns_name n) \<or> ns_name n \<in> failed s')"
    using Cons.prems(2) by (intro Cons.IH [of "[]" "[]" s1, unfolded c]) simp_all
  have "managed s' x \<subseteq> managed s x \<union> (if x \<in> ns_name ` set (n # nss) then configured s else {})" for x
  proof -
    have "managed s' x \<subseteq> managed s1 x \<union> (if x \<in> ns_name ` set nss then configured s else {})"
      "managed s1 x \<subseteq> managed s x \<union> (if x = ns_name n then configured s else {})"
      using one' rest by blast+
    then show ?thesis by (auto split: if_splits)
  qed
  moreover have "configured s \<subseteq> managed s' (ns_name n) \<or> ns_name n \<in> failed s'"
  proof -
    have "managed s1 (ns_name n) \<subseteq> managed s' (ns_name n)" "failed s1 \<subseteq> failed s'"
      using rest by (simp_all add: progress_def)
    then show ?thesis using one' by auto
  qed
  moreover have "progress s s'" using one' rest pr.trans [of s s1 s'] by simp
  ultimately show ?case using one' rest by simp
qed simp

lemma ManagingSecrets_ok:
  assumes ok: "ManagingSecrets pf s = (Ok (), s')" and ns: "\<forall>n \<in> set (td_NamespaceList (s_td s)). ns_name n \<noteq> []"
  shows "td_ProvisionedNamespaces (s_td s') =
      td_ProvisionedNamespaces (s_td s) @ map ns_name (td_NamespaceList (s_td s)) \<and>
    (\<forall>x. managed s' x \<subseteq> (if x \<in> ns_name ` set (td_NamespaceList (s_td s)) then configured s else {})) \<and>
    (\<forall>n \<in> set (td_NamespaceList (s_td s)). configured s \<subseteq> managed s' (ns_name n) \<or> ns_name n \<in> failed s')"
proof -
  obtain fl s1 where d: "DeleteOutdatedSecrets pf (sr_name (s_sr s)) (st_ProvisionedNamespaces (sr_Status (s_sr s))) s
      = (Ok fl, s1)"
    using ok unfolding ManagingSecrets_def by (auto split: if_err_split_asm)
  define s2 where "s2 = upd_td (\<lambda>t. t\<lparr>td_FailedNamespaces := fl, td_RequeueInterval := s_RequeueInterval s1,
      td_SecretManagedByNamespaces := []\<rparr>) s1"
  have k: "keeps s s1"
    using DeleteOutdatedSecrets_keeps [of s pf "sr_name (s_sr s)" "st_ProvisionedNamespaces (sr_Status (s_sr s))"] d by simp
  then have s2: "td_NamespaceList (s_td s2) = td_NamespaceList (s_td s)" "configured s2 = configured s"
    "td_ProvisionedNamespaces (s_td s2) = td_ProvisionedNamespaces (s_td s)" "\<And>x. managed s2 x = {}"
    by (simp_all add: s2_def keeps_def)
  have "manage_namespaces pf (td_NamespaceList (s_td s2)) [] [] s2 = (Ok (), s')"
    using ok d unfolding ManagingSecrets_def by (simp add: s2_def Let_def)
  from manage_namespaces_ok [OF this, unfolded s2] ns show ?thesis by simp
qed

end
