(* ===== verification/Controller_Safety.thy ===== *)
theory Controller_Safety
  imports Controller
begin

text \<open>
  Which secrets the operator writes: the histories of calls of the management loop, judged by a guard
  that asks for an earlier read of the same secret.
\<close>

section \<open>Only absent or owned secrets are written\<close>

text \<open>
  A guard over the calls made since the \<open>b\<close>-th: it need not be monotone, since every call is judged with
  the same past.
\<close>

definition since :: "nat \<Rightarrow> (api_call list \<Rightarrow> api_call \<Rightarrow> bool) \<Rightarrow> 'w state \<Rightarrow> 'w state \<Rightarrow> bool" where
  "since b G s s' \<longleftrightarrow> (\<exists>cs. s_calls s' = s_calls s @ cs \<and>
     (\<forall>i < length cs. G (drop b (s_calls s @ take i cs)) (cs ! i)))"

interpretation sn: step_rel "since b G" for b G
proof
  show "since b G s s" for s :: "'a state" by (simp add: since_def)
  fix s s' s'' :: "'a state"
  assume "since b G s s'" "since b G s' s''"
  then obtain cs ds where cs: "s_calls s' = s_calls s @ cs" "\<forall>i < length cs. G (drop b (s_calls s @ take i cs)) (cs ! i)"
    and ds: "s_calls s'' = s_calls s' @ ds" "\<forall>i < length ds. G (drop b (s_calls s' @ take i ds)) (ds ! i)"
    unfolding since_def by (elim exE conjE) (rule that)
  have "G (drop b (s_calls s @ take i (cs @ ds))) ((cs @ ds) ! i)" if "i < length (cs @ ds)" for i
  proof (cases "i < length cs")
    case True
    then show ?thesis using cs(2) by (simp add: nth_append)
  next
    case False
    then show ?thesis
      using ds(2) [rule_format, of "i - length cs"] that cs(1) by (simp add: nth_append)
  qed
  then show "since b G s s''" unfolding since_def using cs(1) ds(1) by (intro exI [of _ "cs @ ds"]) simp
qed

lemma since_guarded: "since (length (s_calls s)) G s s' \<longleftrightarrow> guarded G s s'"
  by (simp add: since_def guarded_def obeys_def)

lemma since_call: "(\<And>r. G (drop b (s_calls s)) (c r)) \<Longrightarrow> since b G s (snd (call f c s))"
  unfolding since_def by (auto simp: call_def case_prod_beta Let_def)

lemma since_frame:
  "s_calls s' = s_calls s @ cs \<Longrightarrow> (\<And>past c. c \<in> set cs \<Longrightarrow> G past c) \<Longrightarrow> since b G s s'"
  unfolding since_def by (intro exI [of _ cs]) simp

lemma call_calls: "call f c s = (r, s') \<Longrightarrow> s_calls s' = s_calls s @ [c r]"
  by (auto simp: call_def Let_def split: prod.splits)

text \<open>A secret has been seen when a read found it absent or controlled by the rotator.\<close>

definition seen :: "'w platform \<Rightarrow> string \<Rightarrow> string \<Rightarrow> string \<Rightarrow> api_call list \<Rightarrow> bool" where
  "seen pf rotator ns n past \<longleftrightarrow> (\<exists>r. GetSecretCall ns n r \<in> set past \<and>
     (case r of Ok x \<Rightarrow> IsSecretOwnedBy pf x rotator | Err e \<Rightarrow> pf_IsNotFound pf e | Panic _ \<Rightarrow> False))"

definition writes_seen :: "'w platform \<Rightarrow> string \<Rightarrow> api_call list \<Rightarrow> api_call \<Rightarrow> bool" where
  "writes_seen pf rotator past c =
     (case c of
        UpdateSecretCall x _ \<Rightarrow> seen pf rotator (secret_namespace x) (secret_name x) past
      | CreateSecretCall x _ \<Rightarrow> seen pf rotator (secret_namespace x) (secret_name x) past
      | _ \<Rightarrow> True)"

definition names_law :: "'w platform \<Rightarrow> bool" where
  "names_law pf \<longleftrightarrow>
     (\<forall>ns n w x w'. pf_GetSecret pf ns n w = (Ok x, w') \<longrightarrow> secret_namespace x = ns \<and> secret_name x = n) \<and>
     (\<forall>r x y. pf_SetControllerReference pf r x = Ok y \<longrightarrow>
        secret_namespace y = secret_namespace x \<and> secret_name y = secret_name x)"

lemma seen_append: "seen pf rot ns n xs \<Longrightarrow> seen pf rot ns n (xs @ ys)"
  by (auto simp: seen_def)

lemma seen_mono: "seen pf rot ns n (drop b cs) \<Longrightarrow> seen pf rot ns n (drop b (cs @ ds))"
  by (auto simp: seen_def)

lemma since_calls: "since b G s s' \<Longrightarrow> \<exists>ds. s_calls s' = s_calls s @ ds"
  by (auto simp: since_def)

lemma write_secret_since:
  assumes "seen pf rot (secret_namespace x) (secret_name x) (drop b (s_calls s))"
  shows "since b (writes_seen pf rot) s (snd (write_secret pf n t x s))"
proof -
  have "seen pf rot (secret_namespace x) (secret_name x) (drop b (s_calls s1))"
    if "call (pf_UpdateSecret pf x) (UpdateSecretCall x) s = (r, s1)" for r s1
    using call_calls [OF that] seen_mono [OF assms] by simp
  then show ?thesis
    unfolding write_secret_def using assms
    by (auto intro!: sn.if_err_rel since_call simp: writes_seen_def)
qed

lemma configure_names: "configure_secret td r t x = Ok y \<Longrightarrow> sc_Meta y = sc_Meta x"
  by (auto simp: configure_secret_def Let_def split: if_splits outcome.splits)

lemma CreateOrUpdateSecrets_since:
  assumes names: "names_law pf" and seen: "seen pf rot (ns_name ns) n (drop b (s_calls s))"
  shows "since b (writes_seen pf rot) s (snd (CreateOrUpdateSecrets pf ns n t s))"
proof -
  let ?o = "empty_secret\<lparr>sc_Meta := empty_meta\<lparr>om_Name := n, om_Namespace := ns_name ns\<rparr>\<rparr>"
  have cont: "since b (writes_seen pf rot) s1 (snd (case configure_secret (s_td s1) (s_sr s1) t x of
              Err e \<Rightarrow> (Ok (Some e, False), s1) | Panic p \<Rightarrow> (Panic p, s1)
            | Ok y \<Rightarrow> write_secret pf n t y s1))"
    if "secret_namespace x = ns_name ns" "secret_name x = n" "seen pf rot (ns_name ns) n (drop b (s_calls s1))" for x s1
    using that by (auto split: outcome.split intro!: write_secret_since dest!: configure_names)
  have meta: "secret_namespace x = ns_name ns \<and> secret_name x = n"
    if "setSecretMetadata pf r (ns_name ns) ?o = Ok x" for r x
    using that names by (auto simp: setSecretMetadata_def Let_def names_law_def)
  show ?thesis
    unfolding CreateOrUpdateSecrets_def Let_def
  proof (intro sn.if_err_rel since_call)
    show "writes_seen pf rot (drop b (s_calls s)) (GetSecretCall (ns_name ns) n r)" for r
      by (simp add: writes_seen_def)
    fix x s1
    assume g: "call (pf_GetSecret pf (ns_name ns) n) (GetSecretCall (ns_name ns) n) s = (Ok x, s1)"
    then have "pf_GetSecret pf (ns_name ns) n (s_world s) = (Ok x, s_world s1)"
      by (auto simp: call_def Let_def split: prod.splits)
    then have "secret_namespace x = ns_name ns" "secret_name x = n"
      using names unfolding names_law_def by blast+
    with call_calls [OF g] seen show "since b (writes_seen pf rot) s1
        (snd (case configure_secret (s_td s1) (s_sr s1) t x of
              Err e \<Rightarrow> (Ok (Some e, False), s1) | Panic p \<Rightarrow> (Panic p, s1)
            | Ok y \<Rightarrow> write_secret pf n t y s1))"
      by (intro cont) (simp_all add: seen_append)
  next
    fix e s1
    assume g: "call (pf_GetSecret pf (ns_name ns) n) (GetSecretCall (ns_name ns) n) s = (Err e, s1)"
    then have sn1: "seen pf rot (ns_name ns) n (drop b (s_calls s1))"
      using call_calls [OF g] seen by (simp add: seen_append)
    show "since b (writes_seen pf rot) s1 (snd (if pf_IsNotFound pf e
              then case setSecretMetadata pf (s_sr s1) (ns_name ns) ?o of
                     Err err \<Rightarrow>
                       if Contains (Error err) ''cross-namespace owner references are disallowed''
                       then (Ok (Some (FmtError (''failed to set cross-namespace owner references for '' @ t @
                               '' secret '' @ n) None), True), s1)
                       else (Ok (Some (FmtError (''failed to set controller reference for '' @ t @ '' secret '' @
                               n @ '': '' @ Error err) (Some err)), False), s1)
                   | Panic p \<Rightarrow> (Panic p, s1)
                   | Ok x \<Rightarrow> (case configure_secret (s_td s1) (s_sr s1) t x of
                        Err e \<Rightarrow> (Ok (Some e, False), s1) | Panic p \<Rightarrow> (Panic p, s1)
                      | Ok y \<Rightarrow> write_secret pf n t y s1)
              else (Ok (Some (FmtError (''failed to get '' @ t @ '' secret '' @ n @ '': '' @ Error e)
                      (Some e)), False), s1)))"
      using meta [of "s_sr s1"] cont [OF _ _ sn1] by (simp split: outcome.split)
  qed
qed

lemma scan_secrets_skips_grow:
  "scan_secrets pf ns gs f sk s = (Ok (f', sk'), s') \<Longrightarrow> map_of sk n \<noteq> None \<Longrightarrow> map_of sk' n \<noteq> None"
proof (induction gs arbitrary: f sk s)
  case (Cons g gs)
  from Cons.prems(1) obtain f1 s1 where "scan_secrets pf ns gs f1 sk s1 = (Ok (f', sk'), s') \<or>
      scan_secrets pf ns gs f1 (AList.update (gs_SecretName g) ns sk) s1 = (Ok (f', sk'), s')"
    by (auto split: if_err_split_asm if_splits)
  then show ?case using Cons.IH Cons.prems(2) by (metis fun_upd_apply map_of_update option.distinct(1))
qed simp

lemma scan_secrets_calls: "\<exists>cs. s_calls (snd (scan_secrets pf ns gs f sk s)) = s_calls s @ cs \<and>
    list_all (\<lambda>c. \<exists>n r. c = GetSecretCall ns n r) cs"
proof (induction gs arbitrary: f sk s)
  case (Cons g gs)
  obtain r s1 where g: "GetSecret pf ns (gs_SecretName g) s = (r, s1)" by fastforce
  then have c: "s_calls s1 = s_calls s @ [GetSecretCall ns (gs_SecretName g) r]"
    unfolding GetSecret_def by (rule call_calls)
  have step: "\<exists>cs. s_calls (snd (scan_secrets pf ns gs f sk s1)) = s_calls s @ cs \<and>
      list_all (\<lambda>c. \<exists>n r. c = GetSecretCall ns n r) cs" for f sk
  proof -
    obtain cs where "s_calls (snd (scan_secrets pf ns gs f sk s1)) = s_calls s1 @ cs"
      "list_all (\<lambda>c. \<exists>n r. c = GetSecretCall ns n r) cs"
      using Cons [of f sk s1] by blast
    then show ?thesis using c by (intro exI [of _ "GetSecretCall ns (gs_SecretName g) r # cs"]) simp
  qed
  show ?case
  proof (cases r)
    case (Panic p)
    then show ?thesis using g c by (intro exI [of _ "[GetSecretCall ns (gs_SecretName g) r]"]) simp
  qed (use g step in auto)
qed simp

lemma scan_secrets_seen:
  "scan_secrets pf ns gs f sk s = (Ok (f', sk'), s') \<Longrightarrow> b \<le> length (s_calls s) \<Longrightarrow> sr_name (s_sr s) = rot \<Longrightarrow>
   \<forall>g \<in> set gs. map_of sk' (gs_SecretName g) \<noteq> None \<or> seen pf rot ns (gs_SecretName g) (drop b (s_calls s'))"
proof (induction gs arbitrary: f sk s)
  case (Cons g gs)
  obtain r s1 where g: "GetSecret pf ns (gs_SecretName g) s = (r, s1)" by fastforce
  then have c: "s_calls s1 = s_calls s @ [GetSecretCall ns (gs_SecretName g) r]"
    unfolding GetSecret_def by (rule call_calls)
  have k: "sr_name (s_sr s1) = rot" "b \<le> length (s_calls s1)"
    using GetSecret_keeps [of s pf ns "gs_SecretName g"] g c Cons.prems(2,3) by (simp_all add: keeps_def)
  have ext: "\<exists>cs. s_calls s' = s_calls s1 @ cs" if "scan_secrets pf ns gs f1 sk1 s1 = (Ok (f', sk'), s')" for f1 sk1
    using scan_secrets_calls [of pf ns gs f1 sk1 s1] that by auto
  show ?case
  proof (cases "\<exists>f1. scan_secrets pf ns gs f1 (AList.update (gs_SecretName g) ns sk) s1 = (Ok (f', sk'), s')")
    case True
    then obtain f1 where rest: "scan_secrets pf ns gs f1 (AList.update (gs_SecretName g) ns sk) s1 = (Ok (f', sk'), s')"
      by blast
    have "map_of sk' (gs_SecretName g) \<noteq> None"
      by (rule scan_secrets_skips_grow [OF rest]) simp
    with Cons.IH [OF rest k(2,1)] show ?thesis by simp
  next
    case False
    then have rest: "scan_secrets pf ns gs f sk s1 = (Ok (f', sk'), s')"
      and ok: "case r of Ok x \<Rightarrow> IsSecretOwnedBy pf x rot | Err e \<Rightarrow> pf_IsNotFound pf e | Panic _ \<Rightarrow> False"
      using Cons.prems(1) g k(1) by (cases r; auto split: if_splits)+
    have "seen pf rot ns (gs_SecretName g) (drop b (s_calls s1))"
      unfolding seen_def using ok c Cons.prems(2) by (intro exI [of _ r]) simp
    then have "seen pf rot ns (gs_SecretName g) (drop b (s_calls s'))"
      using ext [OF rest] by (auto simp: seen_append)
    with Cons.IH [OF rest k(2,1)] show ?thesis by simp
  qed
qed simp

lemma write_secrets_since:
  assumes names: "names_law pf" and
    seen: "\<forall>g \<in> set gs. map_of sk (gs_SecretName g) \<noteq> None \<or> seen pf rot (ns_name ns) (gs_SecretName g) (drop b (s_calls s))"
  shows "since b (writes_seen pf rot) s (snd (write_secrets pf ns gs sk f s))"
  using seen
proof (induction gs arbitrary: f s)
  case (Cons g gs)
  show ?case
  proof (cases "map_of sk (gs_SecretName g) \<noteq> None \<or> map_get [] sk (gs_SecretName g) = ns_name ns")
    case True
    then show ?thesis using Cons by simp
  next
    case False
    have one: "since b (writes_seen pf rot) s (snd (CreateOrUpdateSecrets pf ns (gs_SecretName g) (gs_SecretType g) s))"
      using Cons.prems False by (intro CreateOrUpdateSecrets_since [OF names]) auto
    have rest: "since b (writes_seen pf rot) s1 (snd (write_secrets pf ns gs sk f s2))"
      if "CreateOrUpdateSecrets pf ns (gs_SecretName g) (gs_SecretType g) s = (r, s1)"
        and "s_calls s2 = s_calls s1" for r s1 s2 f
    proof -
      have "\<exists>ds. s_calls s1 = s_calls s @ ds" using since_calls [OF one] that(1) by simp
      then have "since b (writes_seen pf rot) s2 (snd (write_secrets pf ns gs sk f s2))"
        using Cons.prems that(2) by (intro Cons.IH) (auto simp: seen_append)
      then show ?thesis using that(2) by (simp add: since_def)
    qed
    show ?thesis
      using False one rest
      by (auto intro!: sn.if_err_rel simp: add_managed_def split: option.split)
  qed
qed simp

lemma since_only_deletes:
  "s_calls s' = s_calls s @ cs \<Longrightarrow> list_all is_delete cs \<Longrightarrow> since b (writes_seen pf rot) s s'"
  by (rule since_frame) (auto simp: list_all_iff is_delete_def writes_seen_def split: api_call.splits)

lemma delete_names_only: "\<exists>cs. s_calls (snd (delete_namespaces pf ch nss s)) = s_calls s @ cs \<and> list_all is_delete cs"
proof -
  obtain r s' where d: "delete_namespaces pf ch nss s = (r, s')" by fastforce
  then obtain cs where "s' = s\<lparr>s_world := s_world s', s_calls := s_calls s @ cs\<rparr>" "list_all is_delete cs"
    using delete_namespaces_calls by blast
  then show ?thesis using d by (metis snd_conv state.select_convs(2) state.surjective state.update_convs(2))
qed

lemma finish_namespace_since: "since b (writes_seen pf rot) s (snd (finish_namespace pf ns f s))"
proof -
  have frame: "since b (writes_seen pf rot) s1 s'" if "s_calls s' = s_calls s1" for s1 s' :: "'a state"
    using that by (simp add: since_def)
  have "since b (writes_seen pf rot) s1 (snd (DeleteOutdatedGeneratedSecrets pf s1))" for s1
  proof -
    have "\<exists>cs. s_calls (snd (DeleteOutdatedGeneratedSecrets pf s1)) = s_calls s1 @ cs \<and> list_all is_delete cs"
      unfolding DeleteOutdatedGeneratedSecrets_def case_prod_beta Let_def by (simp add: delete_names_only)
    then show ?thesis using since_only_deletes by blast
  qed
  then have "since b (writes_seen pf rot) (report_failures ns f s) (snd (finish_namespace pf ns f s))"
    unfolding finish_namespace_def Let_def
    by (auto intro!: sn.if_err_rel intro: frame)
  then show ?thesis
    by (rule sn.trans [OF frame, rotated]) (simp add: report_failures_def)
qed

lemma manage_namespace_since:
  assumes names: "names_law pf" and b: "b \<le> length (s_calls s)" and rot: "sr_name (s_sr s) = rot"
  shows "since b (writes_seen pf rot) s (snd (manage_namespace pf ns f sk s))"
  unfolding manage_namespace_def
proof (rule sn.if_err_rel)
  obtain cs where "s_calls (snd (scan_secrets pf (ns_name ns) (td_GeneratedSecrets (s_td s)) f sk s)) = s_calls s @ cs"
    "list_all (\<lambda>c. \<exists>n r. c = GetSecretCall (ns_name ns) n r) cs"
    using scan_secrets_calls by blast
  then show "since b (writes_seen pf rot) s (snd (scan_secrets pf (ns_name ns) (td_GeneratedSecrets (s_td s)) f sk s))"
    by (intro since_frame) (auto simp: list_all_iff writes_seen_def)
next
  fix x s1 assume "scan_secrets pf (ns_name ns) (td_GeneratedSecrets (s_td s)) f sk s = (Ok x, s1)"
  then obtain f1 sk1 where x: "x = (f1, sk1)"
    and scan: "scan_secrets pf (ns_name ns) (td_GeneratedSecrets (s_td s)) f sk s = (Ok (f1, sk1), s1)"
    by (cases x) auto
  have gen: "td_GeneratedSecrets (s_td s1) = td_GeneratedSecrets (s_td s)"
    using scan_secrets_keeps [of s pf "ns_name ns" "td_GeneratedSecrets (s_td s)" f sk] scan by (simp add: keeps_def)
  note seen1 = scan_secrets_seen [OF scan b rot]
  have tok: "since b (writes_seen pf rot) s1 (snd (HandlingToken pf s1))"
  proof -
    obtain cs where "s_calls (snd (HandlingToken pf s1)) = s_calls s1 @ cs" "list_all (\<lambda>c. \<not> on_secret c) cs"
      using tf_HandlingToken [of s1 pf] unfolding token_frame_def by blast
    then show ?thesis
      by (intro since_frame) (auto simp: list_all_iff writes_seen_def split: api_call.splits)
  qed
  have wri: "since b (writes_seen pf rot) s2 (snd (write_secrets pf ns (td_GeneratedSecrets (s_td s2)) sk1 f1 s2))"
    if "HandlingToken pf s1 = (r, s2)" for r s2
  proof (rule write_secrets_since [OF names])
    have "token_frame s1 s2" using tf_HandlingToken [of s1 pf] that by simp
    then obtain cs where "s_calls s2 = s_calls s1 @ cs" "td_GeneratedSecrets (s_td s2) = td_GeneratedSecrets (s_td s)"
      using gen unfolding token_frame_def by auto
    with seen1 show "\<forall>g \<in> set (td_GeneratedSecrets (s_td s2)). map_of sk1 (gs_SecretName g) \<noteq> None \<or>
        seen pf rot (ns_name ns) (gs_SecretName g) (drop b (s_calls s2))"
      by (auto simp: seen_append)
  qed
  show "since b (writes_seen pf rot) s1 (snd ((case x of (failedSecrets, skippedSecrets) \<Rightarrow> \<lambda>s.
     if_err (HandlingToken pf s) ret_err (\<lambda>_ s.
     if_err (write_secrets pf ns (td_GeneratedSecrets (s_td s)) skippedSecrets failedSecrets s) ret_err
       (\<lambda>failedSecrets s. finish_namespace pf (ns_name ns) failedSecrets s))) s1))"
    unfolding x prod.case using tok wri
    by (auto intro!: sn.if_err_rel finish_namespace_since)
qed simp

lemma manage_namespace_progress: "progress s (snd (manage_namespace pf ns f sk s))"
proof -
  have wri: "progress s1 (snd (write_secrets pf ns gs sk f s1))" for gs sk f s1
    using write_secrets_frame [of gs "gs_SecretName ` set gs" ns s1 pf sk f] by (simp add: write_frame_def)
  have fin: "progress s1 (snd (finish_namespace pf n f s1))" for n f s1
  proof -
    have "progress (report_failures n f s1) (snd (finish_namespace pf n f s1))"
      unfolding finish_namespace_def Let_def
      by (auto intro!: pr.if_err_rel keeps_progress [OF DeleteOutdatedGeneratedSecrets_keeps]) (simp_all add: progress_def)
    then show ?thesis by (rule pr.trans [OF report_failures_simps(1)])
  qed
  show ?thesis
    unfolding manage_namespace_def
    by (auto intro!: pr.if_err_rel keeps_progress [OF scan_secrets_keeps] token_frame_progress [OF tf_HandlingToken] wri fin)
qed

lemma manage_namespace_meta:
  "sr_Meta (s_sr (snd (manage_namespace pf ns f sk s))) = sr_Meta (s_sr s)"
  using manage_namespace_progress [of s pf ns f sk] by (simp add: progress_def)

lemma manage_namespaces_since:
  assumes names: "names_law pf"
  shows "b \<le> length (s_calls s) \<Longrightarrow> sr_name (s_sr s) = rot \<Longrightarrow>
    since b (writes_seen pf rot) s (snd (manage_namespaces pf nss f sk s))"
proof (induction nss arbitrary: f sk s)
  case (Cons n nss)
  have one: "since b (writes_seen pf rot) s (snd (manage_namespace pf n f sk s))"
    by (rule manage_namespace_since [OF names Cons.prems])
  have rest: "since b (writes_seen pf rot) s1 (snd (manage_namespaces pf nss f1 sk1 s1))"
    if "manage_namespace pf n f sk s = (r, s1)" for r s1 f1 sk1
  proof (rule Cons.IH)
    have "\<exists>ds. s_calls s1 = s_calls s @ ds" using since_calls [OF one] that by simp
    then show "b \<le> length (s_calls s1)" using Cons.prems(1) by auto
    show "sr_name (s_sr s1) = rot"
      using manage_namespace_meta [of pf n f sk s] that Cons.prems(2) by simp
  qed
  show ?case using one rest by (auto intro!: sn.if_err_rel split: prod.split)
qed simp

lemma DeleteSecret_calls_kind:
  "\<exists>cs. s_calls (snd (DeleteSecret pf n rot ns t s)) = s_calls s @ cs \<and>
     list_all (\<lambda>c. is_delete c \<or> (\<exists>r. c = GetSecretCall ns n r)) cs"
  by (auto simp: DeleteSecret_def GetSecret_def call_def case_prod_beta Let_def if_err_def split: outcome.split)

lemma DeleteSecret_since: "since b (writes_seen pf rot) s (snd (DeleteSecret pf n rot' ns t s))"
proof -
  obtain cs where "s_calls (snd (DeleteSecret pf n rot' ns t s)) = s_calls s @ cs"
    "list_all (\<lambda>c. is_delete c \<or> (\<exists>r. c = GetSecretCall ns n r)) cs"
    using DeleteSecret_calls_kind by blast
  then show ?thesis
    by (intro since_frame) (auto simp: list_all_iff is_delete_def writes_seen_def split: api_call.splits)
qed

lemma delete_generated_since: "since b (writes_seen pf rot) s (snd (delete_generated pf rot' ns gs f s))"
proof (induction gs arbitrary: f s)
  case (Cons g gs)
  then show ?case by (auto intro!: sn.if_err_rel DeleteSecret_since)
qed simp

lemma delete_removed_since: "since b (writes_seen pf rot) s (snd (delete_removed pf rot' gs nss f s))"
proof (induction nss arbitrary: f s)
  case (Cons n nss)
  then show ?case by (auto intro!: sn.if_err_rel delete_generated_since)
qed simp

lemma ManagingSecrets_since:
  assumes names: "names_law pf"
  shows "since (length (s_calls s)) (writes_seen pf (sr_name (s_sr s))) s (snd (ManagingSecrets pf s))"
  unfolding ManagingSecrets_def
proof (rule sn.if_err_rel)
  show "since (length (s_calls s)) (writes_seen pf (sr_name (s_sr s))) s
    (snd (DeleteOutdatedSecrets pf (sr_name (s_sr s)) (st_ProvisionedNamespaces (sr_Status (s_sr s))) s))"
    unfolding DeleteOutdatedSecrets_def by (rule delete_removed_since)
next
  fix fl s1
  assume d: "DeleteOutdatedSecrets pf (sr_name (s_sr s)) (st_ProvisionedNamespaces (sr_Status (s_sr s))) s = (Ok fl, s1)"
  define s2 where "s2 = upd_td (\<lambda>t. t\<lparr>td_FailedNamespaces := fl, td_RequeueInterval := s_RequeueInterval s1,
      td_SecretManagedByNamespaces := []\<rparr>) s1"
  have "since 0 (writes_seen pf (sr_name (s_sr s))) s s1"
    using delete_removed_since [of 0 pf "sr_name (s_sr s)" s] d unfolding DeleteOutdatedSecrets_def by (metis snd_conv)
  then have "length (s_calls s) \<le> length (s_calls s2)"
    using since_calls by (fastforce simp: s2_def)
  moreover have "sr_name (s_sr s2) = sr_name (s_sr s)"
    using DeleteOutdatedSecrets_keeps [of s pf "sr_name (s_sr s)" "st_ProvisionedNamespaces (sr_Status (s_sr s))"] d
    by (simp add: s2_def keeps_def)
  ultimately have "since (length (s_calls s)) (writes_seen pf (sr_name (s_sr s))) s2
      (snd (manage_namespaces pf (td_NamespaceList (s_td s2)) [] [] s2))"
    by (rule manage_namespaces_since [OF names])
  then show "since (length (s_calls s)) (writes_seen pf (sr_name (s_sr s))) s1
    (snd (let s = upd_td (\<lambda>t. t\<lparr>td_FailedNamespaces := fl, td_RequeueInterval := s_RequeueInterval s1,
                               td_SecretManagedByNamespaces := []\<rparr>) s1
        in manage_namespaces pf (td_NamespaceList (s_td s)) [] [] s))"
    by (simp add: since_def s2_def [symmetric] Let_def) (simp add: s2_def)
qed simp

end
