(* ===== verification/In_Memory.thy ===== *)
theory In_Memory
  imports Platform
begin

text \<open>
  A concrete instance of the platform record: a cluster held in memory, with a fixed environment and a
  token service.  The theorems about the operator hold for every platform; this one shows that what
  they assume of a platform can hold, and it lets them be evaluated on concrete inputs.
\<close>

record mem =
  m_secrets :: "((string \<times> string) \<times> Secret) list"
  m_namespaces :: "Namespace list"
  m_rotators :: "((string \<times> string) \<times> SecretRotator) list"
  m_env :: "string gomap"
  m_files :: "string gomap"

definition not_found :: goerror where "not_found = ExtError ''not found''"
definition already_exists :: goerror where "already_exists = ExtError ''already exists''"

definition named :: "string \<times> string \<Rightarrow> Secret \<Rightarrow> Secret" where
  "named k x = x\<lparr>sc_Meta := (sc_Meta x)\<lparr>om_Namespace := fst k, om_Name := snd k\<rparr>\<rparr>"

definition mem_lookup :: "mem \<Rightarrow> string \<times> string \<Rightarrow> Secret option" where
  "mem_lookup w k = map_option (named k) (map_of (m_secrets w) k)"

definition mem_get :: "string \<Rightarrow> string \<Rightarrow> mem \<Rightarrow> Secret outcome \<times> mem" where
  "mem_get ns n w = ((case mem_lookup w (ns, n) of None \<Rightarrow> Err not_found | Some x \<Rightarrow> Ok x), w)"

definition mem_store :: "Secret \<Rightarrow> mem \<Rightarrow> mem" where
  "mem_store x w = w\<lparr>m_secrets := AList.update (secret_namespace x, secret_name x) x (m_secrets w)\<rparr>"

definition mem_update :: "Secret \<Rightarrow> mem \<Rightarrow> unit outcome \<times> mem" where
  "mem_update x w = (if mem_lookup w (secret_namespace x, secret_name x) = None then (Err not_found, w)
                     else (Ok (), mem_store x w))"

definition mem_create :: "Secret \<Rightarrow> mem \<Rightarrow> unit outcome \<times> mem" where
  "mem_create x w = (if mem_lookup w (secret_namespace x, secret_name x) \<noteq> None then (Err already_exists, w)
                     else (Ok (), mem_store x w))"

definition mem_delete :: "Secret \<Rightarrow> mem \<Rightarrow> unit outcome \<times> mem" where
  "mem_delete x w = (if mem_lookup w (secret_namespace x, secret_name x) = None then (Err not_found, w)
                     else (Ok (), w\<lparr>m_secrets := AList.delete (secret_namespace x, secret_name x) (m_secrets w)\<rparr>))"

definition mem_put_rotator :: "SecretRotator \<Rightarrow> mem \<Rightarrow> SecretRotator outcome \<times> mem" where
  "mem_put_rotator r w = (Ok r, w\<lparr>m_rotators := AList.update (om_Namespace (sr_Meta r), sr_name r) r (m_rotators w)\<rparr>)"

definition mem_get_rotator :: "string \<times> string \<Rightarrow> mem \<Rightarrow> SecretRotator outcome \<times> mem" where
  "mem_get_rotator k w = ((case map_of (m_rotators w) k of None \<Rightarrow> Err not_found | Some r \<Rightarrow> Ok r), w)"

definition mem_owner :: "SecretRotator \<Rightarrow> OwnerReference" where
  "mem_owner r = \<lparr>or_APIVersion = GroupVersion_String, or_Kind = SecretKind, or_Name = sr_name r,
     or_UID = om_UID (sr_Meta r), or_Controller = Some True\<rparr>"

definition mem_set_owner :: "SecretRotator \<Rightarrow> Secret \<Rightarrow> Secret outcome" where
  "mem_set_owner r x = Ok (x\<lparr>sc_Meta := (sc_Meta x)\<lparr>om_OwnerReferences := mem_owner r # om_OwnerReferences (sc_Meta x)\<rparr>\<rparr>)"

definition with_finalizers :: "string list \<Rightarrow> SecretRotator \<Rightarrow> SecretRotator" where
  "with_finalizers fs r = r\<lparr>sr_Meta := (sr_Meta r)\<lparr>om_Finalizers := fs\<rparr>\<rparr>"

definition mem_token :: AccessResponse where
  "mem_token = \<lparr>ar_TokenId = ''id'', ar_AccessToken = ''tok'', ar_Scope = ''s'', ar_TokenType = ''Bearer'',
     ar_ExpiresIn = 3600, ar_Username = ''user''\<rparr>"

definition memory :: "mem platform" where
  "memory = \<lparr>
     pf_GetSecret = mem_get, pf_DeleteSecret = mem_delete, pf_UpdateSecret = mem_update, pf_CreateSecret = mem_create,
     pf_ListNamespaces = (\<lambda>_ w. (Ok (filter (\<lambda>n. ns_name n \<noteq> []) (m_namespaces w)), w)),
     pf_GetRotator = mem_get_rotator, pf_UpdateRotator = mem_put_rotator, pf_StatusUpdate = mem_put_rotator,
     pf_StatusPatch = (\<lambda>_. mem_put_rotator), pf_ListRotators = (\<lambda>w. (Ok (map snd (m_rotators w)), w)),
     pf_IsNotFound = (\<lambda>e. e = not_found),
     pf_GetControllerOf = (\<lambda>m. List.find (\<lambda>ref. or_Controller ref = Some True) (om_OwnerReferences m)),
     pf_SetControllerReference = mem_set_owner,
     pf_ContainsFinalizer = (\<lambda>r f. List.member (om_Finalizers (sr_Meta r)) f),
     pf_AddFinalizer = (\<lambda>r f. (\<not> List.member (om_Finalizers (sr_Meta r)) f, with_finalizers (om_Finalizers (sr_Meta r) @ [f]) r)),
     pf_RemoveFinalizer = (\<lambda>r f. (List.member (om_Finalizers (sr_Meta r)) f, with_finalizers (removeAll f (om_Finalizers (sr_Meta r))) r)),
     pf_SetStatusCondition = (\<lambda>c cs _. c # filter (\<lambda>d. cd_Type d \<noteq> cd_Type c) cs),
     pf_LabelSelectorAsSelector = (\<lambda>_. Ok ''app=demo''),
     pf_GetConfig = (\<lambda>_. Ok ''config''), pf_NewForConfig = (\<lambda>_. Ok ''clientset''),
     pf_GetPod = (\<lambda>_ _ _ w. (Ok \<lparr>pod_ServiceAccountName = ''jfrog-operator-sa''\<rparr>, w)),
     pf_GetServiceAccount = (\<lambda>_ ns n w. (Ok \<lparr>sa_Meta = empty_meta\<lparr>om_Name := n, om_Namespace := ns,
        om_Annotations := [(''eks.amazonaws.com/role-arn'', ''arn:aws:iam::1:role/r'')]\<rparr>\<rparr>, w)),
     pf_CreateToken = (\<lambda>_ _ _ _ _ w. (Ok ''jwt'', w)),
     pf_Getenv = (\<lambda>v w. map_get [] (m_env w) v),
     pf_Stat = (\<lambda>p w. if map_of (m_files w) p = None then Err not_found else Ok False),
     pf_IsNotExist = (\<lambda>e. e = not_found), pf_IsExist = (\<lambda>e. e = already_exists),
     pf_CreateFile = (\<lambda>p w. (Ok (), w\<lparr>m_files := AList.update p [] (m_files w)\<rparr>)),
     pf_WriteString = (\<lambda>p c w. (Ok (), w\<lparr>m_files := AList.update p c (m_files w)\<rparr>)),
     pf_MkdirAll = (\<lambda>_ w. (Ok (), w)),
     pf_ReadFile = (\<lambda>p w. case map_of (m_files w) p of None \<Rightarrow> Err not_found | Some c \<Rightarrow> Ok (bytes_of c)),
     pf_LoadX509KeyPair = (\<lambda>_ _ _. Ok ([], [])),
     pf_LoadDefaultConfig = (\<lambda>_ w. (Ok \<lparr>cfg_Region = ''us-west-2'', cfg_Source = ''default''\<rparr>, w)),
     pf_Retrieve = (\<lambda>_ w. (Ok (''ASIA12345678'', ''secret'', ''session''), w)),
     pf_GetRole = (\<lambda>_ _ w. (Ok (Some (Some 3600)), w)),
     pf_GetCallerIdentity = (\<lambda>_ w. (Ok (Some ''arn:aws:sts::1:assumed-role/r/s'', Some ''1''), w)),
     pf_Do = (\<lambda>_ _ w. (Ok \<lparr>resp_StatusCode = 200, resp_Body = []\<rparr>, w)),
     pf_DecodeAccess = (\<lambda>_. Ok mem_token),
     pf_DecodeCredentials = (\<lambda>_. Ok \<lparr>cred_AccessKeyId = ''ASIA12345678'', cred_SecretAccessKey = ''secret'', cred_Token = ''session''\<rparr>),
     pf_Sign = (\<lambda>_ _ _. Ok [1, 2, 3]),
     pf_Now = (\<lambda>_. \<lparr>t_Year = 2024, t_Month = 1, t_Day = 2, t_Hour = 3, t_Minute = 4, t_Second = 5\<rparr>),
     pf_UnixMilli = (\<lambda>_. 1700000000000), pf_Since = (\<lambda>_ _. 5000000000),
     pf_Intn = (\<lambda>_ i. i), pf_Range = (\<lambda>ks _. rev ks)\<rparr>"

text \<open>Its operations, one equation each.\<close>

lemma memory_ops:
  "pf_GetSecret memory = mem_get"
  "pf_DeleteSecret memory = mem_delete"
  "pf_UpdateSecret memory = mem_update"
  "pf_CreateSecret memory = mem_create"
  "pf_ListNamespaces memory = (\<lambda>_ w. (Ok (filter (\<lambda>n. ns_name n \<noteq> []) (m_namespaces w)), w))"
  "pf_GetRotator memory = mem_get_rotator"
  "pf_UpdateRotator memory = mem_put_rotator"
  "pf_StatusUpdate memory = mem_put_rotator"
  "pf_StatusPatch memory = (\<lambda>_. mem_put_rotator)"
  "pf_ListRotators memory = (\<lambda>w. (Ok (map snd (m_rotators w)), w))"
  "pf_IsNotFound memory = (\<lambda>e. e = not_found)"
  "pf_GetControllerOf memory = (\<lambda>m. List.find (\<lambda>ref. or_Controller ref = Some True) (om_OwnerReferences m))"
  "pf_SetControllerReference memory = mem_set_owner"
  "pf_ContainsFinalizer memory = (\<lambda>r f. List.member (om_Finalizers (sr_Meta r)) f)"
  "pf_AddFinalizer memory = (\<lambda>r f. (\<not> List.member (om_Finalizers (sr_Meta r)) f, with_finalizers (om_Finalizers (sr_Meta r) @ [f]) r))"
  "pf_RemoveFinalizer memory = (\<lambda>r f. (List.member (om_Finalizers (sr_Meta r)) f, with_finalizers (removeAll f (om_Finalizers (sr_Meta r))) r))"
  "pf_SetStatusCondition memory = (\<lambda>c cs _. c # filter (\<lambda>d. cd_Type d \<noteq> cd_Type c) cs)"
  "pf_LabelSelectorAsSelector memory = (\<lambda>_. Ok ''app=demo'')"
  "pf_GetConfig memory = (\<lambda>_. Ok ''config'')"
  "pf_NewForConfig memory = (\<lambda>_. Ok ''clientset'')"
  "pf_GetPod memory = (\<lambda>_ _ _ w. (Ok \<lparr>pod_ServiceAccountName = ''jfrog-operator-sa''\<rparr>, w))"
  "pf_GetServiceAccount memory = (\<lambda>_ ns n w. (Ok \<lparr>sa_Meta = empty_meta\<lparr>om_Name := n, om_Namespace := ns, om_Annotations := [(''eks.amazonaws.com/role-arn'', ''arn:aws:iam::1:role/r'')]\<rparr>\<rparr>, w))"
  "pf_CreateToken memory = (\<lambda>_ _ _ _ _ w. (Ok ''jwt'', w))"
  "pf_Getenv memory = (\<lambda>v w. map_get [] (m_env w) v)"
  "pf_Stat memory = (\<lambda>p w. if map_of (m_files w) p = None then Err not_found else Ok False)"
  "pf_IsNotExist memory = (\<lambda>e. e = not_found)"
  "pf_IsExist memory = (\<lambda>e. e = already_exists)"
  "pf_CreateFile memory = (\<lambda>p w. (Ok (), w\<lparr>m_files := AList.update p [] (m_files w)\<rparr>))"
  "pf_WriteString memory = (\<lambda>p c w. (Ok (), w\<lparr>m_files := AList.update p c (m_files w)\<rparr>))"
  "pf_MkdirAll memory = (\<lambda>_ w. (Ok (), w))"
  "pf_ReadFile memory = (\<lambda>p w. case map_of (m_files w) p of None \<Rightarrow> Err not_found | Some c \<Rightarrow> Ok (bytes_of c))"
  "pf_LoadX509KeyPair memory = (\<lambda>_ _ _. Ok ([], []))"
  "pf_LoadDefaultConfig memory = (\<lambda>_ w. (Ok \<lparr>cfg_Region = ''us-west-2'', cfg_Source = ''default''\<rparr>, w))"
  "pf_Retrieve memory = (\<lambda>_ w. (Ok (''ASIA12345678'', ''secret'', ''session''), w))"
  "pf_GetRole memory = (\<lambda>_ _ w. (Ok (Some (Some 3600)), w))"
  "pf_GetCallerIdentity memory = (\<lambda>_ w. (Ok (Some ''arn:aws:sts::1:assumed-role/r/s'', Some ''1''), w))"
  "pf_Do memory = (\<lambda>_ _ w. (Ok \<lparr>resp_StatusCode = 200, resp_Body = []\<rparr>, w))"
  "pf_DecodeAccess memory = (\<lambda>_. Ok mem_token)"
  "pf_DecodeCredentials memory = (\<lambda>_. Ok \<lparr>cred_AccessKeyId = ''ASIA12345678'', cred_SecretAccessKey = ''secret'', cred_Token = ''session''\<rparr>)"
  "pf_Sign memory = (\<lambda>_ _ _. Ok [1, 2, 3])"
  "pf_Now memory = (\<lambda>_. \<lparr>t_Year = 2024, t_Month = 1, t_Day = 2, t_Hour = 3, t_Minute = 4, t_Second = 5\<rparr>)"
  "pf_UnixMilli memory = (\<lambda>_. 1700000000000)"
  "pf_Since memory = (\<lambda>_ _. 5000000000)"
  "pf_Intn memory = (\<lambda>_ i. i)"
  "pf_Range memory = (\<lambda>ks _. rev ks)"
  by (simp_all add: memory_def)

lemmas mem_defs = memory_ops mem_get_def mem_update_def mem_create_def mem_delete_def mem_store_def mem_lookup_def
  named_def mem_put_rotator_def mem_get_rotator_def not_found_def already_exists_def

lemma mem_lookup_store [simp]:
  "mem_lookup (mem_store x w) = (mem_lookup w)((secret_namespace x, secret_name x) \<mapsto> named (secret_namespace x, secret_name x) x)"
  by (auto simp: mem_lookup_def mem_store_def update_conv' fun_eq_iff)

lemma named_self [simp]: "named (secret_namespace x, secret_name x) x = x"
  by (simp add: named_def)

lemma mem_lookup_named: "mem_lookup w (ns, n) = Some x \<Longrightarrow> secret_namespace x = ns \<and> secret_name x = n"
  by (auto simp: mem_lookup_def named_def)

text \<open>A state to start from: nothing has been called yet.\<close>

definition fresh :: "mem \<Rightarrow> TokenDetails \<Rightarrow> SecretRotator \<Rightarrow> mem state" where
  "fresh w td r = \<lparr>s_world = w, s_calls = [], s_td = td, s_sr = r, s_cache = None, s_RequeueInterval = 0\<rparr>"

end
