(* ===== verification/Operator_Theorems.thy ===== *)
theory Operator_Theorems
  imports Controller_Safety In_Memory
begin

text \<open>
  The theorems about the packages operations, resource and handler: validation of the resource, the
  clean-up of secrets, their content and ownership, the certificate files and the token request.  Those
  that assume something of the platform are applied to the cluster held in memory.
\<close>

section \<open>The cluster in memory keeps the assumed laws\<close>

lemma memory_write_laws:
  "write_law memory mem_update mem_lookup" "write_law memory mem_create mem_lookup"
  unfolding write_law_def
  by (auto simp: mem_update_def mem_create_def memory_def already_exists_def not_found_def same_content_def
      split: if_splits)

lemma memory_cluster_laws: "cluster_laws memory mem_lookup"
proof -
  have "get_law memory mem_lookup"
    by (auto simp: get_law_def memory_def mem_get_def dest: mem_lookup_named split: option.splits)
  moreover have "delete_law memory mem_lookup"
    by (auto simp: delete_law_def memory_def mem_delete_def mem_lookup_def delete_conv' fun_eq_iff split: if_splits)
  moreover have "reference_law memory"
    by (auto simp: reference_law_def memory_def mem_set_owner_def)
  ultimately show ?thesis
    using memory_write_laws by (simp add: cluster_laws_def) (simp add: memory_def)
qed

lemma memory_names_law: "names_law memory"
  by (auto simp: names_law_def memory_def mem_get_def mem_set_owner_def dest: mem_lookup_named split: option.splits)

definition demo_meta :: "string \<Rightarrow> ObjectMeta" where
  "demo_meta n = empty_meta\<lparr>om_Name := n, om_UID := ''u1''\<rparr>"

definition demo_rotator :: SecretRotator where
  "demo_rotator = empty_SecretRotator\<lparr>sr_Meta := demo_meta ''rot''\<rparr>"

definition demo_namespace :: "string \<Rightarrow> Namespace" where
  "demo_namespace n = \<lparr>ns_Meta = empty_meta\<lparr>om_Name := n\<rparr>\<rparr>"

definition demo_secret :: "string \<Rightarrow> string \<Rightarrow> Secret" where
  "demo_secret ns n = empty_secret\<lparr>sc_Meta := empty_meta\<lparr>om_Name := n, om_Namespace := ns,
     om_OwnerReferences := [mem_owner demo_rotator]\<rparr>\<rparr>"

definition demo_world :: mem where
  "demo_world = \<lparr>m_secrets = [((''ns'', ''a''), demo_secret ''ns'' ''a'')], m_namespaces = [demo_namespace ''ns''],
     m_rotators = [], m_env = [], m_files = []\<rparr>"

definition demo_td :: TokenDetails where
  "demo_td = empty_TokenDetails\<lparr>td_Username := ''user'', td_Token := ''tok'', td_NamespaceList := [demo_namespace ''ns''],
     td_GeneratedSecrets := [\<lparr>gs_SecretName = ''a'', gs_SecretType = SecretTypeGeneric, gs_Scope = []\<rparr>]\<rparr>"

definition demo_state :: "mem state" where
  "demo_state = fresh demo_world demo_td demo_rotator"

lemmas demo_defs = demo_meta_def demo_rotator_def demo_namespace_def demo_secret_def demo_world_def demo_td_def
  demo_state_def fresh_def empty_SecretRotator_def empty_meta_def empty_secret_def empty_TokenDetails_def mem_owner_def

section \<open>Validation\<close>

text \<open>the list of secrets is accepted exactly when the names are distinct and non-empty and every
  type is docker or generic.\<close>

lemma validate_secrets_accepts:
  "validate_secrets [] gs = None \<longleftrightarrow> distinct (map gs_SecretName gs) \<and> list_all valid_secret gs"
  by (simp add: validate_secrets_None_iff list_all_iff)

lemma GetServiceAccount_calls: "GetServiceAccount pf s = (r, s') \<Longrightarrow> \<exists>cs. s_calls s' = s_calls s @ cs"
  by (auto simp: GetServiceAccount_def GetK8sClient_def call_def Let_def if_err_def
      split: outcome.splits prod.splits)

lemma GetServiceAccount_td:
  "GetServiceAccount pf s = (Ok sa, s') \<Longrightarrow>
   \<exists>a b. s_td s' = (s_td s)\<lparr>td_DefaultServiceAccountName := a, td_DefaultServiceAccountNamespace := b\<rparr>"
  by (auto simp: GetServiceAccount_def GetK8sClient_def call_def Let_def if_err_def
      split: outcome.splits prod.splits) (intro exI, rule refl)

lemma strip_scheme_Nil: "strip_scheme u = [] \<longleftrightarrow> u = []"
  by (auto simp: strip_scheme_def)

text \<open>The steps of a validation that succeeds.\<close>

lemma ValidateObjectSpec_ok:
  assumes "ValidateObjectSpec pf s = (Ok u, s')"
  defines "spec \<equiv> sr_Spec (s_sr s)"
  shows "spec_secrets spec \<noteq> [] \<and> validate_secrets [] (spec_secrets spec) = None \<and> sp_ArtifactoryUrl spec \<noteq> [] \<and>
    (\<exists>sel items s2 sa. pf_LabelSelectorAsSelector pf (sp_NamespaceSelector spec) = Ok sel \<and> items \<noteq> [] \<and>
      call (pf_ListNamespaces pf sel) (ListNamespacesCall sel)
        (upd_td (\<lambda>t. t\<lparr>td_GeneratedSecrets := spec_secrets spec, td_NamespaceSelector := sel, td_NamespaceList := []\<rparr>) s)
        = (Ok items, s2) \<and>
      GetServiceAccount pf (upd_td (\<lambda>t. t\<lparr>td_NamespaceList := items,
        td_IAMRoleAwsRegion := (if sp_AwsRegion spec = [] then AwsRegion else sp_AwsRegion spec),
        td_ArtifactoryUrl := strip_scheme (sp_ArtifactoryUrl spec)\<rparr>) s2) = (Ok sa, s'))"
  using assms(1) unfolding ValidateObjectSpec_def Let_def spec_def [symmetric]
  by (simp split: if_split_asm option.split_asm outcome.split_asm if_err_split_asm)

text \<open>Every error of the validation is one of its own.\<close>

lemma ValidateObjectSpec_err:
  assumes "ValidateObjectSpec pf s = (Err e, s')"
  shows "\<exists>m c. e = ReconcileError 0 m c"
  using assms unfolding ValidateObjectSpec_def Let_def
  by (simp split: if_split_asm option.split_asm outcome.split_asm if_err_split_asm)
     (auto dest: validate_secrets_error
      simp: err_no_secrets_def err_selector_def err_no_namespaces_def err_no_url_def err_service_account_def err_no_role_def)

text \<open>The resource is left alone.\<close>

definition same_sr :: "'w state \<Rightarrow> 'w state \<Rightarrow> bool" where
  "same_sr s s' \<longleftrightarrow> s_sr s' = s_sr s"

interpretation ss: step_rel same_sr
  by unfold_locales (simp_all add: same_sr_def)

lemma same_sr_call: "s_sr s1 = s_sr s \<Longrightarrow> same_sr s (snd (call f c s1))"
  using call_keeps [of s1 f c] by (simp add: same_sr_def keeps_def)

lemma same_sr_GetServiceAccount: "s_sr s1 = s_sr s \<Longrightarrow> same_sr s (snd (GetServiceAccount pf s1))"
  using GetServiceAccount_keeps [of pf s1] unfolding same_sr_def by (metis prod.collapse)

lemma same_sr_td: "same_sr s (s\<lparr>s_td := t\<rparr>)"
  by (simp add: same_sr_def)

lemma ValidateObjectSpec_sr: "same_sr s (snd (ValidateObjectSpec pf s))"
  unfolding ValidateObjectSpec_def Let_def
  by (auto intro!: ss.if_err_rel same_sr_call same_sr_GetServiceAccount same_sr_td split: option.split outcome.split)

lemma ValidateObjectSpec_details:
  assumes "ValidateObjectSpec pf s = (Ok u, s')"
  shows "\<exists>sel items region a b. s_td s' = (s_td s)\<lparr>td_GeneratedSecrets := spec_secrets (sr_Spec (s_sr s)),
      td_NamespaceSelector := sel, td_NamespaceList := items, td_IAMRoleAwsRegion := region,
      td_ArtifactoryUrl := strip_scheme (sp_ArtifactoryUrl (sr_Spec (s_sr s))),
      td_DefaultServiceAccountName := a, td_DefaultServiceAccountNamespace := b\<rparr> \<and>
    spec_secrets (sr_Spec (s_sr s)) \<noteq> [] \<and> validate_secrets [] (spec_secrets (sr_Spec (s_sr s))) = None \<and>
    pf_LabelSelectorAsSelector pf (sp_NamespaceSelector (sr_Spec (s_sr s))) = Ok sel \<and>
    items \<noteq> [] \<and> sp_ArtifactoryUrl (sr_Spec (s_sr s)) \<noteq> [] \<and>
    region = (if sp_AwsRegion (sr_Spec (s_sr s)) = [] then AwsRegion else sp_AwsRegion (sr_Spec (s_sr s))) \<and>
    ListNamespacesCall sel (Ok items) \<in> set (drop (length (s_calls s)) (s_calls s'))"
proof -
  let ?spec = "sr_Spec (s_sr s)"
  from ValidateObjectSpec_ok [OF assms] obtain sel items s2 sa where
    sec: "spec_secrets ?spec \<noteq> []" "validate_secrets [] (spec_secrets ?spec) = None"
      "sp_ArtifactoryUrl ?spec \<noteq> []" "pf_LabelSelectorAsSelector pf (sp_NamespaceSelector ?spec) = Ok sel" "items \<noteq> []" and
    lst: "call (pf_ListNamespaces pf sel) (ListNamespacesCall sel)
      (upd_td (\<lambda>t. t\<lparr>td_GeneratedSecrets := spec_secrets ?spec, td_NamespaceSelector := sel, td_NamespaceList := []\<rparr>) s)
      = (Ok items, s2)" and
    acc: "GetServiceAccount pf (upd_td (\<lambda>t. t\<lparr>td_NamespaceList := items,
      td_IAMRoleAwsRegion := (if sp_AwsRegion ?spec = [] then AwsRegion else sp_AwsRegion ?spec),
      td_ArtifactoryUrl := strip_scheme (sp_ArtifactoryUrl ?spec)\<rparr>) s2) = (Ok sa, s')"
    by (elim exE conjE) (rule that)
  have s2: "s_td s2 = (s_td s)\<lparr>td_GeneratedSecrets := spec_secrets ?spec, td_NamespaceSelector := sel, td_NamespaceList := []\<rparr>"
    "s_calls s2 = s_calls s @ [ListNamespacesCall sel (Ok items)]"
    using lst by (auto simp: call_def Let_def split: prod.splits)
  obtain a b where td: "s_td s' = (s_td s)\<lparr>td_GeneratedSecrets := spec_secrets ?spec,
      td_NamespaceSelector := sel, td_NamespaceList := items,
      td_IAMRoleAwsRegion := (if sp_AwsRegion ?spec = [] then AwsRegion else sp_AwsRegion ?spec),
      td_ArtifactoryUrl := strip_scheme (sp_ArtifactoryUrl ?spec),
      td_DefaultServiceAccountName := a, td_DefaultServiceAccountNamespace := b\<rparr>"
    using GetServiceAccount_td [OF acc] s2 by auto
  have "ListNamespacesCall sel (Ok items) \<in> set (drop (length (s_calls s)) (s_calls s'))"
    using GetServiceAccount_calls [OF acc] s2 by auto
  with td sec show ?thesis
    by (intro exI [of _ sel] exI [of _ items] exI [of _ "if sp_AwsRegion ?spec = [] then AwsRegion else sp_AwsRegion ?spec"]
        exI [of _ a] exI [of _ b]) (simp add: AwsRegion_def)
qed

text \<open>The host of a configured URL: what follows its scheme, if it has one and more than that.\<close>

definition url_host :: "string \<Rightarrow> string \<Rightarrow> bool" where
  "url_host url host \<longleftrightarrow> host \<noteq> [] \<and>
     (url = ''https://'' @ host \<or> url = ''http://'' @ host \<or>
      url = host \<and> (\<nexists>h. h \<noteq> [] \<and> (url = ''https://'' @ h \<or> url = ''http://'' @ h)))"

lemma strip_scheme_of: "h \<noteq> [] \<Longrightarrow> strip_scheme (''https://'' @ h) = h" "h \<noteq> [] \<Longrightarrow> strip_scheme (''http://'' @ h) = h"
  by (simp_all add: strip_scheme_def)

lemma strip_scheme_other:
  assumes "strip_scheme url \<noteq> url"
  shows "\<exists>h. h \<noteq> [] \<and> (url = ''https://'' @ h \<or> url = ''http://'' @ h)"
proof -
  have "\<exists>h. h \<noteq> [] \<and> url = p @ h" if "take n url = p" "n < length url" for n p
    using that append_take_drop_id [of n url] by (intro exI [of _ "drop n url"]) simp
  then show ?thesis using assms unfolding strip_scheme_def by (metis (no_types))
qed

lemma strip_scheme_host:
  assumes "url \<noteq> []"
  shows "url_host url (strip_scheme url)"
proof (cases "\<exists>h. h \<noteq> [] \<and> (url = ''https://'' @ h \<or> url = ''http://'' @ h)")
  case True
  then obtain h where h: "h \<noteq> []" "url = ''https://'' @ h \<or> url = ''http://'' @ h" by blast
  then have "strip_scheme url = h" using strip_scheme_of by blast
  with h show ?thesis unfolding url_host_def by metis
next
  case False
  then have "strip_scheme url = url" using strip_scheme_other by blast
  with False assms show ?thesis unfolding url_host_def by simp
qed

text \<open>C16: after a successful validation the token details hold the secrets of the specification (the
  generated ones and last the docker secret named in it), which are distinct and valid, the non-empty list of
  namespaces the API server returned for the selector, the host of the configured URL without its
  scheme, and the configured region or us-west-2; every failure is a reconcile error without a retry time.
  The resource itself is not changed either way.\<close>

theorem validation_outcome:
  "case ValidateObjectSpec pf s of
     (Ok _, s') \<Rightarrow>
       s_sr s' = s_sr s \<and>
       td_GeneratedSecrets (s_td s') = sp_GeneratedSecrets (sr_Spec (s_sr s)) @
         (if sp_SecretName (sr_Spec (s_sr s)) = [] then []
          else [\<lparr>gs_SecretName = sp_SecretName (sr_Spec (s_sr s)), gs_SecretType = ''docker'', gs_Scope = []\<rparr>]) \<and>
       td_GeneratedSecrets (s_td s') \<noteq> [] \<and>
       distinct (map gs_SecretName (td_GeneratedSecrets (s_td s'))) \<and> list_all valid_secret (td_GeneratedSecrets (s_td s')) \<and>
       pf_LabelSelectorAsSelector pf (sp_NamespaceSelector (sr_Spec (s_sr s))) = Ok (td_NamespaceSelector (s_td s')) \<and>
       td_NamespaceList (s_td s') \<noteq> [] \<and>
       ListNamespacesCall (td_NamespaceSelector (s_td s')) (Ok (td_NamespaceList (s_td s')))
         \<in> set (drop (length (s_calls s)) (s_calls s')) \<and>
       url_host (sp_ArtifactoryUrl (sr_Spec (s_sr s))) (td_ArtifactoryUrl (s_td s')) \<and>
       td_IAMRoleAwsRegion (s_td s') =
         (if sp_AwsRegion (sr_Spec (s_sr s)) = [] then ''us-west-2'' else sp_AwsRegion (sr_Spec (s_sr s)))
   | (Err e, s') \<Rightarrow> s_sr s' = s_sr s \<and> (\<exists>m c. e = ReconcileError 0 m c)
   | (Panic p, s') \<Rightarrow> True"
proof -
  obtain r s' where v: "ValidateObjectSpec pf s = (r, s')" by fastforce
  have sr: "s_sr s' = s_sr s" using ValidateObjectSpec_sr [of s pf] v by (simp add: same_sr_def)
  show ?thesis
  proof (cases r)
    case (Ok u)
    from ValidateObjectSpec_details [OF v [unfolded Ok]] show ?thesis
      unfolding v Ok prod.case outcome.case
      by (elim exE conjE)
        (simp add: sr validate_secrets_None_iff list_all_iff strip_scheme_host spec_secrets_def secret_types AwsRegion_def)
  qed (use v sr in \<open>auto dest: ValidateObjectSpec_err\<close>)
qed

section \<open>Namespace labels\<close>

text \<open>What a label selector with the given match labels asks of a namespace.\<close>

definition labels_match :: "string gomap \<Rightarrow> string gomap \<Rightarrow> bool" where
  "labels_match namespaceLabels matchLabels \<longleftrightarrow> (\<forall>(k, v) \<in> set matchLabels. map_of namespaceLabels k = Some v)"

lemma IsExist_iff:
  "wf_map objectLabels \<Longrightarrow> IsExist namespaceLabels objectLabels \<longleftrightarrow> (\<forall>(k, v) \<in> set objectLabels. map_get [] namespaceLabels k = v)"
  by (fastforce simp: IsExist_def list_all_iff map_get_def split: option.splits)

text \<open>C38: the label test of the event filter agrees with the match-labels selector when no label of the
  selector has the empty value.\<close>

theorem label_test_is_selector:
  assumes "wf_map objectLabels" "\<forall>v \<in> snd ` set objectLabels. v \<noteq> []"
  shows "IsExist namespaceLabels objectLabels \<longleftrightarrow> labels_match namespaceLabels objectLabels"
  using assms by (fastforce simp: IsExist_iff labels_match_def map_get_def split: option.splits)

theorem label_test_is_selector_witness:
  "IsExist [(''env'', ''prod''), (''team'', ''x'')] [(''env'', ''prod'')] \<and> labels_match [(''env'', ''prod''), (''team'', ''x'')] [(''env'', ''prod'')]"
  using label_test_is_selector [of "[(''env'', ''prod'')]" "[(''env'', ''prod''), (''team'', ''x'')]"]
  by (simp add: labels_match_def)

text \<open>with an empty value in the selector the two differ: a namespace without the label passes the
  test of the event filter, which reads a missing label as the empty string.\<close>

lemma label_test_missing_label:
  "IsExist namespaceLabels [(k, [])] \<noteq> labels_match namespaceLabels [(k, [])] \<longleftrightarrow> map_of namespaceLabels k = None"
  by (auto simp: IsExist_iff labels_match_def map_get_def split: option.split)

section \<open>Clean-up\<close>

text \<open>C13: the clean-up of generated secrets issues deletions only, and only for secrets recorded for a
  namespace in the last status, where the namespace is managed in this cycle and the secret is not;
  when it ends without an error it has issued them for all of these.\<close>

theorem outdated_generated_deleted:
  assumes "wf_map (st_SecretManagedByNamespaces (sr_Status (s_sr s)))"
  shows "case DeleteOutdatedGeneratedSecrets pf s of (r, s') \<Rightarrow>
    \<exists>cs. s_calls s' = s_calls s @ cs \<and> list_all is_delete cs \<and>
      (let out = outdated (td_SecretManagedByNamespaces (s_td s)) (st_SecretManagedByNamespaces (sr_Status (s_sr s)))
       in delete_calls cs \<subseteq> out \<and> (r = Ok () \<longrightarrow> delete_calls cs = out))"
proof -
  obtain r s' where d: "DeleteOutdatedGeneratedSecrets pf s = (r, s')" by fastforce
  from DeleteOutdatedGeneratedSecrets_calls [OF assms d] obtain cs where
    cs: "s' = s\<lparr>s_world := s_world s', s_calls := s_calls s @ cs\<rparr>" "list_all is_delete cs"
    "delete_calls cs \<subseteq> outdated (td_SecretManagedByNamespaces (s_td s)) (st_SecretManagedByNamespaces (sr_Status (s_sr s)))"
    "r = Ok () \<longrightarrow> delete_calls cs = outdated (td_SecretManagedByNamespaces (s_td s)) (st_SecretManagedByNamespaces (sr_Status (s_sr s)))"
    by (elim exE conjE) (rule that)
  have "s_calls s' = s_calls s @ cs" by (subst cs(1)) simp
  then show ?thesis using cs(2-4) by (auto simp: d Let_def)
qed

definition demo_cleanup :: "mem state" where
  "demo_cleanup = (let r = demo_rotator\<lparr>sr_Status := (sr_Status demo_rotator)\<lparr>st_SecretManagedByNamespaces := [(''ns'', [''a'', ''b''])]\<rparr>\<rparr>
                   in fresh demo_world (demo_td\<lparr>td_SecretManagedByNamespaces := [(''ns'', [''b''])]\<rparr>) r)"

theorem outdated_generated_deleted_witness:
  "case DeleteOutdatedGeneratedSecrets memory demo_cleanup of (r, s') \<Rightarrow>
    \<exists>cs. s_calls s' = s_calls demo_cleanup @ cs \<and> list_all is_delete cs \<and>
      (let out = outdated [(''ns'', [''b''])] [(''ns'', [''a'', ''b''])]
       in (''ns'', ''a'') \<in> out \<and> delete_calls cs \<subseteq> out \<and> (r = Ok () \<longrightarrow> delete_calls cs = out))"
  using outdated_generated_deleted [of demo_cleanup memory]
  by (auto simp: demo_cleanup_def demo_defs outdated_def Let_def)

text \<open>C14: the clean-up of namespaces that are no longer selected deletes a secret only right after a read
  that returned this secret, controlled by the rotator.\<close>

theorem removed_namespaces_deletions_owned:
  "guarded (deletes_owned pf rotator) s (snd (DeleteOutdatedSecrets pf rotator provisioned s))"
  unfolding DeleteOutdatedSecrets_def by (rule delete_removed_guarded)

text \<open>C15: a successful \<open>DeleteSecret\<close> removes the secret when the rotator controls it, and changes nothing
  when the secret is missing or belongs to someone else.\<close>

theorem delete_secret_effect:
  assumes "cluster_laws pf st"
  shows "case DeleteSecret pf n rotator ns t s of
     (Ok _, s') \<Rightarrow> st (s_world s') =
       (case st (s_world s) (ns, n) of
          Some x \<Rightarrow> if IsSecretOwnedBy pf x rotator then (st (s_world s))((ns, n) := None) else st (s_world s)
        | None \<Rightarrow> st (s_world s))
   | _ \<Rightarrow> True"
  using DeleteSecret_effect [OF assms] by (simp split: prod.split outcome.split)

theorem delete_secret_effect_witness:
  "mem_lookup (s_world (snd (DeleteSecret memory ''a'' ''rot'' ''ns'' SecretTypeGeneric demo_state))) = Map.empty"
proof -
  have own: "mem_lookup demo_world (''ns'', ''a'') = Some (demo_secret ''ns'' ''a'')"
    "IsSecretOwnedBy memory (demo_secret ''ns'' ''a'') ''rot''"
    "(mem_lookup demo_world)((''ns'', ''a'') := None) = Map.empty"
    by (auto simp: mem_defs demo_defs IsSecretOwnedBy_def fun_eq_iff)
  have "fst (DeleteSecret memory ''a'' ''rot'' ''ns'' SecretTypeGeneric demo_state) = Ok ()"
    by (simp add: DeleteSecret_def GetSecret_def call_def mem_defs demo_defs IsSecretOwnedBy_def)
  moreover have "s_world demo_state = demo_world" by (simp add: demo_state_def fresh_def)
  ultimately show ?thesis
    using delete_secret_effect [OF memory_cluster_laws, where s = demo_state and n = "''a''" and rotator = "''rot''"
        and ns = "''ns''" and t = SecretTypeGeneric] own
    by (cases "DeleteSecret memory ''a'' ''rot'' ''ns'' SecretTypeGeneric demo_state") simp
qed

section \<open>Content of the secrets\<close>

text \<open>C5: when \<open>CreateOrUpdateSecrets\<close> reports success the cluster holds, under that name, a secret with
  exactly the data and type for the current user and token, no other secret has changed, and a
  secret that was not there has the labels and annotations of the resource.\<close>

theorem secret_stored:
  assumes "cluster_laws pf st" "t \<in> {SecretTypeDocker, SecretTypeGeneric}"
  shows "case CreateOrUpdateSecrets pf ns n t s of
     (Ok (None, b), s') \<Rightarrow>
       \<exists>y. st (s_world s') = (st (s_world s))((ns_name ns, n) \<mapsto> y) \<and>
         sc_Data y = desired_data (s_td s) (s_sr s) t \<and> sc_Type y = desired_type t \<and>
         (st (s_world s) (ns_name ns, n) = None \<longrightarrow>
            om_Labels (sc_Meta y) = smd_Labels (sp_SecretMetadata (sr_Spec (s_sr s))) \<and>
            om_Annotations (sc_Meta y) = smd_Annotations (sp_SecretMetadata (sr_Spec (s_sr s))))
   | _ \<Rightarrow> True"
  using CreateOrUpdateSecrets_stores [OF assms] by (simp split: prod.split outcome.split option.split) blast

theorem secret_stored_witness:
  "\<exists>y. mem_lookup (s_world (snd (CreateOrUpdateSecrets memory (demo_namespace ''ns'') ''new'' SecretTypeGeneric demo_state)))
      (''ns'', ''new'') = Some y \<and>
    sc_Data y = [(GenericSecretUser, bytes_of ''user''), (GenericSecretToken, bytes_of ''tok'')] \<and> sc_Type y = SecretTypeOpaque"
proof -
  let ?r = "CreateOrUpdateSecrets memory (demo_namespace ''ns'') ''new'' SecretTypeGeneric demo_state"
  have "\<exists>s'. ?r = (Ok (None, False), s')"
    by (simp add: CreateOrUpdateSecrets_def configure_secret_def write_secret_def setSecretMetadata_def call_def
        mem_defs demo_defs mem_set_owner_def secret_types)
  then obtain s' where "?r = (Ok (None, False), s')" by blast
  then show ?thesis
    using secret_stored [OF memory_cluster_laws, where t = SecretTypeGeneric and ns = "demo_namespace ''ns''"
        and n = "''new''" and s = demo_state]
    by (auto simp: demo_defs desired_data_def desired_type_def secret_types)
qed

text \<open>the docker configuration is the JSON object with one entry for the Artifactory host and for each
  subdomain, without repetitions and sorted, each carrying the same \<open>auth\<close>; it never fails.\<close>

lemma docker_config_text:
  "generateDockerConfigJSON auth r = Ok (bytes_of (docker_text auth (docker_hosts (sr_Spec r))))"
  by (rule generateDockerConfigJSON_text)

lemma json_body_plain:
  "\<forall>c \<in> set s. of_char c < (128 :: nat) \<and> json_char c = [c] \<Longrightarrow> json_body s = s"
proof (induction s rule: json_body.induct)
  case (2 c s)
  then have "rune_len (c # s) = 1" by auto
  with 2 show ?case by (simp add: Let_def)
qed simp

lemma b64_plain: "list_all (\<lambda>c. of_char c < (128 :: nat) \<and> json_char c = [c]) (CHR ''='' # b64_alphabet)"
  by code_simp

lemma base64_json: "json_string (base64_EncodeToString bs) = [CHR 0x22] @ base64_EncodeToString bs @ [CHR 0x22]"
  unfolding json_string_def using base64_alphabet [of bs] b64_plain
  by (subst json_body_plain) (auto simp: list_all_iff)

text \<open>C31: a docker secret is given one entry, the JSON object with the Artifactory host and every subdomain
  once and in order, each with the same \<open>auth\<close> value, without escapes; that value decodes to the user and
  the token, separated by a colon.\<close>

theorem docker_auth_decodes:
  "\<exists>auth hosts y. configure_secret td r SecretTypeDocker x = Ok y \<and>
     sc_Meta y = sc_Meta x \<and> sc_Type y = ''kubernetes.io/dockerconfigjson'' \<and>
     base64_decode auth = Some (bytes_of (td_Username td @ '':'' @ td_Token td)) \<and>
     sorted hosts \<and> distinct hosts \<and>
     set hosts = insert (sp_ArtifactoryUrl (sr_Spec r)) (set (sp_ArtifactorySubdomains (sr_Spec r))) \<and>
     sc_Data y = [(''.dockerconfigjson'', bytes_of (''{'' @ json_string ''auths'' @ '':{'' @
        Join (map (\<lambda>h. json_string h @ '':{'' @ json_string ''auth'' @ '':'' @ [CHR 0x22] @ auth @ [CHR 0x22] @ ''}'') hosts) '','' @ ''}}''))]"
proof -
  define auth where "auth = base64_EncodeToString (bytes_of (td_Username td @ '':'' @ td_Token td))"
  define y where "y = x\<lparr>sc_Data := desired_data td r SecretTypeDocker, sc_Type := desired_type SecretTypeDocker\<rparr>"
  have "configure_secret td r SecretTypeDocker x = Ok y"
    unfolding y_def by (rule configure_secret_eq) simp
  moreover have "sc_Meta y = sc_Meta x" "sc_Type y = ''kubernetes.io/dockerconfigjson''"
    by (simp_all add: y_def desired_type_def SecretTypeDockerConfigJson_def)
  moreover have "base64_decode auth = Some (bytes_of (td_Username td @ '':'' @ td_Token td))"
    unfolding auth_def by (rule base64_decode_encode)
  moreover have "json_string auth = [CHR 0x22] @ auth @ [CHR 0x22]" unfolding auth_def by (rule base64_json)
  then have "sc_Data y = [(''.dockerconfigjson'', bytes_of (''{'' @ json_string ''auths'' @ '':{'' @
      Join (map (\<lambda>h. json_string h @ '':{'' @ json_string ''auth'' @ '':'' @ [CHR 0x22] @ auth @ [CHR 0x22] @ ''}'')
        (docker_hosts (sr_Spec r))) '','' @ ''}}''))]"
    unfolding y_def desired_data_def docker_text_def auth_def [symmetric] by (simp add: DockerSecretJSON_def)
  moreover have "sorted (docker_hosts (sr_Spec r))" "distinct (docker_hosts (sr_Spec r))"
    "set (docker_hosts (sr_Spec r)) = insert (sp_ArtifactoryUrl (sr_Spec r)) (set (sp_ArtifactorySubdomains (sr_Spec r)))"
    by (simp_all add: docker_hosts_def del: sorted_list_of_set_insert_remove)
  ultimately show ?thesis by blast
qed

text \<open>The reported failures are sorted by namespace, hold one entry per failed namespace with the text
  of its error, and do not depend on the order in which the runtime visits the map.\<close>

lemma namespace_failures_sorted:
  assumes "wf_map failures" "mset failures = mset failures'"
  shows "ToNamespaceFailures failures' = ToNamespaceFailures failures \<and>
    sorted (map nf_Namespace (ToNamespaceFailures failures)) \<and> distinct (map nf_Namespace (ToNamespaceFailures failures)) \<and>
    set (ToNamespaceFailures failures) = (\<lambda>(ns, e). \<lparr>nf_Namespace = ns, nf_Reason = Error e\<rparr>) ` set failures"
proof -
  let ?f = "\<lambda>(ns, e). \<lparr>nf_Namespace = ns, nf_Reason = Error e\<rparr>"
  have names: "map nf_Namespace (map ?f failures) = map fst failures" by (simp add: case_prod_beta)
  have "sort_key nf_Namespace (map ?f failures) = sort_key nf_Namespace (map ?f failures')"
    using assms names by (intro sort_key_mset_eq) (simp_all only: mset_map)
  moreover have "distinct (map nf_Namespace (sort_key nf_Namespace (map ?f failures)))"
    using assms(1) names by (metis distinct_map mset_eq_imp_distinct_iff mset_sort mset_map)
  ultimately show ?thesis using mset_eq_setD [OF assms(2)] by (simp add: ToNamespaceFailures_def)
qed

lemma namespace_failures_sorted_witness:
  "ToNamespaceFailures [(''a'', ExtError ''y''), (''b'', ExtError ''x'')] =
   ToNamespaceFailures [(''b'', ExtError ''x''), (''a'', ExtError ''y'')]"
  using namespace_failures_sorted [of "[(''b'', ExtError ''x''), (''a'', ExtError ''y'')]"
      "[(''a'', ExtError ''y''), (''b'', ExtError ''x'')]"] by (simp add: add_mset_commute)

section \<open>Certificates\<close>

text \<open>C33: storing the certificates of a secret reads a secret and writes nothing but the six certificate
  files below the rotator's directory; when it succeeds, every certificate key of the secret has been
  written to its file with the secret's value.\<close>

theorem certificates_written:
  "case HandleCerts pf ns n rotator s of (r, s') \<Rightarrow>
    guarded (touches_certs rotator) s s' \<and>
    (r = Ok () \<longrightarrow> (\<exists>x cs. s_calls s' = s_calls s @ GetSecretCall ns n (Ok x) # cs \<and>
       {WriteStringCall (cert_file rotator k) (string_of v) (Ok ()) | k v. map_of (sc_Data x) k = Some v \<and> k \<in> set cert_keys}
         \<subseteq> set cs))"
proof -
  obtain r s' where h: "HandleCerts pf ns n rotator s = (r, s')" by fastforce
  have "\<exists>x cs. s_calls s' = s_calls s @ GetSecretCall ns n (Ok x) # cs \<and>
      {WriteStringCall (cert_file rotator k) (string_of v) (Ok ()) | k v. map_of (sc_Data x) k = Some v \<and> k \<in> set cert_keys}
         \<subseteq> set cs" if ok: "r = Ok ()"
  proof -
    obtain x s1 s2 where g: "GetSecret pf ns n s = (Ok x, s1)"
      and d: "CreateDir pf (CustomCertificatePath @ rotator) s1 = (Ok (), s2)"
      and c: "create_certs pf rotator (sc_Data x) (range_keys pf (sc_Data x) s2) s2 = (Ok (), s')"
      using h ok unfolding HandleCerts_def by (auto split: if_err_split_asm)
    have "s_calls s1 = s_calls s @ [GetSecretCall ns n (Ok x)]"
      using g unfolding GetSecret_def by (rule call_calls)
    moreover have "\<exists>ds. s_calls s2 = s_calls s1 @ ds"
      using d by (auto simp: CreateDir_def Let_def call_def split: outcome.splits prod.splits if_err_split_asm if_splits)
    moreover from create_certs_written [OF c] obtain cs where "s_calls s' = s_calls s2 @ cs"
      "\<forall>k \<in> fst ` set (sc_Data x) \<inter> set cert_keys.
        WriteStringCall (cert_file rotator k) (string_of (map_get [] (sc_Data x) k)) (Ok ()) \<in> set cs" by auto
    ultimately show ?thesis
      by (auto simp: map_get_def dest!: bspec split: option.splits intro!: exI)
         (metis IntI domI dom_map_of_conv_image_fst)
  qed
  then show ?thesis using HandleCerts_guarded [of rotator s pf ns n] h by simp
qed

definition cert_world :: mem where
  "cert_world = demo_world\<lparr>m_secrets := [((''op'', ''tls''), empty_secret\<lparr>sc_Data := [(''tls.crt'', bytes_of ''PEM''), (''note'', [])]\<rparr>)]\<rparr>"

lemma cert_run:
  "\<exists>s' x cs. HandleCerts memory ''op'' ''tls'' ''rot'' (fresh cert_world demo_td demo_rotator) = (Ok (), s') \<and>
     s_calls s' = GetSecretCall ''op'' ''tls'' (Ok x) # cs \<and> map_of (sc_Data x) ''tls.crt'' = Some (bytes_of ''PEM'')"
  by (simp add: HandleCerts_def GetSecret_def CreateDir_def CreateFile_def call_def fresh_def cert_world_def demo_world_def empty_secret_def
      empty_meta_def mem_defs range_keys_def CaPem_def CertPem_def KeyPem_def TlsKey_def TlsCrt_def TlsCa_def Let_def)

theorem certificates_written_witness:
  "WriteStringCall (cert_file ''rot'' ''tls.crt'') ''PEM'' (Ok ())
     \<in> set (s_calls (snd (HandleCerts memory ''op'' ''tls'' ''rot'' (fresh cert_world demo_td demo_rotator))))"
proof -
  obtain s' x cs where run: "HandleCerts memory ''op'' ''tls'' ''rot'' (fresh cert_world demo_td demo_rotator) = (Ok (), s')"
    "s_calls s' = GetSecretCall ''op'' ''tls'' (Ok x) # cs" "map_of (sc_Data x) ''tls.crt'' = Some (bytes_of ''PEM'')"
    using cert_run by blast
  have "string_of (bytes_of ''PEM'') = ''PEM''" "''tls.crt'' \<in> set cert_keys" by (simp_all add: cert_keys_def)
  with certificates_written [where pf = memory and ns = "''op''" and n = "''tls''" and rotator = "''rot''"
      and s = "fresh cert_world demo_td demo_rotator"] run
  show ?thesis by (fastforce simp: fresh_def)
qed

section \<open>Roles\<close>

text \<open>The ARN of an assumed role is mapped to the ARN of its IAM role, from which the role name the
  session lookup uses is read back: for a role without a path, the name in the assumed-role ARN.\<close>

lemma assumed_role_round_trip:
  assumes "CHR ''/'' \<notin> set pre" "CHR ''/'' \<notin> set session" "CHR ''/'' \<notin> set account"
  shows "\<exists>arn. assumedRoleSTSArnToIAMRoleARN (pre @ '':assumed-role/'' @ role @ ''/'' @ session) account = Ok arn \<and>
    tl (Split arn (CHR ''/'')) = Split role (CHR ''/'')"
  using assumed_role_arn [OF assms(1,2), of role account] role_of_arn [OF assms(3), of role] by simp

lemma assumed_role_round_trip_witness:
  "\<exists>arn. assumedRoleSTSArnToIAMRoleARN (''arn:aws:sts::123'' @ '':assumed-role/'' @ ''my-role'' @ ''/'' @ ''sess'') ''123'' = Ok arn \<and>
    tl (Split arn (CHR ''/'')) = [''my-role'']"
  using assumed_role_round_trip [of "''arn:aws:sts::123''" "''sess''" "''123''" "''my-role''"] by simp

section \<open>The token\<close>

text \<open>C32: the authentication flow.  When Pod Identity is detected and the configured type allows it, a request
  that is obtained is signed for the credentials that the endpoint of the environment answered; otherwise, when the
  type allows web identity, for the credentials that the annotated role was given for a token of the service
  account; the flow that was used is recorded.  In all other cases there is an event and an error.\<close>

theorem auth_flow:
  "case signed_request pf account clientset s of (r, s') \<Rightarrow>
     (let a = sp_AuthType (sr_Spec (s_sr s))
      in if DetectPodIdentity pf s \<and> a \<in> {[], ''auto'', ''podIdentity''} then
           (case r of Ok req \<Rightarrow> signed_by_pod pf s s' req \<and> td_AuthType (s_td s') = ''podIdentity'' | _ \<Rightarrow> True)
         else if a \<in> {[], ''auto'', ''webIdentity''} then
           (case r of Ok req \<Rightarrow> signed_by_web pf account s s' req \<and> td_AuthType (s_td s') = ''webIdentity'' | _ \<Rightarrow> True)
         else (\<exists>e. r = Err e) \<and> (\<exists>msg. s_calls s' = s_calls s @ [EventfCall ''Error'' ''Misconfiguration'' msg []]))"
proof -
  define a where "a = sp_AuthType (sr_Spec (s_sr s))"
  define s0 where "s0 = upd_td (\<lambda>t. t\<lparr>td_AuthType := if a = [] then AutoAuthType else a\<rparr>) s"
  have s0: "DetectPodIdentity pf s0 = DetectPodIdentity pf s" "s_calls s0 = s_calls s" "s_sr s0 = s_sr s" "s_world s0 = s_world s"
    by (simp_all add: s0_def DetectPodIdentity_def)
  have web: "signed_by_web pf account s s' req \<and> td_AuthType (s_td s') = ''webIdentity''"
    if "if_err (GetSignedRequestForWebIdentity pf account clientset s0) ret_err
      (\<lambda>request s. (Ok request, upd_td (\<lambda>t. t\<lparr>td_AuthType := WebIdentityAuthType\<rparr>) s)) = (Ok req, s')" for req s'
    using that web_flow [of pf account clientset s0 req] s0
    by (auto simp: signed_by_web_def Let_def auth_types split: if_err_split_asm)
  have pod: "signed_by_pod pf s s' req \<and> td_AuthType (s_td s') = ''podIdentity''"
    if "if_err (GetSignedRequestForPodIdentity pf s0) ret_err
      (\<lambda>request s. (Ok request, upd_td (\<lambda>t. t\<lparr>td_AuthType := PodIdentityAuthType\<rparr>) s)) = (Ok req, s')" for req s'
    using that pod_flow [of pf s0 req] s0
    by (auto simp: signed_by_pod_def auth_types split: if_err_split_asm)
  show ?thesis
    using web pod s0 unfolding signed_request_def Let_def a_def [symmetric] s0_def [symmetric]
    by (auto simp: auth_types record_call_def split: prod.split outcome.split)
qed

text \<open>C8: when a token is obtained, the last call of the handler was a POST over https to the token endpoint of
  the Artifactory host of the token details, by a client that verifies the server unless the resource asks it
  not to.  Its body asks for the lifetime recorded as the token's TTL, its headers are the content type
  and the headers of a signed STS request; it was answered with status 200, and user and token are those
  of the answer.\<close>

theorem token_request:
  "case HandlingToken pf s of
     (Ok _, s') \<Rightarrow>
       if td_Token (s_td s) \<noteq> [] then s' = s
       else td_RoleMaxSessionDuration (s_td s') = Some (td_TTLInSeconds (s_td s')) \<and>
         (\<exists>client signed_req req resp ar.
            last (s_calls s') = DoCall client req (Ok resp) \<and> is_sts_signed signed_req \<and>
            sent_to (td_ArtifactoryUrl (s_td s)) req \<and> client_as_configured (sp_Security (sr_Spec (s_sr s))) client \<and>
            token_request_ok signed_req (td_TTLInSeconds (s_td s')) req \<and> resp_StatusCode resp = 200 \<and>
            pf_DecodeAccess pf (resp_Body resp) = Ok ar \<and>
            td_Username (s_td s') = ar_Username ar \<and> td_Token (s_td s') = ar_AccessToken ar)
   | _ \<Rightarrow> True"
proof -
  obtain r s' where r: "HandlingToken pf s = (r, s')" by fastforce
  show ?thesis
  proof (cases "r = Ok () \<and> td_Token (s_td s) = []")
    case True
    then have ok: "HandlingToken pf s = (Ok (), s')" "td_Token (s_td s) = []" using r by simp_all
    show ?thesis
      unfolding ok prod.case outcome.case using HandlingToken_ttl [OF ok] HandlingToken_request [OF ok] ok(2) by auto
  next
    case False
    then show ?thesis using r by (cases r) (auto simp: HandlingToken_def)
  qed
qed

text \<open>obtaining a token makes no call on a secret, and changes of the token details and the resource
  only credentials and the service account.\<close>

lemma token_leaves_alone: "token_frame s (snd (HandlingToken pf s))"
  by (rule tf_HandlingToken)

end
