(* ===== verification/Controller_Store.thy ===== *)
theory Controller_Store
  imports Operator_Theorems
begin

text \<open>
  What a reconciliation does to the secrets stored in the cluster: which ones it may change, and that
  those it counts as managed hold the current token.
\<close>

section \<open>Laws of the cluster\<close>

text \<open>
  A write or deletion, successful or not, changes at most the secret it names; a call that is not on
  secrets changes none.
\<close>

definition only_at :: "('w \<Rightarrow> string \<times> string \<Rightarrow> Secret option) \<Rightarrow> (string \<times> string) set \<Rightarrow> ('w \<Rightarrow> 'a \<times> 'w) \<Rightarrow> bool" where
  "only_at st K f \<longleftrightarrow> (\<forall>w k. k \<notin> K \<longrightarrow> st (snd (f w)) k = st w k)"

abbreviation secret_key :: "Secret \<Rightarrow> string \<times> string" where
  "secret_key x \<equiv> (secret_namespace x, secret_name x)"

definition local_law :: "'w platform \<Rightarrow> ('w \<Rightarrow> string \<times> string \<Rightarrow> Secret option) \<Rightarrow> bool" where
  "local_law pf st \<longleftrightarrow> (\<forall>x. only_at st {secret_key x} (pf_UpdateSecret pf x) \<and>
     only_at st {secret_key x} (pf_CreateSecret pf x) \<and> only_at st {secret_key x} (pf_DeleteSecret pf x))"

definition frame_law :: "'w platform \<Rightarrow> ('w \<Rightarrow> string \<times> string \<Rightarrow> Secret option) \<Rightarrow> bool" where
  "frame_law pf st \<longleftrightarrow>
     (\<forall>a b c. only_at st {} (pf_GetServiceAccount pf a b c)) \<and>
     (\<forall>a b c d e. only_at st {} (pf_CreateToken pf a b c d e)) \<and>
     (\<forall>a. only_at st {} (pf_LoadDefaultConfig pf a)) \<and> (\<forall>a. only_at st {} (pf_Retrieve pf a)) \<and>
     (\<forall>a b. only_at st {} (pf_GetRole pf a b)) \<and> (\<forall>a. only_at st {} (pf_GetCallerIdentity pf a)) \<and>
     (\<forall>a b. only_at st {} (pf_Do pf a b))"

definition store_laws :: "'w platform \<Rightarrow> ('w \<Rightarrow> string \<times> string \<Rightarrow> Secret option) \<Rightarrow> bool" where
  "store_laws pf st \<longleftrightarrow> cluster_laws pf st \<and> local_law pf st \<and> frame_law pf st"

lemma memory_store_laws: "store_laws memory mem_lookup"
proof -
  have "local_law memory mem_lookup"
    by (auto simp: local_law_def only_at_def memory_def mem_update_def mem_create_def mem_delete_def
        mem_lookup_def mem_store_def)
  moreover have "frame_law memory mem_lookup"
    by (simp add: frame_law_def only_at_def memory_def)
  ultimately show ?thesis by (simp add: store_laws_def memory_cluster_laws)
qed

section \<open>Where secrets may change\<close>

definition changes ::
    "('w \<Rightarrow> string \<times> string \<Rightarrow> Secret option) \<Rightarrow> (string \<times> string) set \<Rightarrow> 'w state \<Rightarrow> 'w state \<Rightarrow> bool" where
  "changes st K s s' \<longleftrightarrow> (\<forall>k. k \<notin> K \<longrightarrow> st (s_world s') k = st (s_world s) k)"

interpretation ch: step_rel "changes st K" for st K
  by unfold_locales (simp_all add: changes_def)

lemma changes_world: "s_world s' = s_world s \<Longrightarrow> changes st K s s'"
  by (simp add: changes_def)

lemma changes_mono: "changes st K s s' \<Longrightarrow> K \<subseteq> K' \<Longrightarrow> changes st K' s s'"
  by (auto simp: changes_def)

lemma changes_call: "only_at st K' f \<Longrightarrow> K' \<subseteq> K \<Longrightarrow> changes st K s (snd (call f c s))"
  by (auto simp: changes_def only_at_def call_def case_prod_beta Let_def)

lemma changes_record: "changes st K s (record_call c s)"
  by (simp add: changes_def record_call_def)

text \<open>The secrets the last status records.\<close>

definition recorded :: "'w state \<Rightarrow> (string \<times> string) set" where
  "recorded s = {(ns, n). \<exists>os. map_of (st_SecretManagedByNamespaces (sr_Status (s_sr s))) ns = Some os \<and> n \<in> set os}"

lemma outdated_recorded:
  "outdated new (st_SecretManagedByNamespaces (sr_Status (s_sr s))) \<subseteq> recorded s"
  by (auto simp: outdated_def recorded_def)

abbreviation status_map :: "'w state \<Rightarrow> string list gomap" where
  "status_map s \<equiv> st_SecretManagedByNamespaces (sr_Status (s_sr s))"

section \<open>Current secrets\<close>

text \<open>
  A secret is current when the cluster holds it with the type and the data for the token at hand.  The
  invariant: what is counted as managed is current, and nothing is counted before there is a token.
\<close>

definition is_current ::
    "('w \<Rightarrow> string \<times> string \<Rightarrow> Secret option) \<Rightarrow> 'w state \<Rightarrow> string \<Rightarrow> GeneratedSecret \<Rightarrow> bool" where
  "is_current st s ns g \<longleftrightarrow> (case st (s_world s) (ns, gs_SecretName g) of
       None \<Rightarrow> False
     | Some y \<Rightarrow> sc_Data y = desired_data (s_td s) (s_sr s) (gs_SecretType g) \<and> sc_Type y = desired_type (gs_SecretType g))"

definition all_current :: "('w \<Rightarrow> string \<times> string \<Rightarrow> Secret option) \<Rightarrow> 'w state \<Rightarrow> bool" where
  "all_current st s \<longleftrightarrow>
     (\<forall>ns. \<forall>g \<in> set (td_GeneratedSecrets (s_td s)). gs_SecretName g \<in> managed s ns \<longrightarrow> is_current st s ns g) \<and>
     (td_Token (s_td s) = [] \<longrightarrow> (\<forall>ns. managed s ns = {}))"

lemma desired_data_cong:
  "td_Username td' = td_Username td \<Longrightarrow> td_Token td' = td_Token td \<Longrightarrow> no_account (sr_Spec r') = no_account (sr_Spec r) \<Longrightarrow>
   desired_data td' r' t = desired_data td r t"
  by (simp add: desired_data_def docker_hosts_def no_account_fields [of "sr_Spec r'" "sr_Spec r"])

definition same_content_fields :: "'w state \<Rightarrow> 'w state \<Rightarrow> bool" where
  "same_content_fields s s' \<longleftrightarrow> td_GeneratedSecrets (s_td s') = td_GeneratedSecrets (s_td s) \<and>
     td_Username (s_td s') = td_Username (s_td s) \<and> td_Token (s_td s') = td_Token (s_td s) \<and>
     no_account (sr_Spec (s_sr s')) = no_account (sr_Spec (s_sr s)) \<and> (\<forall>ns. managed s' ns = managed s ns)"

lemma all_current_frame:
  assumes "all_current st s" "same_content_fields s s'" "changes st K s s'" "\<And>ns n. (ns, n) \<in> K \<Longrightarrow> n \<notin> managed s ns"
  shows "all_current st s'"
proof -
  have "is_current st s' ns g" if "is_current st s ns g" "gs_SecretName g \<in> managed s ns" for ns g
  proof -
    have "(ns, gs_SecretName g) \<notin> K" using assms(4) that(2) by blast
    then have "st (s_world s') (ns, gs_SecretName g) = st (s_world s) (ns, gs_SecretName g)"
      using assms(3) by (simp add: changes_def)
    moreover have "desired_data (s_td s') (s_sr s') t = desired_data (s_td s) (s_sr s) t" for t
      using assms(2) by (intro desired_data_cong) (simp_all add: same_content_fields_def)
    ultimately show ?thesis using that(1) by (simp add: is_current_def split: option.splits)
  qed
  then show ?thesis using assms(1,2) by (simp add: all_current_def same_content_fields_def)
qed

lemma keeps_content: "keeps s s' \<Longrightarrow> same_content_fields s s'"
  by (simp add: keeps_def same_content_fields_def)

text \<open>Artifactory never answers with an empty token.\<close>

definition token_law :: "'w platform \<Rightarrow> bool" where
  "token_law pf \<longleftrightarrow> (\<forall>body ar. pf_DecodeAccess pf body = Ok ar \<longrightarrow> ar_AccessToken ar \<noteq> [])"

text \<open>What the loop relies on: the validated list of secrets, and the status as a map.\<close>

definition ready :: "'w state \<Rightarrow> bool" where
  "ready s \<longleftrightarrow> distinct (map gs_SecretName (td_GeneratedSecrets (s_td s))) \<and>
     list_all valid_secret (td_GeneratedSecrets (s_td s)) \<and> wf_map (status_map s)"

text \<open>The operator works against a cluster with these laws.\<close>

locale lawful =
  fixes pf :: "'w platform" and st :: "'w \<Rightarrow> string \<times> string \<Rightarrow> Secret option"
  assumes laws: "store_laws pf st"
begin

lemma cluster: "cluster_laws pf st" and get: "get_law pf st"
  using laws by (simp_all add: store_laws_def cluster_laws_def)

lemma local:
  "only_at st {secret_key x} (pf_UpdateSecret pf x)" "only_at st {secret_key x} (pf_CreateSecret pf x)"
  "only_at st {secret_key x} (pf_DeleteSecret pf x)"
  using laws by (simp_all add: store_laws_def local_law_def)

lemma frame:
  "only_at st {} (pf_GetServiceAccount pf a b c)" "only_at st {} (pf_CreateToken pf a b c d e)"
  "only_at st {} (pf_LoadDefaultConfig pf f)" "only_at st {} (pf_Retrieve pf g)" "only_at st {} (pf_GetRole pf h i)"
  "only_at st {} (pf_GetCallerIdentity pf j)" "only_at st {} (pf_Do pf l m)"
  using laws by (simp_all add: store_laws_def frame_law_def)

lemma read: "only_at st {} (pf_GetSecret pf ns n)"
  using get unfolding get_law_def only_at_def by (metis prod.collapse)

lemma ch_GetSecret: "changes st K s (snd (GetSecret pf ns n s))"
  unfolding GetSecret_def by (rule changes_call [OF read]) simp

lemma got:
  assumes "GetSecret pf ns n s = (Ok x, s')"
  shows "secret_key x = (ns, n)"
proof -
  have "pf_GetSecret pf ns n (s_world s) = (Ok x, s_world s')"
    using assms by (auto simp: GetSecret_def call_def Let_def split: prod.splits)
  then show ?thesis using get unfolding get_law_def by blast
qed

lemma names: "names_law pf"
proof -
  have "reference_law pf" using cluster by (simp add: cluster_laws_def)
  then have "secret_key y = secret_key x" if "pf_SetControllerReference pf r x = Ok y" for r x y
    using that unfolding reference_law_def by force
  then show ?thesis using get unfolding names_law_def get_law_def by blast
qed

subsection \<open>The token\<close>

lemmas ch_frames = ch.if_err_rel changes_call [OF frame(1) empty_subsetI] changes_call [OF frame(2) empty_subsetI]
  changes_call [OF frame(3) empty_subsetI] changes_call [OF frame(4) empty_subsetI]
  changes_call [OF frame(5) empty_subsetI] changes_call [OF frame(6) empty_subsetI]
  changes_call [OF frame(7) empty_subsetI]

lemma ch_sign: "changes st K s (snd (sign_sts pf creds s))"
  by (simp add: sign_sts_def case_prod_beta Let_def changes_world)

lemma ch_k8s: "changes st K s (snd (GetK8sClient pf s))"
  by (simp add: GetK8sClient_def split: outcome.split)

lemma ch_max_session: "changes st K s (snd (GetMaxSession pf arn creds n ns s))"
  by (auto simp: GetMaxSession_def load_config_def Let_def intro!: ch_frames split: option.split)

lemma ch_max_session_cached: "changes st K s (snd (GetMaxSessionWithCredentialCache pf arn creds s))"
  by (auto simp: GetMaxSessionWithCredentialCache_def load_config_def Let_def intro!: ch_frames split: option.split)

lemma ch_set_max_session: "changes st K s (snd r) \<Longrightarrow> changes st K s (snd (set_max_session r))"
  by (auto simp: set_max_session_def changes_world intro!: ch_frames)

lemma ch_web_signed: "changes st K s (snd (GetSignedRequestAndHandleRoleMaxSession pf arn t n ns s))"
  by (auto simp: GetSignedRequestAndHandleRoleMaxSession_def load_config_def Let_def
      intro!: ch_frames ch_sign ch_set_max_session ch_max_session split: prod.split)

lemma ch_web: "changes st K s (snd (GetSignedRequestForWebIdentity pf sa cs s))"
  by (auto simp: GetSignedRequestForWebIdentity_def Let_def changes_record intro!: ch_frames ch_web_signed)

lemma ch_resolve: "changes st K s (snd (ResolveIAMRoleARNFromPodIdentityCredentials pf region c s))"
  by (auto simp: ResolveIAMRoleARNFromPodIdentityCredentials_def load_config_def Let_def
      intro!: ch_frames ch_max_session_cached split: option.split prod.split)

lemma ch_pod: "changes st K s (snd (GetSignedRequestForPodIdentity pf s))"
  by (auto simp: GetSignedRequestForPodIdentity_def Let_def intro!: ch_frames ch_sign ch_set_max_session ch_resolve)

lemma ch_upd: "changes st K (s\<lparr>s_td := t\<rparr>) s' \<longleftrightarrow> changes st K s s'" "changes st K (s\<lparr>s_sr := r\<rparr>) s' \<longleftrightarrow> changes st K s s'"
  by (simp_all add: changes_def)

lemma ch_signed_request: "changes st K s (snd (signed_request pf sa cs s))"
proof -
  define a where "a = (if sp_AuthType (sr_Spec (s_sr s)) = [] then AutoAuthType else sp_AuthType (sr_Spec (s_sr s)))"
  have "changes st K (upd_td (\<lambda>t. t\<lparr>td_AuthType := a\<rparr>) s) (snd (signed_request pf sa cs s))"
    unfolding signed_request_def Let_def a_def [symmetric]
    by (auto intro!: ch.if_err_rel ch_pod ch_web changes_record intro: changes_world)
  then show ?thesis by (simp add: ch_upd)
qed

lemma ch_create_token: "changes st K s (snd (createArtifactoryToken pf req url ttl sec n s))"
  by (auto simp: createArtifactoryToken_def createCustomHTTPClient_state Let_def intro!: ch_frames split: option.split)

lemma ch_finish_token: "changes st K s (snd (finish_token pf req s))"
proof (cases "td_RoleMaxSessionDuration (s_td s)")
  case (Some ttl)
  define s1 where "s1 = ttl_warning ttl (upd_td (\<lambda>t. t\<lparr>td_TTLInSeconds := ttl\<rparr>) s)"
  have "s_world s1 = s_world s"
    by (simp add: s1_def ttl_warning_def record_call_def split: option.split)
  moreover have "changes st K s1 (snd (finish_token pf req s))"
    unfolding finish_token_def Some option.case Let_def s1_def [symmetric]
    by (auto intro!: ch.if_err_rel ch_create_token intro: changes_world simp: record_call_def split: prod.split)
  ultimately show ?thesis by (simp add: changes_def)
qed (simp add: finish_token_def)

lemma ch_HandlingToken: "changes st K s (snd (HandlingToken pf s))"
proof (cases "td_Token (s_td s) = []")
  case True
  have "changes st K (default_account s) (snd (HandlingToken pf s))"
    unfolding HandlingToken_def Let_def
    by (auto simp: True changes_record intro!: ch.if_err_rel ch_k8s ch_frames ch_signed_request ch_finish_token)
  then show ?thesis by (simp add: default_account_def Let_def ch_upd)
qed (simp add: HandlingToken_def)

subsection \<open>Reads and writes of secrets\<close>

lemma ch_scan: "changes st K s (snd (scan_secrets pf ns gs f sk s))"
proof (induction gs arbitrary: f sk s)
  case (Cons g gs)
  then show ?case by (auto intro!: ch.if_err_rel ch_GetSecret)
qed simp

lemma ch_write_secret: "secret_key x \<in> K \<Longrightarrow> changes st K s (snd (write_secret pf n t x s))"
  unfolding write_secret_def
  by (auto intro!: ch.if_err_rel changes_call [OF local(1)] changes_call [OF local(2)])

lemma ch_CreateOrUpdateSecrets:
  assumes K: "(ns_name ns, n) \<in> K"
  shows "changes st K s (snd (CreateOrUpdateSecrets pf ns n t s))"
proof -
  let ?o = "empty_secret\<lparr>sc_Meta := empty_meta\<lparr>om_Name := n, om_Namespace := ns_name ns\<rparr>\<rparr>"
  have cont: "changes st K s1 (snd (case configure_secret (s_td s1) (s_sr s1) t x of
              Err e \<Rightarrow> (Ok (Some e, False), s1) | Panic p \<Rightarrow> (Panic p, s1)
            | Ok y \<Rightarrow> write_secret pf n t y s1))" if "secret_key x = (ns_name ns, n)" for x s1
    using that K by (auto split: outcome.split intro!: ch_write_secret dest!: configure_names)
  have meta: "secret_key x = (ns_name ns, n)" if "setSecretMetadata pf r (ns_name ns) ?o = Ok x" for r x
    using that names by (auto simp: setSecretMetadata_def Let_def names_law_def)
  have got: "secret_key x = (ns_name ns, n)"
    if "call (pf_GetSecret pf (ns_name ns) n) (GetSecretCall (ns_name ns) n) s = (Ok x, s1)" for x s1
    using got [of "ns_name ns" n s x s1] that unfolding GetSecret_def by simp
  show ?thesis
    unfolding CreateOrUpdateSecrets_def Let_def
    by (intro ch.if_err_rel changes_call [OF read] cont got)
       (use K in \<open>auto split: outcome.split intro!: ch_write_secret dest!: configure_names meta\<close>)
qed

lemma ch_write_secrets:
  "{ns_name ns} \<times> gs_SecretName ` set gs \<subseteq> K \<Longrightarrow> changes st K s (snd (write_secrets pf ns gs sk f s))"
proof (induction gs arbitrary: f s)
  case (Cons g gs)
  have m: "changes st K s1 (snd (write_secrets pf ns gs sk f (add_managed a b s1)))" for f a b s1
    using Cons.IH [where f = f and s = "add_managed a b s1"] Cons.prems by (simp add: add_managed_def ch_upd)
  show ?case
    using Cons m by (auto intro!: ch.if_err_rel ch_CreateOrUpdateSecrets split: option.split)
qed simp

subsection \<open>Deletions\<close>

lemma ch_delete_names: "{ns} \<times> set names \<subseteq> K \<Longrightarrow> changes st K s (snd (delete_names pf ns names s))"
proof (induction names arbitrary: s)
  case (Cons n names)
  then show ?case
    by (auto simp: Let_def intro!: ch.if_err_rel changes_call [OF local(3)])
qed simp

lemma ch_delete_namespaces:
  "(SIGMA ns:set nss. set (map_get [] ch ns)) \<subseteq> K \<Longrightarrow> changes st K s (snd (delete_namespaces pf ch nss s))"
proof (induction nss arbitrary: s)
  case (Cons ns nss)
  have "changes st K s (snd (delete_names pf ns (map_get [] ch ns) s))"
    using Cons.prems by (intro ch_delete_names) auto
  then show ?case using Cons by (auto intro!: ch.if_err_rel)
qed simp

lemma ch_DeleteOutdatedGeneratedSecrets:
  assumes "wf_map (st_SecretManagedByNamespaces (sr_Status (s_sr s)))"
    and "outdated (td_SecretManagedByNamespaces (s_td s)) (st_SecretManagedByNamespaces (sr_Status (s_sr s))) \<subseteq> K"
  shows "changes st K s (snd (DeleteOutdatedGeneratedSecrets pf s))"
proof -
  let ?d = "fst (findSecretDifferences (td_SecretManagedByNamespaces (s_td s)) (st_SecretManagedByNamespaces (sr_Status (s_sr s))))"
  have "(SIGMA ns:fst ` set ?d. set (map_get [] ?d ns)) \<subseteq> K"
    using assms unfolding outdated_differences [OF assms(1)] by auto
  then show ?thesis
    unfolding DeleteOutdatedGeneratedSecrets_def case_prod_beta Let_def by (auto intro!: ch_delete_namespaces)
qed

lemma ch_DeleteSecret:
  assumes K: "(ns, n) \<in> K"
  shows "changes st K s (snd (DeleteSecret pf n rot ns t s))"
proof -
  have "changes st K s1 (snd (call (pf_DeleteSecret pf x) c s1))" if "GetSecret pf ns n s = (Ok x, s1)" for x c s1
    using got [OF that] K by (intro changes_call [OF local(3)]) simp
  then show ?thesis
    unfolding DeleteSecret_def by (auto intro!: ch.if_err_rel ch_GetSecret)
qed

lemma ch_delete_generated:
  "{ns} \<times> gs_SecretName ` set gs \<subseteq> K \<Longrightarrow> changes st K s (snd (delete_generated pf rot ns gs f s))"
proof (induction gs arbitrary: f s)
  case (Cons g gs)
  then show ?case by (auto intro!: ch.if_err_rel ch_DeleteSecret)
qed simp

lemma ch_delete_removed:
  "set nss \<times> gs_SecretName ` set gs \<subseteq> K \<Longrightarrow> changes st K s (snd (delete_removed pf rot gs nss f s))"
proof (induction nss arbitrary: f s)
  case (Cons ns nss)
  have "changes st K s (snd (delete_generated pf rot ns gs f s))" for f s
    using Cons.prems by (intro ch_delete_generated) auto
  moreover have "set nss \<times> gs_SecretName ` set gs \<subseteq> K" using Cons.prems by auto
  ultimately show ?case using Cons.IH by (auto intro!: ch.if_err_rel)
qed simp

subsection \<open>The management loop\<close>

lemma ch_finish_namespace:
  assumes "wf_map (status_map s)" "recorded s \<subseteq> K"
  shows "changes st K s (snd (finish_namespace pf ns f s))"
proof -
  define s1 where "s1 = report_failures ns f s"
  have s1: "s_world s1 = s_world s" "s_sr s1 = s_sr s" by (simp_all add: s1_def report_failures_def)
  then have "changes st K s1 (snd (DeleteOutdatedGeneratedSecrets pf s1))"
    using assms subset_trans [OF outdated_recorded [of _ s] assms(2)]
    by (intro ch_DeleteOutdatedGeneratedSecrets) simp_all
  then have "changes st K s1 (snd (finish_namespace pf ns f s))"
    unfolding finish_namespace_def Let_def s1_def [symmetric]
    by (auto intro!: ch.if_err_rel intro: changes_world)
  then show ?thesis using s1 by (simp add: changes_def)
qed

lemma ch_manage_namespace:
  assumes "wf_map (status_map s)" "recorded s \<subseteq> K" "{ns_name ns} \<times> configured s \<subseteq> K"
  shows "changes st K s (snd (manage_namespace pf ns f sk s))"
  unfolding manage_namespace_def
proof (intro ch.if_err_rel ch_scan)
  fix x s1 assume scan: "scan_secrets pf (ns_name ns) (td_GeneratedSecrets (s_td s)) f sk s = (Ok x, s1)"
  obtain f1 sk1 where x: "x = (f1, sk1)" by fastforce
  have k1: "keeps s s1" using scan_secrets_keeps [of s pf "ns_name ns" "td_GeneratedSecrets (s_td s)" f sk] scan by simp
  have wri: "changes st K s2 (snd (if_err (write_secrets pf ns (td_GeneratedSecrets (s_td s2)) sk1 f1 s2) ret_err
       (finish_namespace pf (ns_name ns))))" if "HandlingToken pf s1 = (r, s2)" for r s2
  proof (rule ch.if_err_rel)
    have k2: "progress s s2"
      using pr.trans [OF keeps_progress [OF k1] token_frame_progress [OF tf_HandlingToken]] that by (metis snd_conv)
    then show "changes st K s2 (snd (write_secrets pf ns (td_GeneratedSecrets (s_td s2)) sk1 f1 s2))"
      using assms(3) by (intro ch_write_secrets) (simp add: progress_def)
    fix f2 s3 assume "write_secrets pf ns (td_GeneratedSecrets (s_td s2)) sk1 f1 s2 = (Ok f2, s3)"
    then have "progress s2 s3"
      using write_secrets_frame [of "td_GeneratedSecrets (s_td s2)" "configured s2" ns s2 pf sk1 f1]
      by (simp add: write_frame_def)
    with k2 have "progress s s3" by (rule pr.trans)
    then show "changes st K s3 (snd (finish_namespace pf (ns_name ns) f2 s3))"
      using assms(1,2) by (intro ch_finish_namespace) (simp_all add: progress_def recorded_def)
  qed simp
  show "changes st K s1 (snd ((case x of (failedSecrets, skippedSecrets) \<Rightarrow> \<lambda>s.
     if_err (HandlingToken pf s) ret_err (\<lambda>_ s.
     if_err (write_secrets pf ns (td_GeneratedSecrets (s_td s)) skippedSecrets failedSecrets s) ret_err
       (finish_namespace pf (ns_name ns)))) s1))"
    unfolding x prod.case by (rule ch.if_err_rel [OF ch_HandlingToken]) (rule wri, assumption, simp)
qed simp

lemma ch_manage_namespaces:
  "wf_map (status_map s) \<Longrightarrow> recorded s \<subseteq> K \<Longrightarrow> ns_name ` set nss \<times> configured s \<subseteq> K \<Longrightarrow>
   changes st K s (snd (manage_namespaces pf nss f sk s))"
proof (induction nss arbitrary: f sk s)
  case (Cons n nss)
  have one: "changes st K s (snd (manage_namespace pf n f sk s))"
    using Cons.prems by (intro ch_manage_namespace) auto
  have rest: "changes st K s1 (snd (manage_namespaces pf nss f1 sk1 s1))"
    if "manage_namespace pf n f sk s = (r, s1)" for r s1 f1 sk1
  proof (rule Cons.IH)
    have "progress s s1" using manage_namespace_progress [of s pf n f sk] that by simp
    then show "wf_map (status_map s1)" "recorded s1 \<subseteq> K" "ns_name ` set nss \<times> configured s1 \<subseteq> K"
      using Cons.prems by (auto simp: progress_def recorded_def)
  qed
  show ?case using one rest by (auto intro!: ch.if_err_rel split: prod.split)
qed simp

subsection \<open>Managed secrets are current\<close>

lemma token_current:
  assumes "HandlingToken pf s = (Ok (), s')" "all_current st s" "token_law pf"
  shows "all_current st s' \<and> td_Token (s_td s') \<noteq> []"
proof (cases "td_Token (s_td s) = []")
  case True
  from HandlingToken_request [OF assms(1) True] obtain body ar where
    "pf_DecodeAccess pf body = Ok ar" "td_Token (s_td s') = ar_AccessToken ar" by blast
  then have "td_Token (s_td s') \<noteq> []" using assms(3) by (simp add: token_law_def)
  moreover have "managed s' ns = {}" for ns
    using tf_HandlingToken [of s pf] assms(1,2) True by (simp add: token_frame_def all_current_def)
  ultimately show ?thesis by (simp add: all_current_def)
next
  case False
  then have "s' = s" using assms(1) by (simp add: HandlingToken_def)
  with False assms(2) show ?thesis by simp
qed

lemma add_managed_current:
  assumes "all_current st s" "is_current st s ns g" "g \<in> set (td_GeneratedSecrets (s_td s))" "td_Token (s_td s) \<noteq> []"
    and "distinct (map gs_SecretName (td_GeneratedSecrets (s_td s)))"
  shows "all_current st (add_managed ns (gs_SecretName g) s)"
proof -
  have same: "h = g" if "h \<in> set (td_GeneratedSecrets (s_td s))" "gs_SecretName h = gs_SecretName g" for h
    using that assms(3,5) by (metis inj_on_eq_iff distinct_map)
  have cur: "is_current st (add_managed a b s) k h \<longleftrightarrow> is_current st s k h" for a b k h
    by (simp add: is_current_def add_managed_def desired_data_def cong: option.case_cong)
  show ?thesis
    using assms(1,2,4) same unfolding all_current_def cur
    by (auto simp: add_managed_def split: if_splits)
qed

lemma write_secrets_current:
  "write_secrets pf ns gs sk f s = (Ok f', s') \<Longrightarrow> all_current st s \<Longrightarrow> td_Token (s_td s) \<noteq> [] \<Longrightarrow>
   set gs \<subseteq> set (td_GeneratedSecrets (s_td s)) \<Longrightarrow> distinct (map gs_SecretName (td_GeneratedSecrets (s_td s))) \<Longrightarrow>
   distinct (map gs_SecretName gs) \<Longrightarrow> list_all valid_secret gs \<Longrightarrow>
   gs_SecretName ` set gs \<inter> managed s (ns_name ns) = {} \<Longrightarrow> all_current st s'"
proof (induction gs arbitrary: f s)
  case (Cons g gs)
  show ?case
  proof (cases "map_of sk (gs_SecretName g) \<noteq> None \<or> map_get [] sk (gs_SecretName g) = ns_name ns")
    case True
    then have "write_secrets pf ns gs sk f s = (Ok f', s')" using Cons.prems(1) by simp
    with Cons show ?thesis by simp
  next
    case False
    obtain e b s1 where c: "CreateOrUpdateSecrets pf ns (gs_SecretName g) (gs_SecretType g) s = (Ok (e, b), s1)"
      using Cons.prems(1) False by (auto split: if_err_split_asm)
    have k: "keeps s s1" using CreateOrUpdateSecrets_keeps [of s pf ns "gs_SecretName g" "gs_SecretType g"] c by simp
    have "changes st {(ns_name ns, gs_SecretName g)} s s1"
      using ch_CreateOrUpdateSecrets [of ns "gs_SecretName g" "{(ns_name ns, gs_SecretName g)}" s "gs_SecretType g"] c by simp
    then have cur: "all_current st s1"
      by (rule all_current_frame [OF Cons.prems(2) keeps_content [OF k]]) (use Cons.prems(8) in auto)
    have facts: "td_Token (s_td s1) \<noteq> []" "set gs \<subseteq> set (td_GeneratedSecrets (s_td s1))"
      "distinct (map gs_SecretName (td_GeneratedSecrets (s_td s1)))" "g \<in> set (td_GeneratedSecrets (s_td s1))"
      "gs_SecretName ` set gs \<inter> managed s1 (ns_name ns) = {}"
      using k Cons.prems by (auto simp: keeps_def)
    show ?thesis
    proof (cases e)
      case None
      have t: "gs_SecretType g \<in> {SecretTypeDocker, SecretTypeGeneric}"
        using Cons.prems(7) by (simp add: valid_secret_def)
      have "is_current st s1 (ns_name ns) g"
        using CreateOrUpdateSecrets_stores [OF cluster t c [unfolded None]] by (auto simp: is_current_def)
      then have cur2: "all_current st (add_managed (ns_name ns) (gs_SecretName g) s1)"
        by (rule add_managed_current [OF cur _ facts(4,1,3)])
      have "write_secrets pf ns gs sk f (add_managed (ns_name ns) (gs_SecretName g) s1) = (Ok f', s')"
        using Cons.prems(1) False c None by simp
      from Cons.IH [OF this cur2] show ?thesis
        using facts Cons.prems(6,7) by (auto simp: add_managed_def)
    next
      case (Some err)
      then obtain f1 where "write_secrets pf ns gs sk f1 s1 = (Ok f', s')"
        using Cons.prems(1) False c by simp
      then show ?thesis using facts cur Cons.prems(6,7) by (intro Cons.IH) auto
    qed
  qed
qed simp

lemma finish_namespace_current:
  assumes fin: "finish_namespace pf ns f s = (Ok r, s')" and cur: "all_current st s" and wf: "wf_map (status_map s)"
  shows "all_current st s'"
proof -
  define s1 where "s1 = report_failures ns f s"
  have s1: "s_world s1 = s_world s" "same_content_fields s s1" "s_sr s1 = s_sr s"
    by (simp_all add: s1_def report_failures_def same_content_fields_def)
  have cur1: "all_current st s1"
    by (rule all_current_frame [OF cur s1(2), of "{}"]) (simp_all add: changes_world s1(1))
  obtain s2 where d: "(if length (status_map s1) > 0 then DeleteOutdatedGeneratedSecrets pf s1 else (Ok (), s1)) = (Ok (), s2)"
    and s': "s' = upd_td (\<lambda>t. t\<lparr>td_ProvisionedNamespaces := td_ProvisionedNamespaces t @ [ns]\<rparr>) s2"
    using fin unfolding finish_namespace_def Let_def s1_def [symmetric] by (auto split: if_err_split_asm)
  let ?out = "outdated (td_SecretManagedByNamespaces (s_td s1)) (status_map s1)"
  have "keeps s1 s2 \<and> changes st ?out s1 s2"
    using d DeleteOutdatedGeneratedSecrets_keeps [of s1 pf] ch_DeleteOutdatedGeneratedSecrets [of s1 ?out] wf s1(3)
    by (auto split: if_splits)
  moreover have "n \<notin> managed s1 k" if "(k, n) \<in> ?out" for k n
    using that by (auto simp: outdated_def map_get_def)
  ultimately have "all_current st s2"
    using all_current_frame [OF cur1 keeps_content] by blast
  moreover have "same_content_fields s2 s'" "changes st {} s2 s'"
    by (simp_all add: s' same_content_fields_def changes_world)
  ultimately show ?thesis by (rule all_current_frame) simp
qed

lemma ready_progress: "progress s s' \<Longrightarrow> ready s \<Longrightarrow> ready s'"
  by (simp add: ready_def progress_def)

lemma manage_namespace_current:
  assumes ok: "manage_namespace pf ns f sk s = (Ok r, s')" and cur: "all_current st s" and tok: "token_law pf"
    and rdy: "ready s" and new: "managed s (ns_name ns) = {}"
  shows "all_current st s'"
proof -
  obtain f1 sk1 s1 s2 f2 s3
    where scan: "scan_secrets pf (ns_name ns) (td_GeneratedSecrets (s_td s)) f sk s = (Ok (f1, sk1), s1)"
    and tk: "HandlingToken pf s1 = (Ok (), s2)"
    and wri: "write_secrets pf ns (td_GeneratedSecrets (s_td s2)) sk1 f1 s2 = (Ok f2, s3)"
    and fin: "finish_namespace pf (ns_name ns) f2 s3 = (Ok r, s')"
    using ok unfolding manage_namespace_def by (auto split: if_err_split_asm)
  have k1: "keeps s s1" using scan_secrets_keeps [of s pf "ns_name ns" _ f sk] scan by (metis snd_conv)
  have "changes st {} s s1" using ch_scan [of "{}" s "ns_name ns" "td_GeneratedSecrets (s_td s)" f sk] scan by simp
  then have "all_current st s1" by (rule all_current_frame [OF cur keeps_content [OF k1]]) simp
  then have c2: "all_current st s2" "td_Token (s_td s2) \<noteq> []" using token_current [OF tk _ tok] by simp_all
  have tf: "token_frame s1 s2" using tf_HandlingToken [of s1 pf] tk by simp
  have p2: "progress s s2" by (rule pr.trans [OF keeps_progress [OF k1] token_frame_progress [OF tf]])
  have r2: "ready s2" using ready_progress [OF p2 rdy] .
  have m2: "managed s2 (ns_name ns) = {}" using k1 tf new by (simp add: keeps_def token_frame_def)
  have "all_current st s3"
    using r2 m2 by (intro write_secrets_current [OF wri c2]) (auto simp: ready_def)
  moreover have "progress s2 s3"
    using write_secrets_frame [of "td_GeneratedSecrets (s_td s2)" "configured s2" ns s2 pf sk1 f1] wri
    by (simp add: write_frame_def)
  ultimately show ?thesis
    using finish_namespace_current [OF fin] ready_progress [OF _ r2] by (simp add: ready_def)
qed

lemma manage_namespaces_current:
  "manage_namespaces pf nss f sk s = (Ok (), s') \<Longrightarrow> all_current st s \<Longrightarrow> token_law pf \<Longrightarrow> ready s \<Longrightarrow>
   distinct (map ns_name nss) \<Longrightarrow> \<forall>n \<in> set nss. ns_name n \<noteq> [] \<and> managed s (ns_name n) = {} \<Longrightarrow>
   (\<And>n. map_of sk n \<noteq> None \<Longrightarrow> f \<noteq> []) \<Longrightarrow> all_current st s'"
proof (induction nss arbitrary: f sk s)
  case (Cons n nss)
  obtain r s1 where one: "manage_namespace pf n f sk s = (Ok r, s1)"
    using Cons.prems(1) by (auto split: if_err_split_asm)
  have n: "ns_name n \<noteq> []" "managed s (ns_name n) = {}" using Cons.prems(6) by simp_all
  have ok: "r = ([], []) \<and> progress s s1 \<and>
    td_ProvisionedNamespaces (s_td s1) = td_ProvisionedNamespaces (s_td s) @ [ns_name n] \<and>
    (\<forall>x. managed s1 x \<subseteq> managed s x \<union> (if x = ns_name n then configured s else {})) \<and>
    (configured s \<subseteq> managed s1 (ns_name n) \<or> ns_name n \<in> failed s1)"
    by (rule manage_namespace_ok [OF one n(1) Cons.prems(7)])
  have "all_current st s1" by (rule manage_namespace_current [OF one Cons.prems(2-4) n(2)])
  moreover have "manage_namespaces pf nss [] [] s1 = (Ok (), s')" using Cons.prems(1) one ok by simp
  moreover have "ready s1" using ready_progress [OF _ Cons.prems(4)] ok by blast
  moreover have "managed s1 (ns_name m) = {}" if "m \<in> set nss" for m
  proof -
    have "ns_name n \<notin> ns_name ` set nss" using Cons.prems(5) by simp
    then have "ns_name m \<noteq> ns_name n" using imageI [OF that, of ns_name] by (intro notI) simp
    then have "managed s1 (ns_name m) \<subseteq> managed s (ns_name m) \<union> {}" using ok by (auto split: if_splits)
    then show ?thesis using Cons.prems(6) that by auto
  qed
  ultimately show ?case using Cons.prems(3,5,6) by (intro Cons.IH [of "[]" "[]" s1]) auto
qed simp

subsection \<open>A whole cycle\<close>

lemma ManagingSecrets_current:
  assumes ok: "ManagingSecrets pf s = (Ok (), s')" and tok: "token_law pf" and rdy: "ready s"
    and ns: "distinct (map ns_name (td_NamespaceList (s_td s)))" "\<forall>n \<in> set (td_NamespaceList (s_td s)). ns_name n \<noteq> []"
  shows "all_current st s' \<and> td_GeneratedSecrets (s_td s') = td_GeneratedSecrets (s_td s)"
proof -
  obtain fl s1 where d: "DeleteOutdatedSecrets pf (sr_name (s_sr s)) (st_ProvisionedNamespaces (sr_Status (s_sr s))) s
      = (Ok fl, s1)"
    using ok unfolding ManagingSecrets_def by (auto split: if_err_split_asm)
  define s2 where "s2 = upd_td (\<lambda>t. t\<lparr>td_FailedNamespaces := fl, td_RequeueInterval := s_RequeueInterval s1,
      td_SecretManagedByNamespaces := []\<rparr>) s1"
  have k: "keeps s s1"
    using DeleteOutdatedSecrets_keeps [of s pf "sr_name (s_sr s)" "st_ProvisionedNamespaces (sr_Status (s_sr s))"] d by simp
  have s2: "all_current st s2" "ready s2" "td_NamespaceList (s_td s2) = td_NamespaceList (s_td s)"
    "\<And>x. managed s2 x = {}" "td_GeneratedSecrets (s_td s2) = td_GeneratedSecrets (s_td s)"
    using k rdy by (simp_all add: s2_def keeps_def all_current_def ready_def)
  have run: "manage_namespaces pf (td_NamespaceList (s_td s)) [] [] s2 = (Ok (), s')"
    using ok d unfolding ManagingSecrets_def by (simp add: s2_def Let_def) (use k in \<open>simp add: keeps_def\<close>)
  have "progress s2 s'" using manage_namespaces_ok [OF run] ns(2) by simp
  with manage_namespaces_current [OF run s2(1) tok s2(2) ns(1)] ns(2) s2(4,5) show ?thesis
    by (simp add: progress_def)
qed

lemma ch_ManagingSecrets:
  assumes wf: "wf_map (status_map s)" and K: "recorded s \<subseteq> K"
    "(ns_name ` set (td_NamespaceList (s_td s)) \<union> set (st_ProvisionedNamespaces (sr_Status (s_sr s)))) \<times> configured s \<subseteq> K"
  shows "changes st K s (snd (ManagingSecrets pf s))"
  unfolding ManagingSecrets_def
proof (rule ch.if_err_rel)
  show "changes st K s (snd (DeleteOutdatedSecrets pf (sr_name (s_sr s)) (st_ProvisionedNamespaces (sr_Status (s_sr s))) s))"
    unfolding DeleteOutdatedSecrets_def using K(2) by (intro ch_delete_removed) (auto simp: grn.set_diff)
next
  fix fl s1
  assume d: "DeleteOutdatedSecrets pf (sr_name (s_sr s)) (st_ProvisionedNamespaces (sr_Status (s_sr s))) s = (Ok fl, s1)"
  have k: "keeps s s1"
    using DeleteOutdatedSecrets_keeps [of s pf "sr_name (s_sr s)" "st_ProvisionedNamespaces (sr_Status (s_sr s))"] d by simp
  define s2 where "s2 = upd_td (\<lambda>t. t\<lparr>td_FailedNamespaces := fl, td_RequeueInterval := s_RequeueInterval s1,
      td_SecretManagedByNamespaces := []\<rparr>) s1"
  have "changes st K s2 (snd (manage_namespaces pf (td_NamespaceList (s_td s2)) [] [] s2))"
    using wf K k by (intro ch_manage_namespaces) (auto simp: s2_def keeps_def recorded_def)
  then show "changes st K s1 (snd (let s = upd_td (\<lambda>t. t\<lparr>td_FailedNamespaces := fl, td_RequeueInterval := s_RequeueInterval s1,
                               td_SecretManagedByNamespaces := []\<rparr>) s1
        in manage_namespaces pf (td_NamespaceList (s_td s)) [] [] s))"
    unfolding Let_def s2_def [symmetric] by (simp add: changes_def s2_def)
qed simp

end

interpretation mem: lawful memory mem_lookup
  by unfold_locales (rule memory_store_laws)

lemma demo_run: "\<exists>s'. ManagingSecrets memory demo_state = (Ok (), s') \<and> failed s' = {}"
  by (simp add: ManagingSecrets_def DeleteOutdatedSecrets_def getRemovedNamespaces_def manage_namespace_def
      GetSecret_def HandlingToken_def finish_namespace_def report_failures_def CreateOrUpdateSecrets_def
      configure_secret_def write_secret_def call_def add_managed_def IsSecretOwnedBy_def mem_defs demo_defs secret_types Let_def)

section \<open>Theorems\<close>

text \<open>C1: when the management of the secrets ends without an error, every selected namespace is either
  reported as failed or the cluster holds every configured secret there, with exactly the type and data
  for the current user and token.  The cluster is assumed to keep the store laws, Artifactory not to
  answer with an empty token, and the namespaces the API server listed to have distinct non-empty names;
  the list of secrets is a validated one.\<close>

theorem rotation_complete:
  assumes "store_laws pf st" "token_law pf" "ready s"
    and "distinct (map ns_name (td_NamespaceList (s_td s)))" "[] \<notin> ns_name ` set (td_NamespaceList (s_td s))"
  shows "case ManagingSecrets pf s of
     (Ok _, s') \<Rightarrow> \<forall>n \<in> set (td_NamespaceList (s_td s)).
       ns_name n \<in> failed s' \<or> (\<forall>g \<in> set (td_GeneratedSecrets (s_td s)). is_current st s' (ns_name n) g)
   | _ \<Rightarrow> True"
proof -
  have L: "lawful pf st" by (rule lawful.intro [OF assms(1)])
  have ns: "\<forall>n \<in> set (td_NamespaceList (s_td s)). ns_name n \<noteq> []" using assms(5) by force
  have "ns_name n \<in> failed s' \<or> (\<forall>g \<in> set (td_GeneratedSecrets (s_td s)). is_current st s' (ns_name n) g)"
    if ok: "ManagingSecrets pf s = (Ok (), s')" and n: "n \<in> set (td_NamespaceList (s_td s))" for s' n
  proof -
    have "configured s \<subseteq> managed s' (ns_name n) \<or> ns_name n \<in> failed s'"
      using ManagingSecrets_ok [OF ok ns] n by blast
    with lawful.ManagingSecrets_current [OF L ok assms(2-4) ns] show ?thesis
      unfolding all_current_def by (auto simp: image_subset_iff)
  qed
  then show ?thesis by (simp split: prod.split outcome.split)
qed

theorem rotation_complete_witness:
  "is_current mem_lookup (snd (ManagingSecrets memory demo_state)) ''ns''
     \<lparr>gs_SecretName = ''a'', gs_SecretType = SecretTypeGeneric, gs_Scope = []\<rparr>"
proof -
  obtain s' where s': "ManagingSecrets memory demo_state = (Ok (), s')" "failed s' = {}" using demo_run by blast
  have "token_law memory" by (simp add: token_law_def memory_def mem_token_def)
  moreover have "ready demo_state" by (simp add: ready_def demo_defs valid_secret_def)
  ultimately show ?thesis
    using rotation_complete [OF memory_store_laws, of demo_state] s' by (simp add: demo_defs)
qed

text \<open>C7: whatever its outcome, the management of the secrets leaves every secret of the cluster as it is,
  except the configured ones in namespaces that are selected now or were provisioned before, and the
  ones the last status records.\<close>

theorem untouched_secrets:
  assumes "store_laws pf st" "wf_map (status_map s)"
    and "(ns, n) \<notin> recorded s" "n \<notin> configured s \<or>
      ns \<notin> ns_name ` set (td_NamespaceList (s_td s)) \<union> set (st_ProvisionedNamespaces (sr_Status (s_sr s)))"
  shows "st (s_world (snd (ManagingSecrets pf s))) (ns, n) = st (s_world s) (ns, n)"
proof -
  let ?K = "recorded s \<union> (ns_name ` set (td_NamespaceList (s_td s)) \<union> set (st_ProvisionedNamespaces (sr_Status (s_sr s)))) \<times> configured s"
  have "changes st ?K s (snd (ManagingSecrets pf s))"
    by (rule lawful.ch_ManagingSecrets [OF lawful.intro [OF assms(1)] assms(2)]) simp_all
  then show ?thesis using assms(3,4) by (auto simp: changes_def)
qed

theorem untouched_secrets_witness:
  "mem_lookup (s_world (snd (ManagingSecrets memory demo_state))) (''ns'', ''other'') = mem_lookup (s_world demo_state) (''ns'', ''other'')"
  by (rule untouched_secrets [OF memory_store_laws]) (simp_all add: demo_defs recorded_def)

end
