(* ===== verification/Operator_Runs.thy ===== *)
theory Operator_Runs
  imports Controller_Store
begin

text \<open>
  Runs of the whole operator: reconciliations and namespace events in any order, one after another,
  with anything else happening in the world between them.  The history of calls of a run is judged by
  the guard on writes.
\<close>

section \<open>The guard\<close>

text \<open>Every write of a secret follows a read that found it absent or controlled by a SecretRotator.\<close>

definition writes_checked :: "'w platform \<Rightarrow> api_call list \<Rightarrow> api_call \<Rightarrow> bool" where
  "writes_checked pf past c \<longleftrightarrow> (\<exists>rotator. writes_seen pf rotator past c)"

lemma writes_seen_mono: "writes_seen pf rot past c \<Longrightarrow> writes_seen pf rot (older @ past) c"
  by (auto simp: writes_seen_def seen_def split: api_call.splits)

interpretation wc: call_guard "writes_checked pf" for pf
  by unfold_locales (auto simp: writes_checked_def intro: writes_seen_mono)

lemma guarded_mono: "guarded G s s' \<Longrightarrow> (\<And>past c. G past c \<Longrightarrow> H past c) \<Longrightarrow> guarded H s s'"
  unfolding guarded_def obeys_def by blast

text \<open>The calls that are not writes of secrets.\<close>

fun is_write :: "api_call \<Rightarrow> bool" where
  "is_write (UpdateSecretCall _ _) = True"
| "is_write (CreateSecretCall _ _) = True"
| "is_write _ = False"

lemma not_write_checked: "\<not> is_write c \<Longrightarrow> writes_checked pf past c"
  by (cases c) (simp_all add: writes_checked_def writes_seen_def)

lemma wc_call: "(\<And>r. \<not> is_write (c r)) \<Longrightarrow> guarded (writes_checked pf) s (snd (call f c s))"
  by (intro guarded_call not_write_checked)

lemma wc_record: "\<not> is_write c \<Longrightarrow> guarded (writes_checked pf) s (record_call c s)"
  unfolding guarded_def
  by (intro exI [of _ "[c]"]) (simp add: record_call_def obeys_def not_write_checked)

lemma wc_upd:
  "guarded G (s\<lparr>s_td := t\<rparr>) s' \<longleftrightarrow> guarded G s s'" "guarded G (s\<lparr>s_sr := r\<rparr>) s' \<longleftrightarrow> guarded G s s'"
  "guarded G (s\<lparr>s_world := w\<rparr>) s' \<longleftrightarrow> guarded G s s'"
  "guarded G (set_condition pf a b c d s) s' \<longleftrightarrow> guarded G s s'"
  by (simp_all add: guarded_def set_condition_def)

lemmas wc_intros = wc.gd.if_err_rel wc_call wc_record

section \<open>The stages of a reconciliation\<close>

lemma wc_rotator:
  "guarded (writes_checked pf) s (snd (status_update pf s))"
  "guarded (writes_checked pf) s (snd (update_rotator pf s))"
  "guarded (writes_checked pf) s (snd (get_rotator pf req s))"
  by (auto simp: status_update_def update_rotator_def get_rotator_def intro!: wc_intros)

lemma wc_status: "guarded (writes_checked pf) s (snd (status_update pf (set_condition pf a b c d s)))"
  using wc_rotator(1) [of pf "set_condition pf a b c d s"] by (simp add: wc_upd)

lemma wc_update: "guarded (writes_checked pf) s (snd (update_rotator pf (s\<lparr>s_sr := r\<rparr>)))"
  using wc_rotator(2) [of pf "s\<lparr>s_sr := r\<rparr>"] by (simp add: wc_upd)

lemma wc_HandleConditions: "guarded (writes_checked pf) s (snd (HandleConditions pf req s))"
  by (auto simp: HandleConditions_def Let_def intro!: wc.gd.if_err_rel wc_rotator wc_status)

lemma wc_HandleFinalizers: "guarded (writes_checked pf) s (snd (HandleFinalizers pf s))"
  by (auto simp: HandleFinalizers_def case_prod_beta Let_def intro!: wc.gd.if_err_rel wc_update)

lemma wc_get_after_event:
  "guarded (writes_checked pf) s (snd (get_rotator pf req (DoFinalizerOperationsForSecretRotator s)))"
  by (rule wc.gd.trans [OF _ wc_rotator(3)]) (simp add: DoFinalizerOperationsForSecretRotator_def wc_record)

lemma wc_Checker: "guarded (writes_checked pf) s (snd (SecretRotatorChecker pf req s))"
  by (auto simp: SecretRotatorChecker_def case_prod_beta Let_def
      intro!: wc.gd.if_err_rel wc_status wc_update wc_get_after_event)

lemma wc_GetServiceAccount: "s_calls s1 = s_calls s \<Longrightarrow> guarded (writes_checked pf) s (snd (GetServiceAccount pf s1))"
proof -
  assume s1: "s_calls s1 = s_calls s"
  have "guarded (writes_checked pf) s1 (snd (GetServiceAccount pf s1))"
    by (auto simp: GetServiceAccount_def GetK8sClient_def Let_def intro!: wc_intros split: outcome.split)
  then show ?thesis using s1 by (simp add: guarded_def)
qed

lemma wc_call_from:
  assumes "s_calls s1 = s_calls s" "\<And>r. \<not> is_write (c r)"
  shows "guarded (writes_checked pf) s (snd (call f c s1))"
  using wc_call [of c pf s1 f] assms by (simp add: guarded_def)

lemma wc_Validate: "guarded (writes_checked pf) s (snd (ValidateObjectSpec pf s))"
  unfolding ValidateObjectSpec_def Let_def
  by (auto intro!: wc.gd.if_err_rel wc_call_from wc_GetServiceAccount split: option.split outcome.split)

lemma wc_HandleCerts: "guarded (writes_checked pf) s (snd (HandleCerts pf ns n rot s))"
  by (rule guarded_mono [OF HandleCerts_guarded])
     (auto simp: touches_certs_def intro!: not_write_checked split: api_call.splits)

lemma wc_Initialize: "guarded (writes_checked pf) s (snd (InitializeResource pf req s))"
proof -
  have patch: "guarded (writes_checked pf) s (snd (DeferPatch pf base s))" for base s
    by (auto simp: DeferPatch_def intro!: wc_intros)
  have body: "guarded (writes_checked pf) s (snd (validate_and_certs pf s))" for s
    by (auto simp: validate_and_certs_def Let_def intro!: wc.gd.if_err_rel wc_Validate wc_HandleCerts)
  show ?thesis
    unfolding InitializeResource_def
    by (auto intro!: wc.gd.if_err_rel wc_HandleConditions wc_HandleFinalizers wc_Checker
        wc.gd.with_defer_rel body patch)
qed

lemma wc_ManagingSecrets: "names_law pf \<Longrightarrow> guarded (writes_checked pf) s (snd (ManagingSecrets pf s))"
  by (rule guarded_mono [OF ManagingSecrets_since [unfolded since_guarded]]) (auto simp: writes_checked_def)

lemma wc_UpdateStatus: "guarded (writes_checked pf) s (snd (UpdateStatus pf s))"
  unfolding UpdateStatus_def Let_def
  by (auto intro!: wc.gd.if_err_rel wc_record simp: status_update_def set_condition_def intro!: wc_call_from)

lemma wc_Reconcile:
  assumes "names_law pf"
  shows "guarded (writes_checked pf) s (snd (Reconcile pf req s))"
proof -
  have get: "guarded (writes_checked pf) s (snd (get_rotator pf req (s\<lparr>s_td := t, s_sr := r\<rparr>)))" for t r
    using wc_rotator(3) [of pf "s\<lparr>s_td := t, s_sr := r\<rparr>" req] by (simp add: wc_upd)
  show ?thesis
    unfolding Reconcile_def Let_def
    by (auto simp: stage_failed_def intro!: wc.gd.if_err_rel get wc_Initialize wc_ManagingSecrets [OF assms] wc_UpdateStatus wc_record)
qed

section \<open>Namespace events\<close>

lemma wc_touch: "guarded (writes_checked pf) s (snd (touch_rotators pf m items s))"
proof (induction items arbitrary: s)
  case (Cons i items)
  have "guarded (writes_checked pf) s (snd (HandlingNamespaceEvents pf i s))"
    by (auto simp: HandlingNamespaceEvents_def Let_def intro!: wc_intros)
  then show ?case using Cons by (auto intro!: wc.gd.if_err_rel)
qed simp

lemma wc_list: "guarded (writes_checked pf) s (snd (ListSecretRotatorObjects pf s))"
  by (auto simp: ListSecretRotatorObjects_def intro!: wc_intros)

lemma wc_events:
  "guarded (writes_checked pf) s (snd (CreateFunc pf obj s))"
  "guarded (writes_checked pf) s (snd (UpdateFunc pf obj meta s))"
  by (auto simp: CreateFunc_def UpdateFunc_def Let_def intro!: wc.gd.if_err_rel wc_list wc_touch split: event_object.split)

section \<open>Runs\<close>

datatype operator_event =
    ReconcileRequest "string \<times> string"
  | ObjectCreated event_object
  | ObjectUpdated event_object ObjectMeta

definition handle_event :: "'w platform \<Rightarrow> operator_event \<Rightarrow> 'w state \<Rightarrow> 'w state" where
  "handle_event pf e s =
     (case e of
        ReconcileRequest req \<Rightarrow> snd (Reconcile pf req s)
      | ObjectCreated obj \<Rightarrow> snd (CreateFunc pf obj s)
      | ObjectUpdated obj meta \<Rightarrow> snd (UpdateFunc pf obj meta s))"

text \<open>
  The states of a run: an event is handled, the world changes by itself, or the process starts anew,
  with the memory it keeps between reconciliations gone.
\<close>

inductive reachable :: "'w platform \<Rightarrow> 'w state \<Rightarrow> 'w state \<Rightarrow> bool" for pf s0 where
  start: "reachable pf s0 s0"
| event: "reachable pf s0 s \<Longrightarrow> reachable pf s0 (handle_event pf e s)"
| world: "reachable pf s0 s \<Longrightarrow> reachable pf s0 (s\<lparr>s_world := w\<rparr>)"
| restart: "reachable pf s0 s \<Longrightarrow> reachable pf s0 (s\<lparr>s_cache := None, s_RequeueInterval := 0\<rparr>)"

lemma wc_handle_event:
  "names_law pf \<Longrightarrow> guarded (writes_checked pf) s (handle_event pf e s)"
  by (simp add: handle_event_def wc_Reconcile wc_events split: operator_event.split)

text \<open>C6: in every run of the operator, whatever events it handles and whatever happens between them, each
  creation or update of a secret follows a read of that secret that found it absent or controlled by a
  SecretRotator.\<close>

theorem run_writes_checked:
  assumes "names_law pf" "reachable pf s0 s"
  shows "guarded (writes_checked pf) s0 s"
  using assms(2)
proof (induction rule: reachable.induct)
  case (event s e)
  from event.IH show ?case by (rule wc.gd.trans) (rule wc_handle_event [OF assms(1)])
next
  case (world s w)
  then show ?case by (simp add: guarded_def)
next
  case (restart s)
  then show ?case by (simp add: guarded_def)
qed simp

section \<open>The signing key over a run\<close>

text \<open>
  Credentials in which an access key determines its secret, and the relation that a computation keeps the
  cached signing key the one of its access key.
\<close>

definition credentials_law :: "'w platform \<Rightarrow> (string \<Rightarrow> string) \<Rightarrow> bool" where
  "credentials_law pf secret_of \<longleftrightarrow>
     (\<forall>p w a b c w'. pf_Retrieve pf p w = (Ok (a, b, c), w') \<longrightarrow> b = secret_of a) \<and>
     (\<forall>body cr. pf_DecodeCredentials pf body = Ok cr \<longrightarrow> cred_SecretAccessKey cr = secret_of (cred_AccessKeyId cr))"

definition cache_step :: "(string \<Rightarrow> string) \<Rightarrow> 'w state \<Rightarrow> 'w state \<Rightarrow> bool" where
  "cache_step secret_of s s' \<longleftrightarrow> (cache_ok secret_of (s_cache s) \<longrightarrow> cache_ok secret_of (s_cache s'))"

interpretation ck: step_rel "cache_step secret_of" for secret_of
  by unfold_locales (simp_all add: cache_step_def)

lemma ck_same: "s_cache s' = s_cache s \<Longrightarrow> cache_step so s s'"
  by (simp add: cache_step_def)

lemma ck_td: "cache_step so s (s\<lparr>s_td := t\<rparr>)" "cache_step so s (s\<lparr>s_sr := r\<rparr>)"
  by (simp_all add: cache_step_def)

lemma ck_call: "s_cache s1 = s_cache s \<Longrightarrow> cache_step so s (snd (call f c s1))"
  by (simp add: cache_step_def call_def case_prod_beta Let_def)

lemma ck_record: "cache_step so s (record_call c s)"
  by (simp add: cache_step_def record_call_def)

lemma ck_k8s: "cache_step so s (snd (GetK8sClient pf s))"
  by (simp add: GetK8sClient_def split: outcome.split)

lemmas ck_intros = ck.if_err_rel ck_call ck_record ck_k8s

lemma ck_sign: "aws_SecretKey creds = so (aws_AccessKey creds) \<Longrightarrow> cache_step so s (snd (sign_sts pf creds s))"
proof -
  assume c: "aws_SecretKey creds = so (aws_AccessKey creds)"
  have "snd (SignV4a sg now ''GET'' sts_url ''sts'' creds cache) = snd (retrievePrivateKey creds cache)" for sg now cache
    by (simp add: SignV4a_sts split: prod.split outcome.split)
  then show ?thesis
    using cache_ok_retrieve(1) [of so _ creds] c by (simp add: cache_step_def sign_sts_def case_prod_beta Let_def)
qed

lemma ck_max_session:
  "cache_step so s (snd (GetMaxSession pf arn creds n ns s))"
  "cache_step so s (snd (GetMaxSessionWithCredentialCache pf arn creds s))"
  by (auto simp: GetMaxSession_def GetMaxSessionWithCredentialCache_def load_config_def Let_def
      intro!: ck_intros split: option.split)

lemma ck_set_max_session: "cache_step so s (snd r) \<Longrightarrow> cache_step so s (snd (set_max_session r))"
  by (auto simp: set_max_session_def intro!: ck.if_err_rel intro: ck_same)

lemma ck_resolve: "cache_step so s (snd (ResolveIAMRoleARNFromPodIdentityCredentials pf region c s))"
  by (auto simp: ResolveIAMRoleARNFromPodIdentityCredentials_def load_config_def Let_def
      intro!: ck_intros ck_max_session split: option.split prod.split)

lemma call_result: "call f c s = (r, s') \<Longrightarrow> f (s_world s) = (r, s_world s')"
  by (auto simp: call_def Let_def split: prod.splits)

lemma ck_web:
  assumes "credentials_law pf so"
  shows "cache_step so s (snd (GetSignedRequestForWebIdentity pf sa cs s))"
proof -
  have cred: "b = so a" if "call (pf_Retrieve pf p) e s = (Ok (a, b, c), s')" for p a b c e s s'
    using call_result [OF that] assms unfolding credentials_law_def by blast
  have "cache_step so s (snd (GetSignedRequestAndHandleRoleMaxSession pf arn t n ns s))" for arn t n ns s
    by (auto simp: GetSignedRequestAndHandleRoleMaxSession_def load_config_def Let_def
        intro!: ck.if_err_rel ck_call ck_sign ck_set_max_session ck_max_session dest: cred split: prod.split)
  then show ?thesis
    by (auto simp: GetSignedRequestForWebIdentity_def Let_def intro!: ck_intros)
qed

lemma ck_pod:
  assumes "credentials_law pf so"
  shows "cache_step so s (snd (GetSignedRequestForPodIdentity pf s))"
proof -
  have cred: "cred_SecretAccessKey cr = so (cred_AccessKeyId cr)" if "(pf_DecodeCredentials pf body, s) = (Ok cr, s')" for body cr s s'
    using that assms unfolding credentials_law_def by blast
  show ?thesis
    unfolding GetSignedRequestForPodIdentity_def Let_def
    by (auto intro!: ck.if_err_rel ck_call ck_sign ck_set_max_session ck_resolve dest: cred simp: assms [unfolded credentials_law_def])
qed

lemma ck_signed_request:
  assumes "credentials_law pf so"
  shows "cache_step so s (snd (signed_request pf sa cs s))"
proof -
  define a where "a = (if sp_AuthType (sr_Spec (s_sr s)) = [] then AutoAuthType else sp_AuthType (sr_Spec (s_sr s)))"
  have "cache_step so (upd_td (\<lambda>t. t\<lparr>td_AuthType := a\<rparr>) s) (snd (signed_request pf sa cs s))"
    unfolding signed_request_def Let_def a_def [symmetric]
    by (auto intro!: ck.if_err_rel ck_pod ck_web ck_record assms intro: ck_same)
  then show ?thesis by (simp add: cache_step_def)
qed

lemma ck_finish_token: "cache_step so s (snd (finish_token pf req s))"
proof (cases "td_RoleMaxSessionDuration (s_td s)")
  case (Some ttl)
  define s1 where "s1 = ttl_warning ttl (upd_td (\<lambda>t. t\<lparr>td_TTLInSeconds := ttl\<rparr>) s)"
  have create: "cache_step so s (snd (createArtifactoryToken pf req url t sec n s))" for url t sec n s
    by (auto simp: createArtifactoryToken_def createCustomHTTPClient_state Let_def intro!: ck_intros split: option.split)
  have "cache_step so s1 (snd (finish_token pf req s))"
    unfolding finish_token_def Some option.case Let_def s1_def [symmetric]
    by (auto intro!: ck.if_err_rel create intro: ck_same simp: record_call_def split: prod.split)
  moreover have "s_cache s1 = s_cache s"
    by (simp add: s1_def ttl_warning_def record_call_def split: option.split)
  ultimately show ?thesis by (simp add: cache_step_def)
qed (simp add: finish_token_def)

lemma ck_HandlingToken:
  assumes "credentials_law pf so"
  shows "cache_step so s (snd (HandlingToken pf s))"
proof (cases "td_Token (s_td s) = []")
  case True
  have "cache_step so (default_account s) (snd (HandlingToken pf s))"
    unfolding HandlingToken_def Let_def
    by (auto simp: True intro!: ck.if_err_rel ck_k8s ck_call ck_record ck_signed_request [OF assms] ck_finish_token)
  then show ?thesis by (simp add: default_account_def Let_def cache_step_def)
qed (simp add: HandlingToken_def)

lemma ck_scan: "cache_step so s (snd (scan_secrets pf ns gs f sk s))"
proof (induction gs arbitrary: f sk s)
  case (Cons g gs)
  then show ?case by (auto simp: GetSecret_def intro!: ck.if_err_rel ck_call)
qed simp

lemma ck_write_secrets: "cache_step so s (snd (write_secrets pf ns gs sk f s))"
proof (induction gs arbitrary: f s)
  case (Cons g gs)
  have one: "cache_step so s (snd (CreateOrUpdateSecrets pf ns n t s))" for n t s
    by (auto simp: CreateOrUpdateSecrets_def write_secret_def Let_def intro!: ck.if_err_rel ck_call split: outcome.split)
  have m: "cache_step so s1 (snd (write_secrets pf ns gs sk f (add_managed a b s1)))" for f a b s1
    using Cons.IH [where f = f and s = "add_managed a b s1"] by (simp add: add_managed_def cache_step_def)
  show ?case using Cons one m by (auto intro!: ck.if_err_rel split: option.split)
qed simp

lemma ck_delete_names: "cache_step so s (snd (delete_names pf ns names s))"
proof (induction names arbitrary: s)
  case (Cons n names)
  then show ?case by (auto simp: Let_def intro!: ck.if_err_rel ck_call)
qed simp

lemma ck_delete_namespaces: "cache_step so s (snd (delete_namespaces pf ch nss s))"
proof (induction nss arbitrary: s)
  case (Cons ns nss)
  then show ?case by (auto intro!: ck.if_err_rel ck_delete_names)
qed simp

lemma ck_finish_namespace: "cache_step so s (snd (finish_namespace pf ns f s))"
proof -
  have "cache_step so s (snd (DeleteOutdatedGeneratedSecrets pf s))" for s
    by (simp add: DeleteOutdatedGeneratedSecrets_def case_prod_beta Let_def ck_delete_namespaces)
  then have "cache_step so (report_failures ns f s) (snd (finish_namespace pf ns f s))"
    unfolding finish_namespace_def Let_def by (auto intro!: ck.if_err_rel intro: ck_same)
  then show ?thesis by (simp add: cache_step_def report_failures_def split: if_splits)
qed

lemma ck_manage:
  assumes "credentials_law pf so"
  shows "cache_step so s (snd (manage_namespaces pf nss f sk s))"
proof (induction nss arbitrary: f sk s)
  case (Cons n nss)
  have "cache_step so s (snd (manage_namespace pf n f sk s))"
    unfolding manage_namespace_def
    by (auto intro!: ck.if_err_rel ck_scan ck_HandlingToken [OF assms] ck_write_secrets ck_finish_namespace)
  then show ?case using Cons by (auto intro!: ck.if_err_rel)
qed simp

lemma ck_delete_removed: "cache_step so s (snd (delete_removed pf rot gs nss f s))"
proof (induction nss arbitrary: f s)
  case (Cons ns nss)
  have "cache_step so s (snd (delete_generated pf rot ns gs f s))" for f s
  proof (induction gs arbitrary: f s)
    case (Cons g gs)
    then show ?case by (auto simp: DeleteSecret_def GetSecret_def intro!: ck.if_err_rel ck_call)
  qed simp
  then show ?case using Cons by (auto intro!: ck.if_err_rel)
qed simp

lemma ck_ManagingSecrets:
  assumes "credentials_law pf so"
  shows "cache_step so s (snd (ManagingSecrets pf s))"
proof -
  have "cache_step so s1 (snd (manage_namespaces pf nss f sk (s1\<lparr>s_td := t\<rparr>)))" for s1 nss f sk t
    using ck_manage [OF assms, of "s1\<lparr>s_td := t\<rparr>" nss f sk] by (simp add: cache_step_def)
  then show ?thesis
    unfolding ManagingSecrets_def DeleteOutdatedSecrets_def Let_def by (auto intro!: ck.if_err_rel ck_delete_removed)
qed

lemma ck_rotator:
  "s_cache s1 = s_cache s \<Longrightarrow> cache_step so s (snd (status_update pf s1))"
  "s_cache s1 = s_cache s \<Longrightarrow> cache_step so s (snd (update_rotator pf s1))"
  "s_cache s1 = s_cache s \<Longrightarrow> cache_step so s (snd (get_rotator pf req s1))"
  by (auto simp: status_update_def update_rotator_def get_rotator_def intro!: ck.if_err_rel ck_call intro: ck_same)

lemma ck_certs: "cache_step so s (snd (create_certs pf rot dat keys s))"
proof (induction keys arbitrary: s)
  case (Cons k keys)
  have "cache_step so s (snd (CreateFile pf p c s))" for p c
    by (auto simp: CreateFile_def intro!: ck.if_err_rel ck_call)
  then show ?case using Cons by (auto intro!: ck.if_err_rel)
qed simp

lemma ck_HandleCerts: "cache_step so s (snd (HandleCerts pf ns n rot s))"
  by (auto simp: HandleCerts_def GetSecret_def CreateDir_def Let_def
      intro!: ck.if_err_rel ck_call ck_certs split: outcome.split)

lemma ck_Validate: "cache_step so s (snd (ValidateObjectSpec pf s))"
proof -
  have "cache_step so s (snd (GetServiceAccount pf s1))" if "s_cache s1 = s_cache s" for s s1 :: "'a state"
    using that by (auto simp: GetServiceAccount_def Let_def intro!: ck.if_err_rel ck_call intro: ck_same)
      (simp_all add: GetK8sClient_def ck_same split: outcome.splits)
  then show ?thesis
    unfolding ValidateObjectSpec_def Let_def
    by (auto intro!: ck.if_err_rel ck_call ck_td split: option.split outcome.split)
qed

lemma ck_Initialize: "cache_step so s (snd (InitializeResource pf req s))"
proof -
  have chk: "cache_step so s (snd (HandleConditions pf req s))" "cache_step so s (snd (HandleFinalizers pf s))"
    "cache_step so s (snd (SecretRotatorChecker pf req s))" for s
    by (auto simp: HandleConditions_def HandleFinalizers_def SecretRotatorChecker_def set_condition_def
        DoFinalizerOperationsForSecretRotator_def record_call_def case_prod_beta Let_def intro!: ck.if_err_rel ck_rotator ck_td)
  have body: "cache_step so s (snd (validate_and_certs pf s))" for s
    by (auto simp: validate_and_certs_def Let_def intro!: ck.if_err_rel ck_Validate ck_HandleCerts)
  have patch: "cache_step so s (snd (DeferPatch pf base s))" for base s
    by (auto simp: DeferPatch_def intro!: ck.if_err_rel ck_call ck_td)
  have "cache_step so s (snd (with_defer (validate_and_certs pf s) (DeferPatch pf base)))" for base s
    by (intro ck.with_defer_rel body patch)
  then show ?thesis
    unfolding InitializeResource_def by (auto intro!: ck.if_err_rel chk)
qed

lemma ck_Reconcile:
  assumes "credentials_law pf so"
  shows "cache_step so s (snd (Reconcile pf req s))"
proof -
  have upd: "cache_step so s (snd (UpdateStatus pf s))" for s
    unfolding UpdateStatus_def set_condition_def record_call_def Let_def
    by (auto intro!: ck.if_err_rel ck_rotator intro: ck_same)
  show ?thesis
    unfolding Reconcile_def Let_def
    by (auto simp: stage_failed_def record_call_def
        intro!: ck.if_err_rel ck_rotator ck_Initialize ck_ManagingSecrets [OF assms] upd intro: ck_same)
qed

lemma ck_touch: "cache_step so s (snd (touch_rotators pf m items s))"
proof (induction items arbitrary: s)
  case (Cons i items)
  have "cache_step so s (snd (HandlingNamespaceEvents pf i s))"
    by (auto simp: HandlingNamespaceEvents_def Let_def intro!: ck.if_err_rel ck_call)
  then show ?case using Cons by (auto intro!: ck.if_err_rel)
qed simp

lemma ck_handle_event:
  assumes "credentials_law pf so"
  shows "cache_step so s (handle_event pf e s)"
proof -
  have "cache_step so s (snd (ListSecretRotatorObjects pf s))" for s
    by (auto simp: ListSecretRotatorObjects_def intro!: ck.if_err_rel ck_call)
  then have "cache_step so s (snd (CreateFunc pf obj s))" "cache_step so s (snd (UpdateFunc pf obj meta s))" for obj meta
    by (auto simp: CreateFunc_def UpdateFunc_def Let_def intro!: ck.if_err_rel ck_touch split: event_object.split)
  then show ?thesis by (simp add: handle_event_def ck_Reconcile [OF assms] split: operator_event.split)
qed

text \<open>C20: in every run that starts with an empty key cache, the cached signing key is always the one derived
  from the access key it is stored under and that key's secret, provided the credential sources never give
  two secrets for one access key.\<close>

theorem run_key_cache:
  assumes "credentials_law pf secret_of" "reachable pf s0 s" "s_cache s0 = None"
  shows "cache_ok secret_of (s_cache s)"
  using assms(2)
proof (induction rule: reachable.induct)
  case start
  then show ?case using assms(3) by (simp add: cache_ok_def)
next
  case (event s e)
  then show ?case using ck_handle_event [OF assms(1), of s e] by (simp add: cache_step_def)
next
  case (restart s)
  then show ?case by (simp add: cache_ok_def)
qed simp

theorem run_key_cache_witness:
  "cache_ok (\<lambda>_. ''secret'') (s_cache (handle_event memory (ReconcileRequest (''ns'', ''rot'')) demo_state))"
proof -
  have "credentials_law memory (\<lambda>_. ''secret'')" by (simp add: credentials_law_def memory_def)
  then show ?thesis
    by (rule run_key_cache [OF _ reachable.event [OF reachable.start]]) (simp add: demo_defs)
qed

end
