(* ===== verification/Operator_Demo.thy ===== *)
theory Operator_Demo
  imports Operator_Runs
begin

text \<open>
  A complete reconciliation on the cluster in memory, evaluated step by step: the resource is read,
  validated, a token is obtained with the signing key of the cache, the secret is written and the
  status updated.  The witnesses of the properties on whole cycles run on it.
\<close>

definition live_rotator :: SecretRotator where
  "live_rotator = demo_rotator
     \<lparr>sr_Meta := (demo_meta ''rot'')\<lparr>om_Namespace := ''op'', om_Finalizers := [SecretRotatorFinalizer]\<rparr>,
      sr_Spec := (sr_Spec demo_rotator)
        \<lparr>sp_GeneratedSecrets := [\<lparr>gs_SecretName = ''a'', gs_SecretType = SecretTypeGeneric, gs_Scope = []\<rparr>],
         sp_ArtifactoryUrl := ''https://art.example''\<rparr>,
      sr_Status := (sr_Status demo_rotator)\<lparr>st_Conditions := [\<lparr>cd_Type = TypeAvailableSecretRotator, cd_Status = ''True'',
        cd_Reason = ''Reconciling'', cd_Message = [], cd_LastTransitionTime = 0\<rparr>]\<rparr>\<rparr>"

definition live_key :: V4aCredentials where
  "live_key = \<lparr>cr_Context = ''ASIA12345678'', cr_PrivateKey = \<lparr>priv_Public = \<lparr>pub_X = 1, pub_Y = 1\<rparr>, priv_D = 1\<rparr>,
     cr_SessionToken = ''session''\<rparr>"

definition live_state :: "mem state" where
  "live_state = (fresh (demo_world\<lparr>m_rotators := [((''op'', ''rot''), live_rotator)]\<rparr>) empty_TokenDetails empty_SecretRotator)
     \<lparr>s_cache := Some live_key\<rparr>"

lemma memory_post:
  "\<exists>req. http_NewRequest ''POST'' (''https://'' @ ''art.example'' @ tokenEndpoint) body = Ok req"
proof -
  have "is_Ok (url_Parse (''https://'' @ ''art.example'' @ tokenEndpoint))" "list_all token_char ''POST''" by code_simp+
  then show ?thesis
    by (cases "url_Parse (''https://'' @ ''art.example'' @ tokenEndpoint)") (simp_all add: http_NewRequest_def Let_def)
qed

text \<open>Signing with the cached key.\<close>

lemma memory_sign:
  assumes "aws_AccessKey creds = ''ASIA12345678''" "s_cache s = Some live_key"
  shows "sign_sts memory creds s =
    (Ok (sts_signed_request ''ASIA12345678'' (pf_Now memory (s_world s)) ''session'' [1, 2, 3]), s)"
  using assms by (simp add: sign_sts_def SignV4a_sts retrievePrivateKey_def memory_ops live_key_def)

text \<open>The token: the plain HTTP client, and the answer of the token service.\<close>

lemma memory_artifactory:
  assumes "is_sts_signed request" "\<not> sec_Enabled sec"
  shows "\<exists>c. createArtifactoryToken memory request ''art.example'' (Some ttl) sec n s = (Ok (''user'', ''tok''), s\<lparr>s_calls := s_calls s @ [c]\<rparr>)"
proof -
  let ?b = "bytes_of (''{'' @ [CHR 0x22] @ ''expires_in'' @ [CHR 0x22] @ '': '' @ FormatInt ttl @ ''}'')"
  obtain req where req: "http_NewRequest ''POST'' (''https://'' @ ''art.example'' @ tokenEndpoint) ?b = Ok req"
    using memory_post by blast
  from copied_request_ok [OF is_sts_signed_plain [OF assms(1)] req, of memory s]
  obtain h where h: "copy_headers (r_Header request) (range_keys memory (r_Header request) s)
      (header_Set ''Content-Type'' ''application/json'' (r_Header req)) = Ok h" by blast
  show ?thesis
    unfolding createArtifactoryToken_def option.case Let_def req if_err_simps h
    using assms(2) by (simp add: createCustomHTTPClient_def call_def memory_ops mem_token_def) (intro exI, rule refl)
qed

lemma memory_role: "Split ''arn:aws:iam::1:role/r'' (CHR ''/'') = [''arn:aws:iam::1:role'', ''r'']"
  by code_simp

lemma memory_signed_request:
  assumes "sp_AuthType (sr_Spec (s_sr s)) = []" "m_env (s_world s) = []" "s_cache s = Some live_key"
  shows "\<exists>req cs. is_sts_signed req \<and>
    signed_request memory \<lparr>sa_Meta = empty_meta\<lparr>om_Name := n, om_Namespace := ns,
        om_Annotations := [(''eks.amazonaws.com/role-arn'', ''arn:aws:iam::1:role/r'')]\<rparr>\<rparr> ''clientset'' s =
      (Ok req, s\<lparr>s_calls := cs, s_td := (s_td s)\<lparr>td_AuthType := WebIdentityAuthType, td_RoleMaxSessionDuration := Some 3600\<rparr>\<rparr>)"
proof -
  let ?r = "signed_request memory \<lparr>sa_Meta = empty_meta\<lparr>om_Name := n, om_Namespace := ns,
        om_Annotations := [(''eks.amazonaws.com/role-arn'', ''arn:aws:iam::1:role/r'')]\<rparr>\<rparr> ''clientset'' s"
  have "fst ?r = Ok (sts_signed_request ''ASIA12345678'' (pf_Now memory (s_world s)) ''session'' [1, 2, 3]) \<and>
    s_world (snd ?r) = s_world s \<and> s_sr (snd ?r) = s_sr s \<and> s_cache (snd ?r) = s_cache s \<and>
    s_RequeueInterval (snd ?r) = s_RequeueInterval s \<and>
    s_td (snd ?r) = (s_td s)\<lparr>td_AuthType := WebIdentityAuthType, td_RoleMaxSessionDuration := Some 3600\<rparr>"
    using assms
    by (simp add: signed_request_def DetectPodIdentity_def memory_ops GetSignedRequestForWebIdentity_def Let_def
        RoleARNKey_def map_get_Cons call_def GetSignedRequestAndHandleRoleMaxSession_def load_config_def
        memory_sign set_max_session_def GetMaxSession_def memory_role AutoAuthType_def
        WebIdentityAuthType_def PodIdentityAuthType_def)
  then show ?thesis
    by (intro exI [of _ "sts_signed_request ''ASIA12345678'' (pf_Now memory (s_world s)) ''session'' [1, 2, 3]"]
        exI [of _ "s_calls (snd ?r)"]) (auto simp: is_sts_signed_def prod_eq_iff)
qed

lemma memory_token:
  assumes "td_Token (s_td s) = []" "sp_AuthType (sr_Spec (s_sr s)) = []" "m_env (s_world s) = []" "s_cache s = Some live_key"
    and "sp_RefreshInterval (sr_Spec (s_sr s)) = None" "td_ArtifactoryUrl (s_td s) = ''art.example''"
    and "\<not> sec_Enabled (sp_Security (sr_Spec (s_sr s)))"
  shows "\<exists>cs. HandlingToken memory s = (Ok (), default_account (s\<lparr>s_calls := cs, s_td := (s_td s)
    \<lparr>td_AuthType := WebIdentityAuthType, td_RoleMaxSessionDuration := Some 3600, td_TTLInSeconds := 3600,
     td_Username := ''user'', td_Token := ''tok''\<rparr>\<rparr>))"
proof -
  define acc where "acc = sp_ServiceAccount (sr_Spec (s_sr (default_account s)))"
  define s1 where "s1 = (default_account s)\<lparr>s_calls := s_calls (default_account s) @
    [GetServiceAccountCall (sad_Namespace acc) (sad_Name acc) (Ok \<lparr>sa_Meta = empty_meta\<lparr>om_Name := sad_Name acc, om_Namespace := sad_Namespace acc,
        om_Annotations := [(''eks.amazonaws.com/role-arn'', ''arn:aws:iam::1:role/r'')]\<rparr>\<rparr>)]\<rparr>"
  have p: "sp_AuthType (sr_Spec (s_sr s1)) = []" "m_env (s_world s1) = []" "s_cache s1 = Some live_key"
    using assms by (simp_all add: s1_def default_account_def Let_def)
  obtain req cs where r: "is_sts_signed req" and sg: "signed_request memory \<lparr>sa_Meta = empty_meta\<lparr>om_Name := sad_Name acc, om_Namespace := sad_Namespace acc,
        om_Annotations := [(''eks.amazonaws.com/role-arn'', ''arn:aws:iam::1:role/r'')]\<rparr>\<rparr> ''clientset'' s1 =
      (Ok req, s1\<lparr>s_calls := cs, s_td := (s_td s1)\<lparr>td_AuthType := WebIdentityAuthType, td_RoleMaxSessionDuration := Some 3600\<rparr>\<rparr>)"
    using memory_signed_request [OF p, where n = "sad_Name acc" and ns = "sad_Namespace acc"] by (elim exE conjE) (rule that)
  define s2 where "s2 = s1\<lparr>s_calls := cs, s_td := (s_td s1)\<lparr>td_AuthType := WebIdentityAuthType, td_RoleMaxSessionDuration := Some 3600,
      td_TTLInSeconds := 3600\<rparr>\<rparr>"
  have "td_ArtifactoryUrl (s_td s2) = ''art.example''" "\<not> sec_Enabled (sp_Security (sr_Spec (s_sr s2)))"
    "sp_RefreshInterval (sr_Spec (s_sr s2)) = None"
    using assms by (simp_all add: s2_def s1_def default_account_def Let_def)
  then obtain c where f: "finish_token memory req (s1\<lparr>s_calls := cs, s_td := (s_td s1)\<lparr>td_AuthType := WebIdentityAuthType, td_RoleMaxSessionDuration := Some 3600\<rparr>\<rparr>) =
      (Ok (), s2\<lparr>s_calls := cs @ [c], s_td := (s_td s2)\<lparr>td_Username := ''user'', td_Token := ''tok''\<rparr>\<rparr>)"
    using memory_artifactory [OF r, of "sp_Security (sr_Spec (s_sr s2))" 3600 "sr_name (s_sr s2)" s2]
    by (fastforce simp: finish_token_def ttl_warning_def s2_def Let_def)
  have "HandlingToken memory s = (Ok (), s2\<lparr>s_calls := cs @ [c], s_td := (s_td s2)\<lparr>td_Username := ''user'', td_Token := ''tok''\<rparr>\<rparr>)"
    using assms(1) sg f
    by (simp add: HandlingToken_def Let_def GetK8sClient_def memory_ops call_def acc_def [symmetric] s1_def [symmetric])
  then show ?thesis
    by (intro exI [of _ "cs @ [c]"]) (auto simp: s2_def s1_def default_account_def Let_def)
qed

lemmas live_defs = live_rotator_def live_state_def demo_defs

definition initialised :: "mem state \<Rightarrow> bool" where
  "initialised s \<longleftrightarrow> s_world s = s_world live_state \<and> s_cache s = Some live_key \<and> s_sr s = live_rotator \<and>
     s_td s = empty_TokenDetails\<lparr>td_NamespaceList := [demo_namespace ''ns''], td_GeneratedSecrets := sp_GeneratedSecrets (sr_Spec live_rotator),
       td_NamespaceSelector := ''app=demo'', td_ArtifactoryUrl := ''art.example'', td_IAMRoleAwsRegion := AwsRegion,
       td_DefaultServiceAccountName := ''jfrog-operator-sa''\<rparr>"

lemma live_initialise:
  "\<exists>s1 s2. get_rotator memory (''op'', ''rot'') (live_state\<lparr>s_td := empty_TokenDetails, s_sr := empty_SecretRotator\<rparr>) = (Ok (), s1) \<and>
     InitializeResource memory (''op'', ''rot'') s1 = (Ok (), s2) \<and> initialised s2"
  by (simp add: get_rotator_def call_def InitializeResource_def HandleConditions_def HandleFinalizers_def SecretRotatorChecker_def
      validate_and_certs_def ValidateObjectSpec_def spec_secrets_def GetServiceAccount_def GetK8sClient_def DetectPodIdentity_def
      with_defer_def DeferPatch_def mem_defs live_defs secret_types Let_def strip_scheme_def map_get_Cons AwsRoleARNKey_def
      initialised_def)

lemma live_manage:
  assumes "initialised s"
  shows "\<exists>s'. ManagingSecrets memory s = (Ok (), s') \<and> failed s' = {} \<and> sp_RefreshInterval (sr_Spec (s_sr s')) = None \<and>
    td_TTLInSeconds (s_td s') = 3600 \<and> list_ex is_write (s_calls s')"
proof -
  let ?ns = "demo_namespace ''ns''"
  define s1 where "s1 = upd_td (\<lambda>t. t\<lparr>td_FailedNamespaces := [], td_RequeueInterval := s_RequeueInterval s, td_SecretManagedByNamespaces := []\<rparr>) s"
  define s2 where "s2 = snd (GetSecret memory ''ns'' ''a'' s1)"
  have scan: "scan_secrets memory ''ns'' (sp_GeneratedSecrets (sr_Spec live_rotator)) [] [] s1 = (Ok ([], []), s2)"
    using assms by (simp add: s2_def s1_def initialised_def GetSecret_def call_def mem_defs live_defs IsSecretOwnedBy_def)
  obtain cs where tok: "HandlingToken memory s2 = (Ok (), default_account (s2\<lparr>s_calls := cs, s_td := (s_td s2)
    \<lparr>td_AuthType := WebIdentityAuthType, td_RoleMaxSessionDuration := Some 3600, td_TTLInSeconds := 3600,
     td_Username := ''user'', td_Token := ''tok''\<rparr>\<rparr>))"
    using memory_token [of s2] assms
    by (auto simp: s2_def s1_def initialised_def GetSecret_def call_def mem_defs live_defs)
  have "ManagingSecrets memory s = manage_namespaces memory [?ns] [] [] s1"
    using assms by (simp add: ManagingSecrets_def DeleteOutdatedSecrets_def getRemovedNamespaces_def initialised_def s1_def
      live_defs Let_def)
  moreover have "td_GeneratedSecrets (s_td s1) = sp_GeneratedSecrets (sr_Spec live_rotator)"
    using assms by (simp add: s1_def initialised_def)
  moreover have "ns_name ?ns = ''ns''" by (simp add: demo_namespace_def)
  ultimately show ?thesis
    using assms
    by (simp add: manage_namespace_def scan tok)
       (simp add: default_account_def s2_def s1_def initialised_def GetSecret_def finish_namespace_def report_failures_def CreateOrUpdateSecrets_def
        configure_secret_def write_secret_def call_def add_managed_def IsSecretOwnedBy_def mem_defs live_defs secret_types Let_def)
qed

lemma live_update:
  "\<exists>s'. UpdateStatus memory s = (Ok (), s') \<and> (\<exists>c. s_calls s' = s_calls s @ [c, EventfCall ''Normal'' ''Secret rotated successfully'' [] []]) \<and>
     sr_Spec (s_sr s') = sr_Spec (s_sr s) \<and> td_TTLInSeconds (s_td s') = td_TTLInSeconds (s_td s)"
  by (simp add: UpdateStatus_def Let_def set_condition_def status_update_def call_def record_call_def memory_ops mem_put_rotator_def)

text \<open>The whole cycle: it succeeds, has written a secret and comes back after three quarters of an hour.\<close>

lemma live_run:
  "\<exists>s'. Reconcile memory (''op'', ''rot'') live_state = (Ok (\<lparr>res_Requeue = False, res_RequeueAfter = 2700 * Second\<rparr>, None), s') \<and>
     last (s_calls s') = EventfCall ''Normal'' ''Secret rotated successfully'' [] [] \<and>
     list_ex is_write (s_calls s')"
proof -
  obtain s1 s2 where i: "get_rotator memory (''op'', ''rot'') (live_state\<lparr>s_td := empty_TokenDetails, s_sr := empty_SecretRotator\<rparr>) = (Ok (), s1)"
    "InitializeResource memory (''op'', ''rot'') s1 = (Ok (), s2)" "initialised s2" using live_initialise by blast
  obtain s3 where m: "ManagingSecrets memory s2 = (Ok (), s3)" "sp_RefreshInterval (sr_Spec (s_sr s3)) = None"
    "td_TTLInSeconds (s_td s3) = 3600" "list_ex is_write (s_calls s3)" using live_manage [OF i(3)] by blast
  obtain s4 c where u: "UpdateStatus memory s3 = (Ok (), s4)"
    "s_calls s4 = s_calls s3 @ [c, EventfCall ''Normal'' ''Secret rotated successfully'' [] []]"
    "sr_Spec (s_sr s4) = sr_Spec (s_sr s3)" "td_TTLInSeconds (s_td s4) = td_TTLInSeconds (s_td s3)" using live_update [of s3] by blast
  have "next_interval s4 = 2700 * Second"
    using m u three_quarters_exact [of 3600] by (simp add: next_interval_def Second_def)
  then show ?thesis using i m u by (auto simp: Reconcile_def)
qed

lemma demo_writes: "list_ex is_write (s_calls (snd (ManagingSecrets memory demo_state)))"
  by (simp add: ManagingSecrets_def DeleteOutdatedSecrets_def getRemovedNamespaces_def manage_namespace_def
      GetSecret_def HandlingToken_def finish_namespace_def report_failures_def CreateOrUpdateSecrets_def
      configure_secret_def write_secret_def call_def add_managed_def IsSecretOwnedBy_def mem_defs demo_defs secret_types Let_def)

text \<open>A run of one event in which a secret is written.\<close>

theorem run_writes_checked_witness:
  "guarded (writes_checked memory) live_state (handle_event memory (ReconcileRequest (''op'', ''rot'')) live_state) \<and>
   list_ex is_write (s_calls (handle_event memory (ReconcileRequest (''op'', ''rot'')) live_state))"
proof
  show "guarded (writes_checked memory) live_state (handle_event memory (ReconcileRequest (''op'', ''rot'')) live_state)"
    by (rule run_writes_checked [OF memory_names_law reachable.event [OF reachable.start]])
  show "list_ex is_write (s_calls (handle_event memory (ReconcileRequest (''op'', ''rot'')) live_state))"
    using live_run by (auto simp: handle_event_def)
qed

end
