(* ===== verification/Controller_Theorems.thy ===== *)
theory Controller_Theorems
  imports Operator_Demo
begin

text \<open>
  The theorems about the controller: the management loop, the status, the results of a reconciliation,
  the events of namespaces, and the histories of calls of whole runs of the operator.
\<close>

section \<open>The management loop\<close>

text \<open>when the management of the secrets ends without an error, every selected namespace is recorded as
  provisioned, every secret counted as managed is a configured one in a selected namespace, and every
  selected namespace has all its secrets managed or is reported as failed.\<close>

lemma namespaces_accounted:
  assumes "[] \<notin> ns_name ` set (td_NamespaceList (s_td s))"
  shows "case ManagingSecrets pf s of
     (Ok _, s') \<Rightarrow>
       td_ProvisionedNamespaces (s_td s') =
         td_ProvisionedNamespaces (s_td s) @ map ns_name (td_NamespaceList (s_td s)) \<and>
       (\<forall>x. managed s' x \<subseteq> (if x \<in> ns_name ` set (td_NamespaceList (s_td s)) then configured s else {})) \<and>
       (\<forall>n \<in> set (td_NamespaceList (s_td s)). configured s \<subseteq> managed s' (ns_name n) \<or> ns_name n \<in> failed s')
   | _ \<Rightarrow> True"
proof -
  have ns: "\<forall>n \<in> set (td_NamespaceList (s_td s)). ns_name n \<noteq> []" using assms by force
  obtain r s' where r: "ManagingSecrets pf s = (r, s')" by fastforce
  show ?thesis
  proof (cases r)
    case (Ok u)
    then have ok: "ManagingSecrets pf s = (Ok (), s')" using r by simp
    show ?thesis unfolding ok prod.case outcome.case by (rule ManagingSecrets_ok [OF ok ns])
  qed (simp_all add: r)
qed

text \<open>C3: a secret is created or updated only after a read in the same cycle, on the same name, that found
  it absent or controlled by this rotator.\<close>

theorem writes_absent_or_owned:
  assumes "names_law pf"
  shows "guarded (writes_seen pf (sr_name (s_sr s))) s (snd (ManagingSecrets pf s))"
  using ManagingSecrets_since [OF assms] by (simp add: since_guarded)

theorem writes_absent_or_owned_witness:
  "guarded (writes_seen memory ''rot'') demo_state (snd (ManagingSecrets memory demo_state)) \<and>
   list_ex is_write (s_calls (snd (ManagingSecrets memory demo_state)))"
  using writes_absent_or_owned [OF memory_names_law, of demo_state] demo_writes by (simp add: demo_defs)

section \<open>Status and errors\<close>

text \<open>C19: a successful status update has sent a status with the provisioned namespaces sorted, one entry per
  failed namespace, with the text of its error and sorted by namespace, the managed secrets and the flow
  that was used, all as the token details hold them, and ends with the event of a successful rotation; a
  failure asks for a retry in a minute.\<close>

theorem status_written:
  "case UpdateStatus pf s of
     (Ok _, s') \<Rightarrow> \<exists>r x. s_calls s' = s_calls s @ [StatusUpdateCall r (Ok x),
           EventfCall ''Normal'' ''Secret rotated successfully'' [] []] \<and> s_sr s' = x \<and>
         st_ProvisionedNamespaces (sr_Status r) = sort (td_ProvisionedNamespaces (s_td s)) \<and>
         sorted (map nf_Namespace (st_FailedNamespaces (sr_Status r))) \<and>
         mset (st_FailedNamespaces (sr_Status r)) =
           image_mset (\<lambda>(ns, e). \<lparr>nf_Namespace = ns, nf_Reason = Error e\<rparr>) (mset (td_FailedNamespaces (s_td s))) \<and>
         st_SecretManagedByNamespaces (sr_Status r) = td_SecretManagedByNamespaces (s_td s) \<and>
         st_AuthType (sr_Status r) = td_AuthType (s_td s) \<and> sr_Spec r = sr_Spec (s_sr s) \<and> sr_Meta r = sr_Meta (s_sr s)
   | (Err e, s') \<Rightarrow> \<exists>m c. e = ReconcileError Minute m c
   | (Panic p, s') \<Rightarrow> True"
  unfolding UpdateStatus_def status_update_def set_condition_def record_call_def call_def Let_def if_err_def
  by (auto simp: ToNamespaceFailures_def split: prod.split outcome.split)

text \<open>An error is classified by the first reconcile error in its chain: no retry when that has no
  retry time, a requeue after that time otherwise; an error without one is returned wrapped, with ten
  seconds; wrapping an error with \<open>%w\<close> changes nothing.\<close>

lemma error_classification:
  "handleError (ReconcileError t m c) = (\<lparr>res_Requeue = False, res_RequeueAfter = t\<rparr>, None) \<and>
   (as_ReconcileError e = None \<longleftrightarrow> snd (handleError e) \<noteq> None) \<and>
   (snd (handleError (FmtError m (Some e))) = None \<longleftrightarrow> snd (handleError e) = None) \<and>
   fst (handleError (FmtError m (Some e))) = fst (handleError e)"
  by (auto simp: handleError_def split: option.split)

section \<open>Results of a reconciliation\<close>

text \<open>C17: \<open>Reconcile\<close> never returns an error.  A missing resource ends it without a requeue, a failed read
  requeues after ten minutes, a failed stage after one second with an event that carries the error, and
  success after the interval recorded in the reconciler.\<close>

theorem reconcile_result:
  "case Reconcile pf req s of
     (Ok (res, err), s') \<Rightarrow> err = None \<and>
       (case last (s_calls s') of
          EventCall _ reason _ \<Rightarrow> reason = ''MissingResource'' \<and> res = \<lparr>res_Requeue = False, res_RequeueAfter = 0\<rparr>
        | GetRotatorCall k x \<Rightarrow> k = req \<and> \<not> is_Ok x \<and> res = \<lparr>res_Requeue = False, res_RequeueAfter = 10 * Minute\<rparr>
        | EventfCall kind reason _ args \<Rightarrow>
            kind = ''Warning'' \<and> length args = 1 \<and> res = \<lparr>res_Requeue = True, res_RequeueAfter = Second\<rparr> \<or>
            kind = ''Normal'' \<and> res = \<lparr>res_Requeue = False, res_RequeueAfter = next_interval s'\<rparr> \<and>
              s_RequeueInterval s' = res_RequeueAfter res
        | _ \<Rightarrow> False)
   | (Err e, s') \<Rightarrow> False
   | (Panic p, s') \<Rightarrow> True"
proof -
  have get: "s_calls s2 = s_calls s1 @ [GetRotatorCall req (Err e)]" if "get_rotator pf req s1 = (Err e, s2)" for e s1 s2
    using that by (auto simp: get_rotator_def call_def Let_def split: prod.splits if_err_split_asm)
  have upd: "last (s_calls s2) = EventfCall ''Normal'' ''Secret rotated successfully'' [] []"
    if "UpdateStatus pf s1 = (Ok u, s2)" for u s1 s2
    using that by (auto simp: UpdateStatus_def record_call_def Let_def split: if_err_split_asm)
  have ni: "next_interval (s1\<lparr>s_RequeueInterval := i\<rparr>) = next_interval s1" for i and s1 :: "'a state"
    by (simp add: next_interval_def cong: option.case_cong)
  show ?thesis
    unfolding Reconcile_def Let_def
    by (auto split: if_err_split simp: stage_failed_def record_call_def handleError_def get upd ni)
qed

text \<open>C18: without a configured interval, the next reconciliation comes after three quarters of the token's
  lifetime, exactly, in spite of the floating point arithmetic, for every lifetime a role can have; hence
  before the token expires.\<close>

theorem requeue_before_expiry:
  assumes "sp_RefreshInterval (sr_Spec (s_sr s)) = None" "0 < td_TTLInSeconds (s_td s)" "td_TTLInSeconds (s_td s) \<le> 43200"
  shows "4 * next_interval s = 3 * td_TTLInSeconds (s_td s) * Second \<and> 0 < next_interval s \<and>
    next_interval s < td_TTLInSeconds (s_td s) * Second"
proof -
  have "next_interval s = 750000000 * td_TTLInSeconds (s_td s)"
    using assms by (simp add: next_interval_def three_quarters_exact)
  then show ?thesis using assms(2) by (simp add: Second_def)
qed

theorem requeue_before_expiry_witness:
  "next_interval (demo_state\<lparr>s_td := demo_td\<lparr>td_TTLInSeconds := 10800\<rparr>\<rparr>) = 8100 * Second"
  using requeue_before_expiry [of "demo_state\<lparr>s_td := demo_td\<lparr>td_TTLInSeconds := 10800\<rparr>\<rparr>"]
  by (simp add: demo_defs)

section \<open>Namespace events\<close>

text \<open>The one change an event makes to a rotator: a new random annotation \<open>uid\<close>.\<close>

definition uid_changed :: "SecretRotator \<Rightarrow> api_call \<Rightarrow> bool" where
  "uid_changed r c \<longleftrightarrow> (\<exists>uid x. length uid = 10 \<and> set uid \<subseteq> set ''abcdefghijklmnopqrstuvwxyz'' \<and>
     c = UpdateRotatorCall (r\<lparr>sr_Meta := (sr_Meta r)\<lparr>om_Annotations := AList.update ''uid'' uid (om_Annotations (sr_Meta r))\<rparr>\<rparr>) x)"

lemma GetRandomString_letters:
  "length (GetRandomString pf s) = 10 \<and> set (GetRandomString pf s) \<subseteq> set ''abcdefghijklmnopqrstuvwxyz''"
proof -
  have "''abcdefghijklmnopqrstuvwxyz'' ! (k mod 26) \<in> set ''abcdefghijklmnopqrstuvwxyz''" for k
    by (intro nth_mem) simp
  then show ?thesis unfolding GetRandomString_def Let_def by (auto simp del: set_simps)
qed

text \<open>
  What an update answered, as the filter sees it, and the loop over the affected rotators: they are touched in
  order up to the first update that is not answered well, which decides the result.
\<close>

fun answer :: "api_call \<Rightarrow> bool outcome" where
  "answer (UpdateRotatorCall _ (Ok _)) = Ok True"
| "answer (UpdateRotatorCall _ (Panic p)) = Panic p"
| "answer _ = Ok False"

definition touched :: "SecretRotator list \<Rightarrow> api_call list \<Rightarrow> bool outcome \<Rightarrow> bool" where
  "touched affected cs r \<longleftrightarrow> list_all2 uid_changed (take (length cs) affected) cs \<and>
     (\<forall>c \<in> set (butlast cs). answer c = Ok True) \<and>
     (if cs = [] then affected = [] \<and> r = Ok True
      else r = answer (last cs) \<and> (r = Ok True \<longrightarrow> length cs = length affected))"

lemma touched_simps:
  "touched [] [] r \<longleftrightarrow> r = Ok True"
  "uid_changed i c \<Longrightarrow> answer c \<noteq> Ok True \<Longrightarrow> touched (i # is) [c] (answer c)"
  "uid_changed i c \<Longrightarrow> answer c = Ok True \<Longrightarrow> touched is cs r \<Longrightarrow> touched (i # is) (c # cs) r"
  by (auto simp: touched_def)

lemma HandlingNamespaceEvents_call:
  "HandlingNamespaceEvents pf r s = (b, s') \<Longrightarrow> \<exists>c. uid_changed r c \<and> s_calls s' = s_calls s @ [c] \<and> b = answer c"
  using GetRandomString_letters [of pf s] unfolding HandlingNamespaceEvents_def Let_def uid_changed_def
  by (auto simp: call_def Let_def split: prod.splits if_err_split_asm)

lemma touch_rotators_calls:
  "touch_rotators pf m items s = (r, s') \<Longrightarrow> \<exists>cs. s_calls s' = s_calls s @ cs \<and> touched (filter m items) cs r"
proof (induction items arbitrary: s)
  case Nil
  then show ?case by (intro exI [of _ "[]"]) (simp add: touched_simps)
next
  case (Cons i items)
  show ?case
  proof (cases "m i")
    case False
    then show ?thesis using Cons by simp
  next
    case True
    obtain b s1 where h: "HandlingNamespaceEvents pf i s = (b, s1)" by fastforce
    obtain c where c: "uid_changed i c" "s_calls s1 = s_calls s @ [c]" "b = answer c"
      using HandlingNamespaceEvents_call [OF h] by blast
    show ?thesis
    proof (cases "b = Ok True")
      case False
      then have stop: "s' = s1 \<and> r = b"
        using Cons.prems h True by (cases b) (auto split: if_splits)
      have "touched (i # filter m items) [c] (answer c)" using c(1,3) False by (intro touched_simps(2)) simp_all
      then show ?thesis using c True stop by (intro exI [of _ "[c]"]) simp
    next
      case ok: True
      then have "touch_rotators pf m items s1 = (r, s')" using Cons.prems h True by simp
      from Cons.IH [OF this] obtain cs where "s_calls s' = s_calls s1 @ cs" "touched (filter m items) cs r" by blast
      then show ?thesis using c True ok touched_simps(3) [OF c(1)] by (intro exI [of _ "c # cs"]) simp
    qed
  qed
qed

text \<open>The listing before it: an error counts as an empty list, a panic ends the filter.\<close>

definition touched_of_listed :: "(SecretRotator \<Rightarrow> bool) \<Rightarrow> SecretRotator list outcome \<Rightarrow> api_call list \<Rightarrow> bool outcome \<Rightarrow> bool" where
  "touched_of_listed m x cs r \<longleftrightarrow>
     (case x of Ok items \<Rightarrow> touched (filter m items) cs r | Err _ \<Rightarrow> cs = [] \<and> r = Ok True | Panic p \<Rightarrow> cs = [] \<and> r = Panic p)"

lemma listed_touch:
  assumes "if_err (ListSecretRotatorObjects pf s) ret_err (\<lambda>items s. touch_rotators pf (m (s_world s)) items s) = (r, s')"
  shows "\<exists>x cs. s_calls s' = s_calls s @ ListRotatorsCall x # cs \<and>
    touched_of_listed (m (snd (pf_ListRotators pf (s_world s)))) x cs r"
proof -
  obtain x w where x: "pf_ListRotators pf (s_world s) = (x, w)" by fastforce
  define s1 where "s1 = s\<lparr>s_world := w, s_calls := s_calls s @ [ListRotatorsCall x]\<rparr>"
  have c: "call (pf_ListRotators pf) ListRotatorsCall s = (x, s1)" "s_world s1 = w"
    by (simp_all add: call_def x s1_def)
  show ?thesis
  proof (cases x)
    case (Ok items)
    then have "touch_rotators pf (m w) items s1 = (r, s')"
      using assms c by (simp add: ListSecretRotatorObjects_def)
    from touch_rotators_calls [OF this] show ?thesis
      using Ok x by (auto simp: s1_def touched_of_listed_def intro!: exI [of _ x])
  next
    case (Err e)
    then have "s' = s1" "r = Ok True" using assms c by (simp_all add: ListSecretRotatorObjects_def)
    then show ?thesis using Err by (intro exI [of _ x] exI [of _ "[]"]) (simp add: s1_def touched_of_listed_def)
  next
    case (Panic p)
    then have "s' = s1" "r = Panic p" using assms c by (simp_all add: ListSecretRotatorObjects_def)
    then show ?thesis using Panic by (intro exI [of _ x] exI [of _ "[]"]) (simp add: s1_def touched_of_listed_def)
  qed
qed

text \<open>C35: when the labels of a namespace change, the operator lists the rotators and gives a new \<open>uid\<close>
  annotation to those whose match labels the label test of the filter (\<open>IsExist\<close>) finds in the old or the new
  labels, to no others and in the order of the list, up to the first update that fails.  The result is
  whether all of them were updated.  An unchanged namespace or another object causes no call.\<close>

theorem namespace_update_event:
  "case UpdateFunc pf obj metaNew s of (r, s') \<Rightarrow>
     (case obj of
        NamespaceObject n \<Rightarrow>
          if set (om_Labels (ns_Meta n)) = set (om_Labels metaNew) then r = Ok True \<and> s' = s
          else \<exists>x cs. s_calls s' = s_calls s @ ListRotatorsCall x # cs \<and>
            touched_of_listed (\<lambda>r. IsExist (om_Labels metaNew) (selector_labels r) \<or>
                IsExist (om_Labels (ns_Meta n)) (selector_labels r)) x cs r
      | OtherObject m \<Rightarrow> r = Ok True \<and> s' = s)"
proof (cases obj)
  case (NamespaceObject n)
  show ?thesis
    using listed_touch [of pf s "\<lambda>_ r. IsExist (om_Labels metaNew) (selector_labels r) \<or>
        IsExist (om_Labels (ns_Meta n)) (selector_labels r)"]
    unfolding UpdateFunc_def NamespaceObject event_object.case by (simp split: prod.split)
qed (simp add: UpdateFunc_def)

text \<open>C36: when a namespace is created, the rotators touched, in order and up to the first update that fails,
  are those whose match labels the label test (\<open>IsExist\<close>) finds in its labels, if the namespace is less than
  20 seconds old, and none otherwise; the result is whether all of them were updated.\<close>

theorem namespace_create_event:
  "case CreateFunc pf obj s of (r, s') \<Rightarrow>
     (case obj of
        NamespaceObject n \<Rightarrow>
          \<exists>x cs. s_calls s' = s_calls s @ ListRotatorsCall x # cs \<and>
            (let age = pf_Since pf (om_CreationTimestamp (ns_Meta n)) (snd (pf_ListRotators pf (s_world s)))
             in touched_of_listed (\<lambda>r. IsExist (om_Labels (ns_Meta n)) (selector_labels r) \<and>
                  truncate_rat \<bar>Duration_Seconds age\<bar> < 20) x cs r)
      | OtherObject m \<Rightarrow> r = Ok True \<and> s' = s)"
proof (cases obj)
  case (NamespaceObject n)
  show ?thesis
    using listed_touch [of pf s "\<lambda>w r. IsExist (om_Labels (ns_Meta n)) (selector_labels r) \<and>
        truncate_rat \<bar>Duration_Seconds (pf_Since pf (om_CreationTimestamp (ns_Meta n)) w)\<bar> < 20"]
    unfolding CreateFunc_def NamespaceObject event_object.case Let_def by (simp split: prod.split)
qed (simp add: CreateFunc_def)

section \<open>Deletion of a resource\<close>

lemma rotator_calls:
  "status_update pf s = (Ok u, s') \<Longrightarrow> s_calls s' = s_calls s @ [StatusUpdateCall (s_sr s) (Ok (s_sr s'))]"
  "get_rotator pf req s = (Ok u, s') \<Longrightarrow> s_calls s' = s_calls s @ [GetRotatorCall req (Ok (s_sr s'))]"
  "update_rotator pf s = (Ok u, s') \<Longrightarrow> s_calls s' = s_calls s @ [UpdateRotatorCall (s_sr s) (Ok (s_sr s'))]"
  by (auto simp: status_update_def get_rotator_def update_rotator_def call_def Let_def split: prod.splits if_err_split_asm)

text \<open>A resource with nothing changed but the conditions of its status.\<close>

definition conditions_changed :: "SecretRotator \<Rightarrow> SecretRotator \<Rightarrow> bool" where
  "conditions_changed r r' \<longleftrightarrow> (\<exists>cs. r' = r\<lparr>sr_Status := (sr_Status r)\<lparr>st_Conditions := cs\<rparr>\<rparr>)"

lemma set_condition_changed: "conditions_changed (s_sr s) (s_sr (set_condition pf t a b c s))"
  "s_calls (set_condition pf t a b c s) = s_calls s"
  by (auto simp: set_condition_def conditions_changed_def)

lemma SecretRotatorChecker_ok:
  assumes ok: "SecretRotatorChecker pf req s = (Ok u, s')"
    and marked: "om_DeletionTimestamp (sr_Meta (s_sr s)) \<noteq> None" "pf_ContainsFinalizer pf (s_sr s) SecretRotatorFinalizer"
  shows "\<exists>degraded x msg y finalized z. conditions_changed (s_sr s) degraded \<and> conditions_changed y finalized \<and>
    fst (pf_RemoveFinalizer pf z SecretRotatorFinalizer) \<and>
    s_calls s' = s_calls s @ [StatusUpdateCall degraded (Ok x), EventCall ''Warning'' ''Deleting'' msg, GetRotatorCall req (Ok y),
      StatusUpdateCall finalized (Ok z),
      UpdateRotatorCall (snd (pf_RemoveFinalizer pf z SecretRotatorFinalizer)) (Ok (s_sr s'))]"
proof -
  define a where "a = set_condition pf TypeDegradedSecretRotator ''Unknown'' ''Finalizing''
    (''Performing finalizer operations for the custom resource: '' @ sr_name (s_sr s) @ '' '') s"
  obtain s1 s2 b s3 where
    1: "status_update pf a = (Ok (), s1)" and
    2: "get_rotator pf req (DoFinalizerOperationsForSecretRotator s1) = (Ok (), s2)" and
    b: "b = set_condition pf TypeDegradedSecretRotator ''True'' ''Finalizing''
        (''Finalizer operations for custom resource '' @ sr_name (s_sr s2) @ '' name were successfully accomplished'') s2" and
    3: "status_update pf b = (Ok (), s3)" and
    4: "fst (pf_RemoveFinalizer pf (s_sr s3) SecretRotatorFinalizer)"
       "update_rotator pf (s3\<lparr>s_sr := snd (pf_RemoveFinalizer pf (s_sr s3) SecretRotatorFinalizer)\<rparr>) = (Ok (), s')"
    using ok marked unfolding SecretRotatorChecker_def Let_def case_prod_beta a_def
    by (auto split: if_err_split_asm if_splits)
  note steps = rotator_calls(1) [OF 1] rotator_calls(2) [OF 2] rotator_calls(1) [OF 3] rotator_calls(3) [OF 4(2)]
  note changed = set_condition_changed(1) [of s pf, folded a_def] set_condition_changed(1) [of s2 pf]
  have "s_calls a = s_calls s" "s_calls b = s_calls s2" unfolding a_def b by (rule set_condition_changed)+
  with steps have "s_calls s' = s_calls s @ [StatusUpdateCall (s_sr a) (Ok (s_sr s1)),
      EventCall ''Warning'' ''Deleting'' (''Custom Resource '' @ sr_name (s_sr s1) @ '' is being deleted from the namespace '' @
        om_Namespace (sr_Meta (s_sr s1))), GetRotatorCall req (Ok (s_sr s2)), StatusUpdateCall (s_sr b) (Ok (s_sr s3)),
      UpdateRotatorCall (snd (pf_RemoveFinalizer pf (s_sr s3) SecretRotatorFinalizer)) (Ok (s_sr s'))]"
    by (simp add: DoFinalizerOperationsForSecretRotator_def record_call_def)
  moreover have "conditions_changed (s_sr s) (s_sr a)" "conditions_changed (s_sr s2) (s_sr b)"
    unfolding a_def b by (rule set_condition_changed)+
  ultimately show ?thesis using 4(1) by blast
qed

lemma SecretRotatorChecker_err: "SecretRotatorChecker pf req s = (Err e, s') \<Longrightarrow> \<exists>m c. e = ReconcileError 0 m c"
  unfolding SecretRotatorChecker_def Let_def case_prod_beta by (auto split: if_err_split_asm if_splits)

text \<open>C37: the deletion check does nothing to a resource that is not being deleted or has no finalizer.
  Otherwise, when it succeeds, it has written the status of the resource, announced the deletion, read the
  resource a second time, written the status of what it read, and stored what the API server answered to
  that with the finalizer removed; in the two statuses nothing but the conditions is changed.  Every failure
  ends the reconciliation without a retry time.\<close>

theorem finalizer_removed:
  "case SecretRotatorChecker pf req s of (r, s') \<Rightarrow>
     if om_DeletionTimestamp (sr_Meta (s_sr s)) = None \<or> \<not> pf_ContainsFinalizer pf (s_sr s) SecretRotatorFinalizer
     then r = Ok () \<and> s' = s
     else (case r of
        Ok _ \<Rightarrow> \<exists>degraded x msg y finalized z. conditions_changed (s_sr s) degraded \<and> conditions_changed y finalized \<and>
          fst (pf_RemoveFinalizer pf z SecretRotatorFinalizer) \<and>
          s_calls s' = s_calls s @ [StatusUpdateCall degraded (Ok x), EventCall ''Warning'' ''Deleting'' msg, GetRotatorCall req (Ok y),
            StatusUpdateCall finalized (Ok z),
            UpdateRotatorCall (snd (pf_RemoveFinalizer pf z SecretRotatorFinalizer)) (Ok (s_sr s'))]
      | Err e \<Rightarrow> \<exists>m c. e = ReconcileError 0 m c
      | Panic p \<Rightarrow> True)"
proof -
  obtain r s' where c: "SecretRotatorChecker pf req s = (r, s')" by fastforce
  show ?thesis
  proof (cases "om_DeletionTimestamp (sr_Meta (s_sr s)) = None \<or> \<not> pf_ContainsFinalizer pf (s_sr s) SecretRotatorFinalizer")
    case True
    then show ?thesis by (auto simp: SecretRotatorChecker_def)
  next
    case False
    then have marked: "om_DeletionTimestamp (sr_Meta (s_sr s)) \<noteq> None" "pf_ContainsFinalizer pf (s_sr s) SecretRotatorFinalizer"
      by simp_all
    show ?thesis
    proof (cases r)
      case (Ok u)
      show ?thesis
        unfolding c Ok prod.case outcome.case if_not_P [OF False]
        by (rule SecretRotatorChecker_ok [OF c [unfolded Ok] marked])
    qed (use c marked in \<open>auto dest: SecretRotatorChecker_err\<close>)
  qed
qed

section \<open>A resource being deleted\<close>

text \<open>A resource that is being deleted, with everything else in order.\<close>

definition deleted_rotator :: SecretRotator where
  "deleted_rotator = demo_rotator
     \<lparr>sr_Meta := (demo_meta ''rot'')\<lparr>om_Namespace := ''op'', om_DeletionTimestamp := Some 1, om_Finalizers := [SecretRotatorFinalizer]\<rparr>,
      sr_Spec := (sr_Spec demo_rotator)\<lparr>sp_SecretName := ''a'', sp_ArtifactoryUrl := ''art.example''\<rparr>,
      sr_Status := (sr_Status demo_rotator)\<lparr>st_Conditions := [\<lparr>cd_Type = TypeAvailableSecretRotator, cd_Status = ''True'',
        cd_Reason = ''Reconciling'', cd_Message = [], cd_LastTransitionTime = 0\<rparr>]\<rparr>\<rparr>"

definition deletion_state :: "mem state" where
  "deletion_state = fresh (demo_world\<lparr>m_rotators := [((''op'', ''rot''), deleted_rotator)]\<rparr>) empty_TokenDetails deleted_rotator"

text \<open>What stays when the cluster in memory stores a resource.\<close>

definition mem_same :: "mem state \<Rightarrow> mem state \<Rightarrow> bool" where
  "mem_same s s' \<longleftrightarrow> sr_Spec (s_sr s') = sr_Spec (s_sr s) \<and> om_Namespace (sr_Meta (s_sr s')) = om_Namespace (sr_Meta (s_sr s)) \<and>
     sr_name (s_sr s') = sr_name (s_sr s) \<and> s_td s' = s_td s \<and>
     m_namespaces (s_world s') = m_namespaces (s_world s) \<and> m_env (s_world s') = m_env (s_world s)"

abbreviation rotator_key :: "SecretRotator \<Rightarrow> string \<times> string" where
  "rotator_key r \<equiv> (om_Namespace (sr_Meta r), sr_name r)"

lemma memory_status_update:
  "\<exists>s'. status_update memory s = (Ok (), s') \<and> mem_same s s' \<and> s_sr s' = s_sr s \<and>
     map_of (m_rotators (s_world s')) (rotator_key (s_sr s)) = Some (s_sr s)"
  by (simp add: status_update_def call_def memory_ops mem_put_rotator_def mem_same_def update_conv')

lemma memory_update_rotator: "\<exists>s'. update_rotator memory s = (Ok (), s') \<and> mem_same s s'"
  by (simp add: update_rotator_def call_def memory_ops mem_put_rotator_def mem_same_def)

lemma memory_get_rotator:
  "map_of (m_rotators (s_world s)) req = Some r \<Longrightarrow>
   \<exists>s'. get_rotator memory req s = (Ok (), s') \<and> s_world s' = s_world s \<and> s_td s' = s_td s \<and> s_sr s' = r"
  by (simp add: get_rotator_def call_def memory_ops mem_get_rotator_def)

lemma set_condition_same:
  "mem_same s (set_condition memory t a b c s)" "sr_Meta (s_sr (set_condition memory t a b c s)) = sr_Meta (s_sr s)"
  by (simp_all add: set_condition_def mem_same_def)

lemma memory_checker:
  assumes "om_DeletionTimestamp (sr_Meta (s_sr s)) \<noteq> None" "pf_ContainsFinalizer memory (s_sr s) SecretRotatorFinalizer"
  shows "\<exists>s'. SecretRotatorChecker memory (rotator_key (s_sr s)) s = (Ok (), s') \<and> mem_same s s'"
proof -
  let ?req = "rotator_key (s_sr s)"
  define a where "a = set_condition memory TypeDegradedSecretRotator ''Unknown'' ''Finalizing''
    (''Performing finalizer operations for the custom resource: '' @ sr_name (s_sr s) @ '' '') s"
  have a: "mem_same s a" "sr_Meta (s_sr a) = sr_Meta (s_sr s)" unfolding a_def by (rule set_condition_same)+
  obtain b where b: "status_update memory a = (Ok (), b)" "mem_same a b" "s_sr b = s_sr a"
    "map_of (m_rotators (s_world b)) (rotator_key (s_sr a)) = Some (s_sr a)" using memory_status_update by blast
  have "map_of (m_rotators (s_world (DoFinalizerOperationsForSecretRotator b))) ?req = Some (s_sr a)"
    using b(4) a by (simp add: DoFinalizerOperationsForSecretRotator_def record_call_def)
  then obtain d where d: "get_rotator memory ?req (DoFinalizerOperationsForSecretRotator b) = (Ok (), d)" "s_sr d = s_sr a"
    "mem_same b d"
    using memory_get_rotator [of "DoFinalizerOperationsForSecretRotator b" ?req "s_sr a"] b(3)
    by (auto simp: DoFinalizerOperationsForSecretRotator_def record_call_def mem_same_def)
  define e where "e = set_condition memory TypeDegradedSecretRotator ''True'' ''Finalizing''
    (''Finalizer operations for custom resource '' @ sr_name (s_sr d) @ '' name were successfully accomplished'') d"
  have e: "mem_same d e" "sr_Meta (s_sr e) = sr_Meta (s_sr d)" unfolding e_def by (rule set_condition_same)+
  obtain f where f: "status_update memory e = (Ok (), f)" "mem_same e f" "s_sr f = s_sr e" using memory_status_update by blast
  have fin: "SecretRotatorFinalizer \<in> set (om_Finalizers (sr_Meta (s_sr f)))"
    using assms(2) a e d f by (simp add: memory_ops)
  define g where "g = f\<lparr>s_sr := snd (pf_RemoveFinalizer memory (s_sr f) SecretRotatorFinalizer)\<rparr>"
  obtain h where h: "update_rotator memory g = (Ok (), h)" "mem_same g h" using memory_update_rotator by blast
  have "mem_same f g" by (simp add: g_def mem_same_def memory_ops with_finalizers_def)
  then have "mem_same s h" using a b d e f h by (simp add: mem_same_def)
  moreover have "SecretRotatorChecker memory ?req s = (Ok (), h)"
    using assms fin h(1) unfolding SecretRotatorChecker_def Let_def a_def [symmetric] b(1) if_err_simps d(1) e_def [symmetric] f(1) g_def
    by (simp add: memory_ops)
  ultimately show ?thesis by blast
qed

lemma memory_validate:
  assumes "validate_secrets [] (spec_secrets (sr_Spec (s_sr s))) = None" "spec_secrets (sr_Spec (s_sr s)) \<noteq> []"
    and "\<exists>n \<in> set (m_namespaces (s_world s)). ns_name n \<noteq> []" "sp_ArtifactoryUrl (sr_Spec (s_sr s)) \<noteq> []"
    and "\<not> sec_Enabled (sp_Security (sr_Spec (s_sr s)))"
  shows "fst (validate_and_certs memory s) = Ok ()"
  using assms
  by (simp add: validate_and_certs_def ValidateObjectSpec_def GetServiceAccount_def GetK8sClient_def call_def memory_ops
      map_get_Cons AwsRoleARNKey_def Let_def filter_empty_conv)

lemma deletion_marked:
  "st_Conditions (sr_Status (s_sr deletion_state)) \<noteq> []" "om_DeletionTimestamp (sr_Meta (s_sr deletion_state)) \<noteq> None"
  "pf_ContainsFinalizer memory (s_sr deletion_state) SecretRotatorFinalizer"
  "rotator_key (s_sr deletion_state) = (''op'', ''rot'')"
  by (simp_all add: deletion_state_def fresh_def deleted_rotator_def demo_meta_def memory_ops)

lemma deletion_goes_on: "fst (InitializeResource memory (''op'', ''rot'') deletion_state) = Ok ()"
proof -
  obtain s where c: "SecretRotatorChecker memory (''op'', ''rot'') deletion_state = (Ok (), s)" "mem_same deletion_state s"
    using memory_checker [OF deletion_marked(2,3)] deletion_marked(4) by auto
  have "sr_Spec (s_sr s) = sr_Spec deleted_rotator" "m_namespaces (s_world s) = [demo_namespace ''ns'']"
    using c(2) by (simp_all add: mem_same_def deletion_state_def fresh_def demo_world_def)
  then have "fst (validate_and_certs memory s) = Ok ()"
    by (intro memory_validate) (simp_all add: deleted_rotator_def spec_secrets_def secret_types demo_namespace_def
        demo_rotator_def empty_SecretRotator_def)
  then show ?thesis
    using deletion_marked(1,3) unfolding InitializeResource_def HandleConditions_def HandleFinalizers_def
    by (simp add: c(1)) (simp add: with_defer_def DeferPatch_def call_def memory_ops mem_put_rotator_def)
qed

lemma validate_and_certs_lists:
  assumes "validate_and_certs pf s = (Ok u, s')"
  shows "\<exists>later sel nss. s_calls s' = s_calls s @ later \<and> ListNamespacesCall sel (Ok nss) \<in> set later"
proof -
  obtain s1 where v: "ValidateObjectSpec pf s = (Ok (), s1)"
    using assms unfolding validate_and_certs_def Let_def by (auto split: if_err_split_asm)
  from ValidateObjectSpec_details [OF v] obtain sel nss where
    l: "ListNamespacesCall sel (Ok nss) \<in> set (drop (length (s_calls s)) (s_calls s1))" by blast
  have "guarded (\<lambda>_ _. True) s s1" "guarded (\<lambda>_ _. True) s1 s'"
  proof -
    show "guarded (\<lambda>_ _. True) s s1"
      using wc_Validate [of pf s] v guarded_mono by fastforce
    have "s' = s1 \<or> (\<exists>ns n rot. s' = snd (HandleCerts pf ns n rot s1))"
      using assms v unfolding validate_and_certs_def Let_def by (auto split: if_err_split_asm if_splits) (metis snd_conv)+
    then show "guarded (\<lambda>_ _. True) s1 s'"
      using guarded_mono [OF HandleCerts_guarded] by (metis guarded_refl)
  qed
  then obtain cs ds where "s_calls s1 = s_calls s @ cs" "s_calls s' = s_calls s1 @ ds" unfolding guarded_def by blast
  with l show ?thesis by (intro exI [of _ "cs @ ds"] exI [of _ sel] exI [of _ nss]) simp
qed

text \<open>C40: after the finalizer of a resource that is being deleted has been removed, the initialisation goes
  on: when it succeeds, it has listed the namespaces for the resource after the removal, and the cycle
  goes on to manage its secrets.\<close>

theorem deleted_resource_goes_on:
  assumes "st_Conditions (sr_Status (s_sr s)) \<noteq> []" "om_DeletionTimestamp (sr_Meta (s_sr s)) \<noteq> None"
    and "pf_ContainsFinalizer pf (s_sr s) SecretRotatorFinalizer"
  shows "case InitializeResource pf req s of
     (Ok _, s') \<Rightarrow> \<exists>past rot x later sel nss. s_calls s' = past @ UpdateRotatorCall (snd (pf_RemoveFinalizer pf rot SecretRotatorFinalizer)) (Ok x) # later \<and>
        ListNamespacesCall sel (Ok nss) \<in> set later
   | _ \<Rightarrow> True"
proof -
  have "\<exists>past rot x later sel nss. s_calls s' = past @ UpdateRotatorCall (snd (pf_RemoveFinalizer pf rot SecretRotatorFinalizer)) (Ok x) # later \<and>
        ListNamespacesCall sel (Ok nss) \<in> set later" if ini: "InitializeResource pf req s = (Ok u, s')" for u s'
  proof -
    obtain s1 where chk: "SecretRotatorChecker pf req s = (Ok (), s1)"
      and d: "with_defer (validate_and_certs pf s1) (DeferPatch pf (s_sr s1)) = (Ok u, s')"
      using ini assms unfolding InitializeResource_def HandleConditions_def HandleFinalizers_def
      by (auto split: if_err_split_asm)
    obtain s2 where v: "validate_and_certs pf s1 = (Ok u, s2)" and p: "s' = snd (DeferPatch pf (s_sr s1) s2)"
      using with_defer_Ok [OF d] by blast
    have "\<exists>ds. s_calls s' = s_calls s2 @ ds"
      unfolding p DeferPatch_def call_def Let_def by (auto split: prod.split if_err_split)
    with validate_and_certs_lists [OF v]
    have "\<exists>later sel nss. s_calls s' = s_calls s1 @ later \<and> ListNamespacesCall sel (Ok nss) \<in> set later" by fastforce
    then obtain later sel nss where
      l: "s_calls s' = s_calls s1 @ later" "ListNamespacesCall sel (Ok nss) \<in> set later" by blast
    from SecretRotatorChecker_ok [OF chk assms(2,3)] obtain past rot x where
      "s_calls s1 = past @ [UpdateRotatorCall (snd (pf_RemoveFinalizer pf rot SecretRotatorFinalizer)) (Ok x)]"
      by (metis append_Cons append_Nil append_assoc)
    with l show ?thesis by (intro exI [of _ past] exI [of _ rot] exI [of _ x] exI [of _ later] exI [of _ sel] exI [of _ nss]) simp
  qed
  then show ?thesis by (auto split: prod.split outcome.split)
qed

theorem deleted_resource_goes_on_witness:
  "\<exists>past rot x later sel nss. fst (InitializeResource memory (''op'', ''rot'') deletion_state) = Ok () \<and>
     s_calls (snd (InitializeResource memory (''op'', ''rot'') deletion_state)) =
       past @ UpdateRotatorCall (snd (pf_RemoveFinalizer memory rot SecretRotatorFinalizer)) (Ok x) # later \<and>
     ListNamespacesCall sel (Ok nss) \<in> set later"
  using deleted_resource_goes_on [OF deletion_marked(1-3), of "(''op'', ''rot'')"] deletion_goes_on
  by (cases "InitializeResource memory (''op'', ''rot'') deletion_state") simp

text \<open>The deletion check on the same resource.\<close>

theorem finalizer_removed_witness:
  "fst (SecretRotatorChecker memory (''op'', ''rot'') deletion_state) = Ok () \<and>
   (\<exists>cs z x. s_calls (snd (SecretRotatorChecker memory (''op'', ''rot'') deletion_state)) =
      cs @ [UpdateRotatorCall (snd (pf_RemoveFinalizer memory z SecretRotatorFinalizer)) (Ok x)])"
proof -
  obtain s' where ok: "SecretRotatorChecker memory (''op'', ''rot'') deletion_state = (Ok (), s')"
    using memory_checker [OF deletion_marked(2,3)] deletion_marked(4) by auto
  from finalizer_removed [where pf = memory and req = "(''op'', ''rot'')" and s = deletion_state] deletion_marked(2,3)
  obtain cs z x where "s_calls s' = cs @ [UpdateRotatorCall (snd (pf_RemoveFinalizer memory z SecretRotatorFinalizer)) (Ok x)]"
    unfolding ok by (auto simp: deletion_state_def fresh_def)
  with ok show ?thesis by auto
qed

text \<open>A namespace whose labels change, and one that has just been created.\<close>

definition labelled :: "string \<Rightarrow> Namespace" where
  "labelled v = \<lparr>ns_Meta = empty_meta\<lparr>om_Name := ''ns'', om_Labels := [(''env'', v)]\<rparr>\<rparr>"

definition selecting :: "string \<Rightarrow> SecretRotator" where
  "selecting v = demo_rotator\<lparr>sr_Spec := (sr_Spec demo_rotator)
     \<lparr>sp_NamespaceSelector := \<lparr>ls_MatchLabels = [(''env'', v)], ls_MatchExpressions = []\<rparr>\<rparr>\<rparr>"

definition watching :: "mem state" where
  "watching = fresh (demo_world\<lparr>m_rotators := [((''op'', ''r1''), selecting ''prod''), ((''op'', ''r2''), selecting ''test'')]\<rparr>)
     empty_TokenDetails empty_SecretRotator"

lemma memory_touch: "\<exists>s' cs. touch_rotators memory P items s = (Ok True, s') \<and> s_calls s' = s_calls s @ cs"
proof (induction items arbitrary: s)
  case (Cons r items)
  obtain s1 c where h: "HandlingNamespaceEvents memory r s = (Ok True, s1)" "s_calls s1 = s_calls s @ [c]"
    by (simp add: HandlingNamespaceEvents_def call_def memory_ops mem_put_rotator_def Let_def)
  show ?case using Cons.IH [of s] Cons.IH [of s1] h by auto
qed simp

lemma watching_events:
  "\<exists>cs s'. UpdateFunc memory (NamespaceObject (labelled ''dev'')) (ns_Meta (labelled ''prod'')) watching = (Ok True, s') \<and>
     s_calls s' = ListRotatorsCall (Ok [selecting ''prod'', selecting ''test'']) # cs"
  "\<exists>cs s'. CreateFunc memory (NamespaceObject (labelled ''prod'')) watching = (Ok True, s') \<and>
     s_calls s' = ListRotatorsCall (Ok [selecting ''prod'', selecting ''test'']) # cs"
proof -
  obtain s where l: "ListSecretRotatorObjects memory watching = (Ok [selecting ''prod'', selecting ''test''], s)"
    "s_calls s = [ListRotatorsCall (Ok [selecting ''prod'', selecting ''test''])]"
    by (simp add: ListSecretRotatorObjects_def call_def memory_ops watching_def fresh_def)
  have touched: "\<exists>cs s'. touch_rotators memory P [selecting ''prod'', selecting ''test''] s = (Ok True, s') \<and>
      s_calls s' = ListRotatorsCall (Ok [selecting ''prod'', selecting ''test'']) # cs" for P
    using memory_touch [of P "[selecting ''prod'', selecting ''test'']" s] l(2) by auto
  have labels: "om_Labels (ns_Meta (labelled a)) = [(''env'', a)]" for a by (simp add: labelled_def)
  show "\<exists>cs s'. UpdateFunc memory (NamespaceObject (labelled ''dev'')) (ns_Meta (labelled ''prod'')) watching = (Ok True, s') \<and>
     s_calls s' = ListRotatorsCall (Ok [selecting ''prod'', selecting ''test'']) # cs"
    unfolding UpdateFunc_def event_object.case l(1) if_err_simps labels using touched by (simp del: touch_rotators.simps)
  show "\<exists>cs s'. CreateFunc memory (NamespaceObject (labelled ''prod'')) watching = (Ok True, s') \<and>
     s_calls s' = ListRotatorsCall (Ok [selecting ''prod'', selecting ''test'']) # cs"
    unfolding CreateFunc_def event_object.case l(1) if_err_simps Let_def by (rule touched)
qed

lemma selecting_labels: "IsExist (om_Labels (ns_Meta (labelled a))) (selector_labels (selecting b)) \<longleftrightarrow> a = b"
  by (simp add: labelled_def selecting_def selector_labels_def IsExist_def map_get_Cons)

lemma five_seconds: "truncate_rat \<bar>Duration_Seconds (pf_Since memory t w)\<bar> < 20"
proof -
  have "fl64 5 = 5" by (rule fl64_exact [where m = 5 and j = 0]) simp_all
  then have "Duration_Seconds 5000000000 = 5"
    by (simp add: Duration_Seconds_def go_quot_def go_rem_def Second_def fl64_def [of 0])
  then show ?thesis by (simp add: memory_ops truncate_rat_def)
qed

lemma watching_calls: "s_calls watching = []"
  by (simp add: watching_def fresh_def)

lemma touched_one: "touched [i] cs (Ok True) \<Longrightarrow> \<exists>c. cs = [c] \<and> uid_changed i c"
  by (cases cs) (auto simp: touched_def split: if_splits)

theorem namespace_update_event_witness:
  "\<exists>c. s_calls (snd (UpdateFunc memory (NamespaceObject (labelled ''dev'')) (ns_Meta (labelled ''prod'')) watching)) =
     [ListRotatorsCall (Ok [selecting ''prod'', selecting ''test'']), c] \<and> uid_changed (selecting ''prod'') c"
proof -
  obtain cs s' where run: "UpdateFunc memory (NamespaceObject (labelled ''dev'')) (ns_Meta (labelled ''prod'')) watching = (Ok True, s')"
    "s_calls s' = ListRotatorsCall (Ok [selecting ''prod'', selecting ''test'']) # cs"
    using watching_events(1) by blast
  have "set (om_Labels (ns_Meta (labelled ''dev''))) \<noteq> set (om_Labels (ns_Meta (labelled ''prod'')))"
    by (simp add: labelled_def)
  with namespace_update_event [where pf = memory and obj = "NamespaceObject (labelled ''dev'')" and metaNew = "ns_Meta (labelled ''prod'')" and s = watching]
  have "touched [selecting ''prod''] cs (Ok True)"
    using watching_calls by (simp add: run selecting_labels touched_of_listed_def)
  then show ?thesis using run touched_one by fastforce
qed

theorem namespace_create_event_witness:
  "\<exists>c. s_calls (snd (CreateFunc memory (NamespaceObject (labelled ''prod'')) watching)) =
     [ListRotatorsCall (Ok [selecting ''prod'', selecting ''test'']), c] \<and> uid_changed (selecting ''prod'') c"
proof -
  obtain cs s' where run: "CreateFunc memory (NamespaceObject (labelled ''prod'')) watching = (Ok True, s')"
    "s_calls s' = ListRotatorsCall (Ok [selecting ''prod'', selecting ''test'']) # cs"
    using watching_events(2) by blast
  from namespace_create_event [where pf = memory and obj = "NamespaceObject (labelled ''prod'')" and s = watching]
  have "touched [selecting ''prod''] cs (Ok True)"
    using watching_calls by (simp add: run selecting_labels five_seconds touched_of_listed_def Let_def)
  then show ?thesis using run touched_one by fastforce
qed

end
