(* ===== verification/Reconcile_Theorems.thy ===== *)
theory Reconcile_Theorems
  imports Operator_Demo
begin

text \<open>
  A whole reconciliation, from the list of namespaces the API server returns to the status that is
  written: the theorem that joins validation, management and status.
\<close>

section \<open>The token details through the initialisation\<close>

definition same_td :: "'w state \<Rightarrow> 'w state \<Rightarrow> bool" where
  "same_td s s' \<longleftrightarrow> s_td s' = s_td s"

interpretation sm: step_rel same_td
  by unfold_locales (simp_all add: same_td_def)

lemma same_td_call: "s_td s1 = s_td s \<Longrightarrow> same_td s (snd (call f c s1))"
  using call_keeps [of s1 f c] by (simp add: same_td_def keeps_def)

lemma same_td_rotator:
  "s_td s1 = s_td s \<Longrightarrow> same_td s (snd (status_update pf s1))"
  "s_td s1 = s_td s \<Longrightarrow> same_td s (snd (update_rotator pf s1))"
  "s_td s1 = s_td s \<Longrightarrow> same_td s (snd (get_rotator pf req s1))"
  by (auto simp: status_update_def update_rotator_def get_rotator_def intro!: sm.if_err_rel same_td_call)
     (simp_all add: same_td_def)

lemma same_td_sr: "same_td s (s\<lparr>s_sr := r\<rparr>)"
  by (simp add: same_td_def)

lemma same_td_checks:
  "same_td s (snd (HandleConditions pf req s))" "same_td s (snd (HandleFinalizers pf s))"
  "same_td s (snd (SecretRotatorChecker pf req s))"
  by (auto simp: HandleConditions_def HandleFinalizers_def SecretRotatorChecker_def set_condition_def
      DoFinalizerOperationsForSecretRotator_def record_call_def case_prod_beta Let_def
      intro!: sm.if_err_rel same_td_rotator same_td_sr)

lemma same_td_create_certs: "same_td s (snd (create_certs pf rot dat keys s))"
proof (induction keys arbitrary: s)
  case (Cons k keys)
  have "same_td s (snd (CreateFile pf p c s))" for p c
    by (auto simp: CreateFile_def intro!: sm.if_err_rel same_td_call)
  then show ?case using Cons by (auto intro!: sm.if_err_rel)
qed simp

lemma same_td_certs: "same_td s (snd (HandleCerts pf ns n rot s))"
  by (auto simp: HandleCerts_def GetSecret_def CreateDir_def Let_def
      intro!: sm.if_err_rel same_td_call same_td_create_certs split: outcome.split)

lemma same_td_patch: "same_td s (snd (DeferPatch pf base s))"
  by (auto simp: DeferPatch_def intro!: sm.if_err_rel same_td_call) (simp_all add: same_td_def)

text \<open>The validation inside a successful initialisation.\<close>

lemma InitializeResource_validates:
  assumes "InitializeResource pf req s = (Ok u, s')"
  shows "\<exists>s1 s2. ValidateObjectSpec pf s1 = (Ok (), s2) \<and> s_td s1 = s_td s \<and> s_td s' = s_td s2 \<and>
    guarded (writes_checked pf) s s1 \<and> guarded (writes_checked pf) s2 s'"
proof -
  obtain a b s1 where
    1: "HandleConditions pf req s = (Ok (), a)" and 2: "HandleFinalizers pf a = (Ok (), b)" and
    3: "SecretRotatorChecker pf req b = (Ok (), s1)" and
    4: "with_defer (validate_and_certs pf s1) (DeferPatch pf (s_sr s1)) = (Ok u, s')"
    using assms unfolding InitializeResource_def by (auto split: if_err_split_asm)
  have td1: "s_td s1 = s_td s"
    using same_td_checks(1) [of s pf req] same_td_checks(2) [of a pf] same_td_checks(3) [of b pf req] 1 2 3
    by (simp add: same_td_def)
  have g1: "guarded (writes_checked pf) s s1"
    using wc.gd.trans [OF wc.gd.trans [OF wc_HandleConditions wc_HandleFinalizers] wc_Checker, of pf s req req] 1 2 3 by simp
  obtain s3 where v: "validate_and_certs pf s1 = (Ok u, s3)" and p: "s' = snd (DeferPatch pf (s_sr s1) s3)"
    using with_defer_Ok [OF 4] by blast
  obtain s2 where s2: "ValidateObjectSpec pf s1 = (Ok (), s2)"
    and c: "s3 = s2 \<or> (\<exists>ns n rot. s3 = snd (HandleCerts pf ns n rot s2))"
    using v unfolding validate_and_certs_def Let_def by (auto split: if_err_split_asm if_splits) (metis snd_conv)+
  have "s_td s3 = s_td s2 \<and> guarded (writes_checked pf) s2 s3"
    using c same_td_certs wc_HandleCerts by (auto simp: same_td_def)
  moreover have "s_td s' = s_td s3 \<and> guarded (writes_checked pf) s3 s'"
    unfolding p using same_td_patch [of s3 pf] by (auto simp: same_td_def DeferPatch_def intro!: wc_intros)
  ultimately show ?thesis using td1 g1 s2 wc.gd.trans [of pf s2 s3 s'] by auto
qed

section \<open>Success\<close>

text \<open>Namespaces have names.\<close>

definition namespaces_law :: "'w platform \<Rightarrow> bool" where
  "namespaces_law pf \<longleftrightarrow>
     (\<forall>sel w nss w'. pf_ListNamespaces pf sel w = (Ok nss, w') \<longrightarrow> [] \<notin> ns_name ` set nss)"

abbreviation rotated_event :: api_call where
  "rotated_event \<equiv> EventfCall ''Normal'' ''Secret rotated successfully'' [] []"

lemma Reconcile_success:
  assumes "Reconcile pf req s = (Ok r, s')" "last (s_calls s') = rotated_event"
  shows "\<exists>s1 s2 s3 s4. s_td s1 = empty_TokenDetails \<and> guarded (writes_checked pf) s s1 \<and>
    InitializeResource pf req s1 = (Ok (), s2) \<and> ManagingSecrets pf s2 = (Ok (), s3) \<and> UpdateStatus pf s3 = (Ok (), s4) \<and>
    s_calls s' = s_calls s4 \<and> s_td s' = s_td s4 \<and> s_sr s' = s_sr s4"
proof -
  let ?s0 = "s\<lparr>s_td := empty_TokenDetails, s_sr := empty_SecretRotator\<rparr>"
  have get: "last (s_calls b) = GetRotatorCall req (Err e)" if "get_rotator pf req a = (Err e, b)" for a b e
    using that by (auto simp: get_rotator_def call_def Let_def split: prod.splits if_err_split_asm)
  obtain s1 where g: "get_rotator pf req ?s0 = (Ok (), s1)"
    using assms unfolding Reconcile_def Let_def by (auto simp: record_call_def dest!: get split: if_err_split_asm if_splits)
  have "s_td s1 = empty_TokenDetails"
    using same_td_rotator(3) [of ?s0 ?s0 pf req] g by (simp add: same_td_def)
  moreover have "guarded (writes_checked pf) s s1"
    using wc_rotator(3) [of pf ?s0 req] g by (simp add: wc_upd)
  moreover have "\<exists>s2 s3 s4. InitializeResource pf req s1 = (Ok (), s2) \<and> ManagingSecrets pf s2 = (Ok (), s3) \<and>
      UpdateStatus pf s3 = (Ok (), s4) \<and> s' = s4\<lparr>s_RequeueInterval := next_interval s4\<rparr>"
    using assms g unfolding Reconcile_def Let_def
    by (auto simp: record_call_def stage_failed_def split: if_err_split_asm)
  ultimately show ?thesis by auto
qed

lemma UpdateStatus_sent:
  assumes "UpdateStatus pf s = (Ok u, s')"
  shows "\<exists>r x. s_calls s' = s_calls s @ [StatusUpdateCall r (Ok x), rotated_event] \<and>
    st_ProvisionedNamespaces (sr_Status r) = sort (td_ProvisionedNamespaces (s_td s)) \<and>
    st_FailedNamespaces (sr_Status r) = ToNamespaceFailures (td_FailedNamespaces (s_td s)) \<and>
    st_SecretManagedByNamespaces (sr_Status r) = td_SecretManagedByNamespaces (s_td s) \<and>
    td_GeneratedSecrets (s_td s') = td_GeneratedSecrets (s_td s)"
  using assms unfolding UpdateStatus_def status_update_def set_condition_def record_call_def call_def Let_def if_err_def
  by (auto split: prod.splits outcome.splits)

lemma failure_namespaces: "nf_Namespace ` set (ToNamespaceFailures m) = fst ` set m"
  by (auto simp: ToNamespaceFailures_def image_image case_prod_beta)

text \<open>What the written status says of the listed namespaces.\<close>

definition status_accounts :: "string set \<Rightarrow> Namespace list \<Rightarrow> SecretRotatorStatus \<Rightarrow> bool" where
  "status_accounts names nss status \<longleftrightarrow>
     st_ProvisionedNamespaces status = sort (map ns_name nss) \<and>
     (\<forall>ns. set (map_get [] (st_SecretManagedByNamespaces status) ns) \<subseteq> (if ns \<in> ns_name ` set nss then names else {})) \<and>
     (\<forall>n \<in> set nss. names \<subseteq> set (map_get [] (st_SecretManagedByNamespaces status) (ns_name n)) \<or>
        ns_name n \<in> nf_Namespace ` set (st_FailedNamespaces status))"

lemma ValidateObjectSpec_names:
  assumes "namespaces_law pf" "ValidateObjectSpec pf s = (Ok u, s')"
  shows "[] \<notin> ns_name ` set (td_NamespaceList (s_td s'))"
proof -
  from ValidateObjectSpec_ok [OF assms(2)] obtain sel items s1 s2 s3 f sa where
    l: "call (pf_ListNamespaces pf sel) (ListNamespacesCall sel) s1 = (Ok items, s2)" and
    g: "GetServiceAccount pf (upd_td f s2) = (Ok sa, s')" and f: "\<And>t. td_NamespaceList (f t) = items"
    by fastforce
  have "td_NamespaceList (s_td s') = items" using GetServiceAccount_keeps [OF g] f by simp
  then show ?thesis using call_result [OF l] assms(1) unfolding namespaces_law_def by blast
qed

lemma ManagingSecrets_generated:
  assumes "ManagingSecrets pf s = (Ok u, s')"
  shows "td_GeneratedSecrets (s_td s') = td_GeneratedSecrets (s_td s)"
proof -
  have step: "progress s (snd (manage_namespaces pf nss f sk s))" for nss f sk s
  proof (induction nss arbitrary: f sk s)
    case (Cons n nss)
    then show ?case by (auto intro!: pr.if_err_rel manage_namespace_progress)
  qed simp
  obtain fl s1 where d: "DeleteOutdatedSecrets pf (sr_name (s_sr s)) (st_ProvisionedNamespaces (sr_Status (s_sr s))) s
      = (Ok fl, s1)" and
    m: "manage_namespaces pf (td_NamespaceList (s_td s1)) [] [] (upd_td (\<lambda>t. t\<lparr>td_FailedNamespaces := fl,
      td_RequeueInterval := s_RequeueInterval s1, td_SecretManagedByNamespaces := []\<rparr>) s1) = (Ok u, s')"
    using assms unfolding ManagingSecrets_def Let_def by (auto split: if_err_split_asm)
  have "keeps s s1"
    using DeleteOutdatedSecrets_keeps [of s pf "sr_name (s_sr s)" "st_ProvisionedNamespaces (sr_Status (s_sr s))"] d by simp
  with step [of "upd_td (\<lambda>t. t\<lparr>td_FailedNamespaces := fl, td_RequeueInterval := s_RequeueInterval s1,
      td_SecretManagedByNamespaces := []\<rparr>) s1" "td_NamespaceList (s_td s1)" "[]" "[]"] m
  show ?thesis by (simp add: progress_def keeps_def)
qed

lemma guarded_drop:
  assumes "guarded G s s'" "guarded G t t'" "c \<in> set (drop (length (s_calls s')) (s_calls t))"
  shows "c \<in> set (drop (length (s_calls s)) (s_calls t'))"
proof -
  have "length (s_calls s) \<le> length (s_calls s')" using assms(1) by (auto simp: guarded_def)
  then have "c \<in> set (drop (length (s_calls s)) (s_calls t))"
    by (rule set_drop_subset_set_drop [THEN subsetD, OF _ assms(3)])
  then show ?thesis using assms(2) by (auto simp: guarded_def)
qed

lemma Reconcile_accounts:
  assumes laws: "namespaces_law pf" "names_law pf"
    and rec: "Reconcile pf req s = (Ok r, s')" "last (s_calls s') = rotated_event"
  shows "\<exists>sel nss sent x. ListNamespacesCall sel (Ok nss) \<in> set (drop (length (s_calls s)) (s_calls s')) \<and> nss \<noteq> [] \<and>
    last (butlast (s_calls s')) = StatusUpdateCall sent (Ok x) \<and> status_accounts (configured s') nss (sr_Status sent)"
proof -
  from Reconcile_success [OF rec] obtain s1 s2 s3 s4 where
    td1: "s_td s1 = empty_TokenDetails" and g1: "guarded (writes_checked pf) s s1" and
    ini: "InitializeResource pf req s1 = (Ok (), s2)" and man: "ManagingSecrets pf s2 = (Ok (), s3)" and
    upd: "UpdateStatus pf s3 = (Ok (), s4)" and s': "s_calls s' = s_calls s4" "s_td s' = s_td s4"
    by (elim exE conjE) (rule that)
  from InitializeResource_validates [OF ini] obtain v1 v2 where
    val: "ValidateObjectSpec pf v1 = (Ok (), v2)" and v: "s_td v1 = s_td s1" "s_td s2 = s_td v2"
    "guarded (writes_checked pf) s1 v1" "guarded (writes_checked pf) v2 s2"
    by (elim exE conjE) (rule that)
  from ValidateObjectSpec_details [OF val] obtain sel nss where
    prov: "td_ProvisionedNamespaces (s_td v2) = []" "td_NamespaceList (s_td v2) = nss" and
    nss: "nss \<noteq> []" "ListNamespacesCall sel (Ok nss) \<in> set (drop (length (s_calls v1)) (s_calls v2))"
    using v(1) td1 by (elim exE conjE) (rule that, auto simp: empty_TokenDetails_def)
  have ns: "\<forall>n \<in> set (td_NamespaceList (s_td s2)). ns_name n \<noteq> []"
    using ValidateObjectSpec_names [OF laws(1) val] v(2) by force
  from UpdateStatus_sent [OF upd] obtain sent x where
    sent: "s_calls s4 = s_calls s3 @ [StatusUpdateCall sent (Ok x), rotated_event]"
      "st_ProvisionedNamespaces (sr_Status sent) = sort (td_ProvisionedNamespaces (s_td s3))"
      "st_FailedNamespaces (sr_Status sent) = ToNamespaceFailures (td_FailedNamespaces (s_td s3))"
      "st_SecretManagedByNamespaces (sr_Status sent) = td_SecretManagedByNamespaces (s_td s3)"
      "td_GeneratedSecrets (s_td s4) = td_GeneratedSecrets (s_td s3)"
    by (elim exE conjE) (rule that)
  have conf: "configured s' = configured s2"
    using ManagingSecrets_generated [OF man] sent(5) s'(2) by simp
  have "status_accounts (configured s') nss (sr_Status sent)"
    using ManagingSecrets_ok [OF man ns] prov v(2)
    unfolding status_accounts_def sent(2-4) failure_namespaces conf by simp
  moreover have "guarded (writes_checked pf) v2 s'"
    using wc.gd.trans [OF wc.gd.trans [OF v(4) wc_ManagingSecrets [OF laws(2)]] wc_UpdateStatus] man upd s'(1)
    by (simp add: guarded_def)
  then have "ListNamespacesCall sel (Ok nss) \<in> set (drop (length (s_calls s)) (s_calls s'))"
    by (rule guarded_drop [OF wc.gd.trans [OF g1 v(3)] _ nss(2)])
  ultimately show ?thesis
    using nss(1) sent(1) s'(1) by (intro exI [of _ sel] exI [of _ nss] exI [of _ sent] exI [of _ x]) (simp add: butlast_append)
qed

text \<open>C2: a reconciliation that ends with the event of a successful rotation has listed the namespaces that
  match the selector and written a status in which exactly these namespaces are provisioned, in order,
  every managed secret is a configured one in one of them, and each of them has all configured secrets
  managed or is among the failed namespaces.\<close>

theorem reconcile_status:
  assumes "namespaces_law pf" "names_law pf"
  shows "case Reconcile pf req s of
     (Ok r, s') \<Rightarrow>
       if last (s_calls s') = rotated_event then
         \<exists>sel nss sent x.
           ListNamespacesCall sel (Ok nss) \<in> set (drop (length (s_calls s)) (s_calls s')) \<and> nss \<noteq> [] \<and>
           last (butlast (s_calls s')) = StatusUpdateCall sent (Ok x) \<and> status_accounts (configured s') nss (sr_Status sent)
       else True
   | _ \<Rightarrow> True"
  using Reconcile_accounts [OF assms] by (auto split: prod.split outcome.split)

theorem reconcile_status_witness:
  "\<exists>sel nss sent x s'. snd (Reconcile memory (''op'', ''rot'') live_state) = s' \<and>
     ListNamespacesCall sel (Ok nss) \<in> set (s_calls s') \<and> nss \<noteq> [] \<and>
     last (butlast (s_calls s')) = StatusUpdateCall sent (Ok x) \<and> status_accounts (configured s') nss (sr_Status sent)"
proof -
  have "namespaces_law memory" by (auto simp: namespaces_law_def memory_ops)
  from reconcile_status [OF this memory_names_law, where req = "(''op'', ''rot'')" and s = live_state] live_run
  show ?thesis by (auto simp: live_state_def fresh_def)
qed

end
