(* ===== verification/Sign_In.thy ===== *)
theory Sign_In
  imports Operator_Demo
begin

text \<open>
  A sign-in that must succeed: when the services behind the web identity flow answer, the operator
  obtains a token.
\<close>

section \<open>Services that answer\<close>

text \<open>
  The client library can be configured, every service account has a role, AWS hands out an identity and
  a configuration and signs, and Artifactory answers a request for a token with 200 and an access
  token.  The lookup of the role may fail, but an answer has the session duration in it.
\<close>

definition sign_in_law :: "'w platform \<Rightarrow> bool" where
  "sign_in_law pf \<longleftrightarrow>
     (\<forall>w. is_Ok (pf_GetConfig pf w)) \<and> (\<forall>cfg. is_Ok (pf_NewForConfig pf cfg)) \<and>
     (\<forall>cs ns n w. \<exists>sa. fst (pf_GetServiceAccount pf cs ns n w) = Ok sa \<and>
        map_get [] (om_Annotations (sa_Meta sa)) RoleARNKey \<noteq> []) \<and>
     (\<forall>cs ns n aud d w. is_Ok (fst (pf_CreateToken pf cs ns n aud d w))) \<and>
     (\<forall>opts w. is_Ok (fst (pf_LoadDefaultConfig pf opts w))) \<and>
     (\<forall>p w. is_Ok (fst (pf_Retrieve pf p w))) \<and>
     (\<forall>cfg role w. (\<exists>e. fst (pf_GetRole pf cfg role w) = Err e) \<or> fst (pf_GetRole pf cfg role w) = Ok None \<or>
        (\<exists>d. fst (pf_GetRole pf cfg role w) = Ok (Some (Some d)))) \<and>
     (\<forall>w key digest. is_Ok (pf_Sign pf w key digest)) \<and>
     (\<forall>client req w. r_Method req = ''POST'' \<longrightarrow> (\<exists>resp ar. fst (pf_Do pf client req w) = Ok resp \<and>
        resp_StatusCode resp = 200 \<and> pf_DecodeAccess pf (resp_Body resp) = Ok ar))"

text \<open>Every identity AWS hands out has a signing key, derived or in the cache.\<close>

definition keys_derivable :: "'w platform \<Rightarrow> credsCache \<Rightarrow> bool" where
  "keys_derivable pf cache \<longleftrightarrow>
     (\<forall>p w a b c region. fst (pf_Retrieve pf p w) = Ok (a, b, c) \<longrightarrow>
        is_Ok (fst (retrievePrivateKey \<lparr>aws_AccessKey = a, aws_SecretKey = b, aws_RegionName = region, aws_SessionToken = c\<rparr> cache)))"

text \<open>
  The resource asks for web identity and for no client certificates, and the address of its Artifactory
  makes a URL.
\<close>

definition web_identity_resource :: "SecretRotator \<Rightarrow> string \<Rightarrow> bool" where
  "web_identity_resource r host \<longleftrightarrow>
     sp_AuthType (sr_Spec r) = WebIdentityAuthType \<and>
     (sec_Enabled (sp_Security (sr_Spec r)) \<longrightarrow> sec_InsecureSkipVerify (sp_Security (sr_Spec r))) \<and>
     (\<forall>body. is_Ok (http_NewRequest ''POST'' (''https://'' @ host @ tokenEndpoint) body))"

text \<open>The call leaves the objects of the operator and its key cache alone.\<close>

definition quiet :: "'w state \<Rightarrow> 'w state \<Rightarrow> bool" where
  "quiet s s' \<longleftrightarrow> s_td s' = s_td s \<and> s_sr s' = s_sr s \<and> s_cache s' = s_cache s"

interpretation qt: step_rel quiet
  by unfold_locales (auto simp: quiet_def)

lemma quiet_call: "quiet s (snd (call f c s))"
  by (simp add: quiet_def call_def case_prod_beta Let_def)

lemma call_fst: "fst (call f c s) = fst (f (s_world s))"
  by (simp add: call_def case_prod_beta Let_def)

lemma call_ok:
  assumes "is_Ok (fst (f (s_world s)))"
  obtains x s' where "call f c s = (Ok x, s')" "quiet s s'" "fst (f (s_world s)) = Ok x"
proof -
  obtain x where "fst (f (s_world s)) = Ok x" using assms by (auto simp: is_Ok_iff)
  then show ?thesis using that [of x "snd (call f c s)"] quiet_call [of s f c] by (simp add: prod_eq_iff call_fst)
qed

locale sign_in =
  fixes pf :: "'w platform"
  assumes law: "sign_in_law pf"
begin

lemma services:
  "is_Ok (pf_GetConfig pf w)" "is_Ok (pf_NewForConfig pf cfg)"
  "is_Ok (fst (pf_CreateToken pf cs ns n aud d w))" "is_Ok (fst (pf_LoadDefaultConfig pf opts w))"
  "is_Ok (fst (pf_Retrieve pf p w))" "is_Ok (pf_Sign pf w key digest)"
  using law by (simp_all add: sign_in_law_def)

lemma account: "\<exists>sa. fst (pf_GetServiceAccount pf cs ns n w) = Ok sa \<and> map_get [] (om_Annotations (sa_Meta sa)) RoleARNKey \<noteq> []"
  using law by (simp add: sign_in_law_def)

lemma role_lookup:
  "(\<exists>e. fst (pf_GetRole pf c role w) = Err e) \<or> fst (pf_GetRole pf c role w) = Ok None \<or>
   (\<exists>d. fst (pf_GetRole pf c role w) = Ok (Some (Some d)))"
  using law unfolding sign_in_law_def by (elim conjE allE [where x = c]) blast

lemma token_service:
  "r_Method req = ''POST'' \<Longrightarrow> \<exists>resp ar. fst (pf_Do pf client req w) = Ok resp \<and>
     resp_StatusCode resp = 200 \<and> pf_DecodeAccess pf (resp_Body resp) = Ok ar"
  using law by (simp add: sign_in_law_def)

lemma GetMaxSession_answers:
  "\<exists>s'. quiet s s' \<and> ((\<exists>e. GetMaxSession pf arn p n ns s = (Err e, s')) \<or> (\<exists>d. GetMaxSession pf arn p n ns s = (Ok (Some d), s')))"
proof (cases "length (Split arn (CHR ''/'')) = 2")
  case True
  define opts where "opts = (if uses_default_account n ns s then default_options
    else \<lparr>opt_Credentials = Some p, opt_Region = Some (td_IAMRoleAwsRegion (s_td s)), opt_EC2IMDSRegion = True\<rparr>)"
  define role where "role = Split arn (CHR ''/'') ! 1"
  obtain cfg s1 where c: "load_config pf opts s = (Ok cfg, s1)" "quiet s s1"
    unfolding load_config_def by (rule call_ok [where f = "pf_LoadDefaultConfig pf opts", OF services(4)])
  let ?r = "call (pf_GetRole pf cfg role) (GetRoleCall role) s1"
  have q: "quiet s (snd ?r)" using qt.trans [OF c(2) quiet_call] .
  have eq: "GetMaxSession pf arn p n ns s = if_err ?r ret_err (\<lambda>role s. case role of
      None \<Rightarrow> (Err (FmtError ''could not extract max session from roleARN'' None), s) | Some d \<Rightarrow> (Ok d, s))"
    using True c(1) unfolding GetMaxSession_def Let_def opts_def [symmetric] role_def [symmetric] by simp
  show ?thesis
    using q role_lookup [of cfg role "s_world s1"] unfolding eq call_fst [symmetric, where c = "GetRoleCall role"]
    by (cases ?r) auto
qed (simp add: GetMaxSession_def)

lemma set_max_session_answers:
  "\<exists>s'. set_max_session (GetMaxSession pf arn p n ns s) = (Ok (), s') \<and> s_sr s' = s_sr s \<and>
    (\<exists>d. s_td s' = (s_td s)\<lparr>td_RoleMaxSessionDuration := Some d\<rparr>)"
  using GetMaxSession_answers [of s arn p n ns] by (auto simp: set_max_session_def quiet_def)

lemma sign_answers:
  assumes "is_Ok (fst (retrievePrivateKey creds (s_cache s)))"
  shows "\<exists>req s'. sign_sts pf creds s = (Ok req, s') \<and> s_sr s' = s_sr s \<and> s_td s' = s_td s"
proof -
  obtain key c where k: "retrievePrivateKey creds (s_cache s) = (Ok key, c)"
    using assms by (cases "retrievePrivateKey creds (s_cache s)") (auto simp: is_Ok_iff)
  obtain sig where "pf_Sign pf (s_world s) (cr_PrivateKey key)
      (sha256 (bytes_of (sts_to_sign (pf_Now pf (s_world s)) (cr_SessionToken key)))) = Ok sig"
    using services(6) unfolding is_Ok_iff by blast
  then show ?thesis using k by (simp add: sign_sts_def SignV4a_sts)
qed

text \<open>The signed request, with the session duration recorded.\<close>

lemma web_signed_answers:
  assumes "keys_derivable pf (s_cache s)"
  shows "\<exists>req s'. GetSignedRequestAndHandleRoleMaxSession pf arn tok n ns s = (Ok req, s') \<and> s_sr s' = s_sr s \<and>
    (\<exists>d. s_td s' = (s_td s)\<lparr>td_RoleMaxSessionDuration := Some d\<rparr>)"
proof -
  define opts where "opts = (if uses_default_account n ns s then default_options
    else \<lparr>opt_Credentials = None, opt_Region = Some (td_IAMRoleAwsRegion (s_td s)), opt_EC2IMDSRegion = True\<rparr>)"
  obtain cfg s1 where c: "load_config pf opts s = (Ok cfg, s1)" "quiet s s1"
    unfolding load_config_def by (rule call_ok [where f = "pf_LoadDefaultConfig pf opts", OF services(4)])
  define p where "p = WebIdentityRoleProvider (cfg_Source cfg) arn tok (''artifactorySecretRotation'' @ FormatInt (pf_UnixMilli pf (s_world s1)))"
  obtain x s2 where r: "call (pf_Retrieve pf p) (RetrieveCall p) s1 = (Ok x, s2)" "quiet s1 s2" "fst (pf_Retrieve pf p (s_world s1)) = Ok x"
    by (rule call_ok [where f = "pf_Retrieve pf p", OF services(5)])
  obtain a b d where x: "x = (a, b, d)" by (cases x)
  define creds where "creds = \<lparr>aws_AccessKey = a, aws_SecretKey = b, aws_RegionName = cfg_Region cfg, aws_SessionToken = d\<rparr>"
  have "is_Ok (fst (retrievePrivateKey creds (s_cache s2)))"
    using assms r(2,3) c(2) by (auto simp: keys_derivable_def x creds_def quiet_def)
  from sign_answers [OF this] obtain req s3 where g: "sign_sts pf creds s2 = (Ok req, s3)" "s_sr s3 = s_sr s2" "s_td s3 = s_td s2" by blast
  obtain s4 e where m: "set_max_session (GetMaxSession pf arn p n ns s3) = (Ok (), s4)" "s_sr s4 = s_sr s3"
    "s_td s4 = (s_td s3)\<lparr>td_RoleMaxSessionDuration := Some e\<rparr>" using set_max_session_answers by blast
  have "GetSignedRequestAndHandleRoleMaxSession pf arn tok n ns s = (Ok req, s4)"
    using c(1) r(1) g(1) m(1)
    unfolding GetSignedRequestAndHandleRoleMaxSession_def Let_def opts_def [symmetric]
    by (simp add: x creds_def p_def)
  then show ?thesis using c(2) r(2) g(2,3) m(2,3) by (auto simp: quiet_def)
qed

lemma signed_request_answers:
  assumes "keys_derivable pf (s_cache s)" "sp_AuthType (sr_Spec (s_sr s)) = WebIdentityAuthType"
    and "map_get [] (om_Annotations (sa_Meta sa)) RoleARNKey \<noteq> []"
  shows "\<exists>req s'. signed_request pf sa cs s = (Ok req, s') \<and> s_sr s' = s_sr s \<and>
    td_ArtifactoryUrl (s_td s') = td_ArtifactoryUrl (s_td s) \<and> td_RoleMaxSessionDuration (s_td s') \<noteq> None"
proof -
  define s1 where "s1 = upd_td (\<lambda>t. t\<lparr>td_AuthType := WebIdentityAuthType\<rparr>) s"
  define sa' where "sa' = sp_ServiceAccount (sr_Spec (s_sr s1))"
  let ?f = "pf_CreateToken pf cs (sad_Namespace sa') (sad_Name sa') [AmazonAwsSts] ServiceAccountExpirationSeconds"
  obtain tok s2 where t: "call ?f (CreateTokenCall (sad_Namespace sa') (sad_Name sa') [AmazonAwsSts] ServiceAccountExpirationSeconds) s1 = (Ok tok, s2)"
    "quiet s1 s2" by (rule call_ok [where f = ?f, OF services(3)])
  have "keys_derivable pf (s_cache s2)" using assms(1) t(2) by (simp add: quiet_def s1_def)
  from web_signed_answers [OF this] obtain req s3 d where
    g: "GetSignedRequestAndHandleRoleMaxSession pf (map_get [] (om_Annotations (sa_Meta sa)) RoleARNKey) tok (sad_Name sa') (sad_Namespace sa') s2 = (Ok req, s3)"
    "s_sr s3 = s_sr s2" "s_td s3 = (s_td s2)\<lparr>td_RoleMaxSessionDuration := Some d\<rparr>" by blast
  have "GetSignedRequestForWebIdentity pf sa cs s1 = (Ok req, s3)"
    using assms(3) t(1) g(1) by (simp add: GetSignedRequestForWebIdentity_def Let_def sa'_def [symmetric])
  then have "signed_request pf sa cs s = (Ok req, upd_td (\<lambda>t. t\<lparr>td_AuthType := WebIdentityAuthType\<rparr>) s3)"
    using assms(2) by (simp add: signed_request_def s1_def Let_def auth_types)
  then show ?thesis using t(2) g(2,3) by (simp add: quiet_def s1_def)
qed

text \<open>The request to Artifactory.\<close>

lemma createArtifactoryToken_answers:
  assumes "is_sts_signed request" "\<And>body. is_Ok (http_NewRequest ''POST'' (''https://'' @ host @ tokenEndpoint) body)"
    and "sec_Enabled sec \<Longrightarrow> sec_InsecureSkipVerify sec"
  shows "\<exists>x s'. createArtifactoryToken pf request host (Some ttl) sec n s = (Ok x, s')"
proof -
  let ?b = "bytes_of (''{'' @ [CHR 0x22] @ ''expires_in'' @ [CHR 0x22] @ '': '' @ FormatInt ttl @ ''}'')"
  obtain req where req: "http_NewRequest ''POST'' (''https://'' @ host @ tokenEndpoint) ?b = Ok req"
    using assms(2) unfolding is_Ok_iff by blast
  obtain h where h: "copy_headers (r_Header request) (range_keys pf (r_Header request) s)
      (header_Set ''Content-Type'' ''application/json'' (r_Header req)) = Ok h"
    using copied_request_ok [OF is_sts_signed_plain [OF assms(1)] req, of pf s] by blast
  obtain client where client: "createCustomHTTPClient pf sec n s = (Ok client, s)"
    using assms(3) by (cases "sec_Enabled sec") (simp_all add: createCustomHTTPClient_def Let_def)
  have "r_Method (req\<lparr>r_Header := h\<rparr>) = ''POST''" using http_NewRequest_fields [OF req] by simp
  from token_service [OF this] obtain resp ar where d: "fst (pf_Do pf client (req\<lparr>r_Header := h\<rparr>) (s_world s)) = Ok resp"
    "resp_StatusCode resp = 200" "pf_DecodeAccess pf (resp_Body resp) = Ok ar" by blast
  obtain s1 where "call (pf_Do pf client (req\<lparr>r_Header := h\<rparr>)) (DoCall client (req\<lparr>r_Header := h\<rparr>)) s = (Ok resp, s1)"
    using d(1) call_fst [of "pf_Do pf client (req\<lparr>r_Header := h\<rparr>)"] by (metis prod.collapse)
  then show ?thesis
    unfolding createArtifactoryToken_def option.case Let_def req if_err_simps h client using d(2,3) by simp
qed

lemma finish_token_answers:
  assumes "is_sts_signed request" "web_identity_resource (s_sr s) (td_ArtifactoryUrl (s_td s))"
    and "td_RoleMaxSessionDuration (s_td s) \<noteq> None"
  shows "\<exists>s'. finish_token pf request s = (Ok (), s')"
proof -
  obtain ttl where ttl: "td_RoleMaxSessionDuration (s_td s) = Some ttl" using assms(3) by blast
  define s1 where "s1 = ttl_warning ttl (upd_td (\<lambda>t. t\<lparr>td_TTLInSeconds := ttl\<rparr>) s)"
  have s1: "s_sr s1 = s_sr s" "td_ArtifactoryUrl (s_td s1) = td_ArtifactoryUrl (s_td s)"
    by (simp_all add: s1_def ttl_warning_def record_call_def split: option.split)
  obtain x s2 where "createArtifactoryToken pf request (td_ArtifactoryUrl (s_td s1)) (Some ttl)
      (sp_Security (sr_Spec (s_sr s1))) (sr_name (s_sr s1)) s1 = (Ok x, s2)"
    using createArtifactoryToken_answers [OF assms(1), of "td_ArtifactoryUrl (s_td s1)" "sp_Security (sr_Spec (s_sr s1))"] assms(2)
    unfolding s1 web_identity_resource_def by blast
  then show ?thesis
    unfolding finish_token_def ttl option.case Let_def s1_def [symmetric] by (simp split: prod.split)
qed

lemma HandlingToken_answers:
  assumes "web_identity_resource (s_sr s) (td_ArtifactoryUrl (s_td s))" "keys_derivable pf (s_cache s)"
  shows "\<exists>s'. HandlingToken pf s = (Ok (), s')"
proof (cases "td_Token (s_td s) = []")
  case True
  define s1 where "s1 = default_account s"
  have s1: "s_td s1 = s_td s" "s_cache s1 = s_cache s" "web_identity_resource (s_sr s1) (td_ArtifactoryUrl (s_td s1))"
    using assms(1) by (simp_all add: s1_def default_account_def Let_def web_identity_resource_def)
  obtain config where "pf_GetConfig pf (s_world s1) = Ok config" using services(1) unfolding is_Ok_iff by blast
  moreover obtain cs where "pf_NewForConfig pf config = Ok cs" using services(2) unfolding is_Ok_iff by blast
  ultimately have k: "GetK8sClient pf s1 = (Ok cs, s1)" by (simp add: GetK8sClient_def)
  define a where "a = sp_ServiceAccount (sr_Spec (s_sr s1))"
  let ?f = "pf_GetServiceAccount pf cs (sad_Namespace a) (sad_Name a)"
  obtain sa where sa: "fst (?f (s_world s1)) = Ok sa" "map_get [] (om_Annotations (sa_Meta sa)) RoleARNKey \<noteq> []"
    using account by blast
  define s2 where "s2 = snd (call ?f (GetServiceAccountCall (sad_Namespace a) (sad_Name a)) s1)"
  have g: "call ?f (GetServiceAccountCall (sad_Namespace a) (sad_Name a)) s1 = (Ok sa, s2)" "quiet s1 s2"
    using sa(1) quiet_call by (simp_all add: s2_def prod_eq_iff call_fst)
  have "keys_derivable pf (s_cache s2)" "sp_AuthType (sr_Spec (s_sr s2)) = WebIdentityAuthType"
    using assms(2) s1 g(2) by (simp_all add: quiet_def web_identity_resource_def)
  from signed_request_answers [OF this sa(2)] obtain req s3 where r: "signed_request pf sa cs s2 = (Ok req, s3)" "s_sr s3 = s_sr s2"
    "td_ArtifactoryUrl (s_td s3) = td_ArtifactoryUrl (s_td s2)" "td_RoleMaxSessionDuration (s_td s3) \<noteq> None" by blast
  obtain s4 where "finish_token pf req s3 = (Ok (), s4)"
    using finish_token_answers [OF signed_request_signed [OF r(1)], of s3] s1 g(2) r by (auto simp: quiet_def)
  then show ?thesis
    using True k g(1) r(1) by (simp add: HandlingToken_def s1_def [symmetric] a_def [symmetric] Let_def)
qed (simp add: HandlingToken_def)

end

lemma memory_sign_in_law: "sign_in_law memory"
  by (simp add: sign_in_law_def memory_ops map_get_Cons RoleARNKey_def)

interpretation mem_sign_in: sign_in memory
  by unfold_locales (rule memory_sign_in_law)

end
