(* ===== verification/Rotation_Live.thy ===== *)
theory Rotation_Live
  imports Sign_In
begin

text \<open>
  A rotation that must succeed: when the cluster answers every request about secrets, the secrets to be
  written are absent or controlled by the rotator and a token can be obtained, the management of the
  secrets ends without an error and without a failed namespace, and every secret is current.
\<close>

section \<open>A cluster that answers\<close>

text \<open>
  A read finds a secret or says that there is none; a write or deletion succeeds, unless its target is
  missing (or, for a creation, there already); a refused request changes nothing.
\<close>

definition answers :: "'w platform \<Rightarrow> ('w \<Rightarrow> string \<times> string \<Rightarrow> Secret option) \<Rightarrow> bool \<Rightarrow> 'w \<Rightarrow> 'a outcome \<times> 'w \<Rightarrow> bool" where
  "answers pf st fine w r \<longleftrightarrow>
     (if fine then is_Ok (fst r) else (\<exists>e. fst r = Err e \<and> pf_IsNotFound pf e) \<and> st (snd r) = st w)"

definition live_law :: "'w platform \<Rightarrow> ('w \<Rightarrow> string \<times> string \<Rightarrow> Secret option) \<Rightarrow> bool" where
  "live_law pf st \<longleftrightarrow>
     (\<forall>ns n w. answers pf st (st w (ns, n) \<noteq> None) w (pf_GetSecret pf ns n w)) \<and>
     (\<forall>x w. answers pf st (st w (secret_key x) \<noteq> None) w (pf_UpdateSecret pf x w)) \<and>
     (\<forall>x w. answers pf st (st w (secret_key x) \<noteq> None) w (pf_DeleteSecret pf x w)) \<and>
     (\<forall>x w. st w (secret_key x) = None \<longrightarrow> is_Ok (fst (pf_CreateSecret pf x w))) \<and>
     (\<forall>r x. is_Ok (pf_SetControllerReference pf r x))"

lemma memory_live_law: "live_law memory mem_lookup"
  by (auto simp: live_law_def answers_def mem_defs mem_set_owner_def is_Ok_iff split: option.splits)

text \<open>Nothing but deletions happens outside a set of keys.\<close>

definition shrinks ::
    "('w \<Rightarrow> string \<times> string \<Rightarrow> Secret option) \<Rightarrow> (string \<times> string) set \<Rightarrow> 'w state \<Rightarrow> 'w state \<Rightarrow> bool" where
  "shrinks st K s s' \<longleftrightarrow> (\<forall>k. k \<notin> K \<longrightarrow> st (s_world s') k = st (s_world s) k \<or> st (s_world s') k = None)"

lemma shrinksD: "shrinks st K s s' \<Longrightarrow> k \<notin> K \<Longrightarrow> st (s_world s') k = st (s_world s) k \<or> st (s_world s') k = None"
  unfolding shrinks_def by (drule spec [where x = k]) (erule mp)

lemma shrinksI: "(\<And>k. k \<notin> K \<Longrightarrow> st (s_world s') k = st (s_world s) k \<or> st (s_world s') k = None) \<Longrightarrow> shrinks st K s s'"
  unfolding shrinks_def by (intro allI impI)

interpretation sh: step_rel "shrinks st K" for st K
proof
  show "shrinks st K s s" for s :: "'a state" by (simp add: shrinks_def)
  fix s s' s'' :: "'a state"
  assume a: "shrinks st K s s'" and b: "shrinks st K s' s''"
  show "shrinks st K s s''"
  proof (rule shrinksI)
    fix k assume "k \<notin> K"
    from shrinksD [OF a this] shrinksD [OF b this]
    show "st (s_world s'') k = st (s_world s) k \<or> st (s_world s'') k = None" by (elim disjE) simp_all
  qed
qed

lemma shrinks_mono: "shrinks st K s s' \<Longrightarrow> K \<subseteq> K' \<Longrightarrow> shrinks st K' s s'"
  by (rule shrinksI) (metis shrinksD subsetD)

lemma changes_shrinks: "changes st K s s' \<Longrightarrow> shrinks st K s s'"
  by (simp add: changes_def shrinks_def)

lemma shrinks_upd [simp]: "shrinks st K s (s'\<lparr>s_td := t\<rparr>) \<longleftrightarrow> shrinks st K s s'"
  by (simp add: shrinks_def)

text \<open>The shared objects and the key cache are left alone.\<close>

definition idle :: "'w state \<Rightarrow> 'w state \<Rightarrow> bool" where
  "idle s s' \<longleftrightarrow> keeps s s' \<and> s_cache s' = s_cache s"

interpretation il: step_rel idle
  by unfold_locales (auto simp: idle_def keeps_def)

lemma idle_call [simp]: "idle s (snd (call f c s))"
  by (simp add: idle_def keeps_def call_def case_prod_beta Let_def)

lemma idle_GetSecret [simp]: "idle s (snd (GetSecret pf ns n s))"
  by (simp add: GetSecret_def)

lemma idle_scan: "idle s (snd (scan_secrets pf ns gs f sk s))"
proof (induction gs arbitrary: f sk s)
  case (Cons g gs)
  then show ?case by (auto intro!: il.if_err_rel)
qed simp

lemma idle_DeleteSecret: "idle s (snd (DeleteSecret pf n rot ns t s))"
  by (auto simp: DeleteSecret_def intro!: il.if_err_rel)

lemma idle_delete_generated: "idle s (snd (delete_generated pf rot ns gs f s))"
proof (induction gs arbitrary: f s)
  case (Cons g gs)
  then show ?case by (auto intro!: il.if_err_rel idle_DeleteSecret)
qed simp

lemma idle_delete_removed: "idle s (snd (delete_removed pf rot gs nss f s))"
proof (induction nss arbitrary: f s)
  case (Cons n nss)
  then show ?case by (auto intro!: il.if_err_rel idle_delete_generated)
qed simp

text \<open>Absent, or controlled by the rotator.\<close>

definition free_or_owned ::
    "'w platform \<Rightarrow> ('w \<Rightarrow> string \<times> string \<Rightarrow> Secret option) \<Rightarrow> string \<Rightarrow> (string \<times> string) set \<Rightarrow> 'w state \<Rightarrow> bool" where
  "free_or_owned pf st rot K s \<longleftrightarrow> (\<forall>k \<in> K. \<forall>x. st (s_world s) k = Some x \<longrightarrow> IsSecretOwnedBy pf x rot)"

lemma free_or_owned_shrinks:
  "free_or_owned pf st rot K s \<Longrightarrow> shrinks st K' s s' \<Longrightarrow> K \<inter> K' = {} \<Longrightarrow> free_or_owned pf st rot K s'"
  unfolding free_or_owned_def using shrinksD by (metis IntI emptyE option.distinct(1))

text \<open>
  Whatever the cluster holds, a token can be obtained for this resource with these details and this key
  cache.
\<close>

definition login_details :: "TokenDetails \<Rightarrow> TokenDetails" where
  "login_details td = td\<lparr>td_FailedNamespaces := [], td_RequeueInterval := 0, td_SecretManagedByNamespaces := []\<rparr>"

definition token_obtainable :: "'w platform \<Rightarrow> 'w state \<Rightarrow> bool" where
  "token_obtainable pf s \<longleftrightarrow>
     (\<forall>s'. s_sr s' = s_sr s \<and> s_cache s' = s_cache s \<and> login_details (s_td s') = login_details (s_td s) \<longrightarrow>
        fst (HandlingToken pf s') = Ok ())"

lemma token_obtainable_idle: "token_obtainable pf s \<Longrightarrow> idle s s' \<Longrightarrow> token_obtainable pf s'"
  by (simp add: token_obtainable_def idle_def keeps_def)

lemma token_nonempty:
  assumes "HandlingToken pf s = (Ok (), s')" "token_law pf"
  shows "td_Token (s_td s') \<noteq> []"
proof (cases "td_Token (s_td s) = []")
  case True
  from HandlingToken_request [OF assms(1) True] show ?thesis
    using assms(2) unfolding token_law_def by metis
next
  case False
  then show ?thesis using assms(1) by (simp add: HandlingToken_def)
qed

lemma token_kept: "td_Token (s_td s) \<noteq> [] \<Longrightarrow> token_obtainable pf s"
  by (auto simp: token_obtainable_def HandlingToken_def login_details_def dest!: arg_cong [where f = td_Token])

lemma write_secrets_token: "td_Token (s_td (snd (write_secrets pf ns gs sk f s))) = td_Token (s_td s)"
proof (induction gs arbitrary: f s)
  case (Cons g gs)
  show ?case
  proof (cases "CreateOrUpdateSecrets pf ns (gs_SecretName g) (gs_SecretType g) s")
    case (Pair r s1)
    then have "s_td s1 = s_td s"
      using CreateOrUpdateSecrets_keeps [of s pf ns "gs_SecretName g" "gs_SecretType g"] by (simp add: keeps_def)
    then show ?thesis
      using Cons Pair by (cases r) (auto simp: add_managed_def split: option.split)
  qed
qed simp

locale healthy = lawful +
  assumes live: "live_law pf st"
begin

lemma outcome_cases [consumes 1, case_names there missing]:
  assumes "answers pf st (st w k \<noteq> None) w r"
  obtains x y where "st w k = Some x" "fst r = Ok y"
    | e where "st w k = None" "fst r = Err e" "pf_IsNotFound pf e" "st (snd r) = st w"
  using assms by (auto simp: answers_def is_Ok_iff split: if_splits)

lemma live_calls:
  "answers pf st (st w (ns, n) \<noteq> None) w (pf_GetSecret pf ns n w)"
  "answers pf st (st w (secret_key x) \<noteq> None) w (pf_UpdateSecret pf x w)"
  "answers pf st (st w (secret_key x) \<noteq> None) w (pf_DeleteSecret pf x w)"
  "st w (secret_key x) = None \<Longrightarrow> \<exists>y. fst (pf_CreateSecret pf x w) = Ok y"
  "\<exists>y. pf_SetControllerReference pf r x = Ok y"
  using live unfolding live_law_def is_Ok_iff by blast+

lemma GetSecret_live:
  obtains x s' where "st (s_world s) (ns, n) = Some x" "GetSecret pf ns n s = (Ok x, s')" "idle s s'" "st (s_world s') = st (s_world s)"
  | e s' where "st (s_world s) (ns, n) = None" "GetSecret pf ns n s = (Err e, s')" "pf_IsNotFound pf e" "idle s s'"
      "st (s_world s') = st (s_world s)"
proof -
  obtain r s' where g: "GetSecret pf ns n s = (r, s')" by fastforce
  then have i: "idle s s'" using idle_GetSecret [of s pf ns n] by simp
  have w: "pf_GetSecret pf ns n (s_world s) = (r, s_world s')"
    using g by (auto simp: GetSecret_def call_def Let_def split: prod.splits)
  then have st: "st (s_world s') = st (s_world s)"
    and x: "\<And>x. r = Ok x \<Longrightarrow> st (s_world s) (ns, n) = Some x"
    using get unfolding get_law_def by blast+
  show ?thesis
    using live_calls(1) [of "s_world s" ns n, unfolded w]
  proof (cases rule: outcome_cases)
    case (there x y)
    then show ?thesis using that(1) g i st x by simp
  next
    case (missing e)
    then show ?thesis using that(2) g i st by simp
  qed
qed

lemma delete_live:
  obtains u s' where "call (pf_DeleteSecret pf x) c s = (u, s')" "u = Ok () \<or> (\<exists>e. u = Err e \<and> pf_IsNotFound pf e)"
    "st (s_world s) (secret_key x) \<noteq> None \<Longrightarrow> u = Ok ()" "shrinks st {} s s'" "idle s s'"
proof -
  obtain u w where d: "pf_DeleteSecret pf x (s_world s) = (u, w)" by fastforce
  let ?s = "s\<lparr>s_world := w, s_calls := s_calls s @ [c u]\<rparr>"
  have c: "call (pf_DeleteSecret pf x) c s = (u, ?s)" by (simp add: call_def d)
  have i: "idle s ?s" using idle_call [of s "pf_DeleteSecret pf x" c] by (simp add: c)
  show ?thesis
    using live_calls(3) [of "s_world s" x, unfolded d]
  proof (cases rule: outcome_cases)
    case (there y z)
    then have "st w = (st (s_world s))(secret_key x := None)"
      using cluster d by (auto simp: cluster_laws_def delete_law_def)
    then have "shrinks st {} s ?s" by (simp add: shrinks_def)
    then show ?thesis using that [OF c] i there by simp
  next
    case (missing e)
    then show ?thesis using that [OF c] i by (simp add: shrinks_def)
  qed
qed

lemma DeleteSecret_live: "\<exists>s'. DeleteSecret pf n rot ns t s = (Ok (), s') \<and> shrinks st {} s s' \<and> idle s s'"
proof (cases rule: GetSecret_live [where s = s and ns = ns and n = n])
  case (1 x s1)
  then have key: "st (s_world s1) (secret_key x) \<noteq> None" and s1: "shrinks st {} s s1"
    using got [OF 1(2)] by (simp_all add: shrinks_def)
  obtain u s2 where "call (pf_DeleteSecret pf x) (DeleteSecretCall (secret_namespace x) (secret_name x)) s1 = (u, s2)"
    "u = Ok ()" "shrinks st {} s1 s2" "idle s1 s2" using key by (rule_tac delete_live) blast
  then show ?thesis using 1 s1 sh.trans [of st "{}" s s1 s2] il.trans [of s s1 s2] by (simp add: DeleteSecret_def)
next
  case (2 e s1)
  then show ?thesis by (simp add: DeleteSecret_def shrinks_def)
qed

lemma delete_generated_live:
  "\<exists>s'. delete_generated pf rot ns gs f s = (Ok f, s') \<and> shrinks st {} s s'"
proof (induction gs arbitrary: s)
  case (Cons g gs)
  obtain s1 where "DeleteSecret pf (gs_SecretName g) rot ns (gs_SecretType g) s = (Ok (), s1)" "shrinks st {} s s1"
    using DeleteSecret_live by blast
  moreover obtain s2 where "delete_generated pf rot ns gs f s1 = (Ok f, s2)" "shrinks st {} s1 s2" using Cons by blast
  ultimately show ?case using Cons [of s] sh.trans [of st "{}" s s1 s2] by auto
qed simp

lemma delete_removed_live:
  "\<exists>s'. delete_removed pf rot gs nss f s = (Ok f, s') \<and> shrinks st {} s s'"
proof (induction nss arbitrary: s)
  case (Cons ns nss)
  obtain s1 where "delete_generated pf rot ns gs f s = (Ok f, s1)" "shrinks st {} s s1"
    using delete_generated_live by blast
  moreover obtain s2 where "delete_removed pf rot gs nss f s1 = (Ok f, s2)" "shrinks st {} s1 s2" using Cons by blast
  ultimately show ?case using sh.trans [of st "{}" s s1 s2] by auto
qed simp

lemma delete_names_live: "\<exists>s'. delete_names pf ns names s = (Ok (), s') \<and> shrinks st {} s s'"
proof (induction names arbitrary: s)
  case (Cons n names)
  let ?x = "empty_secret\<lparr>sc_Meta := empty_meta\<lparr>om_Name := n, om_Namespace := ns\<rparr>\<rparr>"
  obtain u s1 where d: "call (pf_DeleteSecret pf ?x) (DeleteSecretCall ns n) s = (u, s1)"
    "u = Ok () \<or> (\<exists>e. u = Err e \<and> pf_IsNotFound pf e)" "shrinks st {} s s1" by (rule delete_live)
  obtain s2 where "delete_names pf ns names s1 = (Ok (), s2)" "shrinks st {} s1 s2" using Cons by blast
  then show ?case using d sh.trans [of st "{}" s s1 s2] by (auto simp: Let_def)
qed simp

lemma delete_namespaces_live: "\<exists>s'. delete_namespaces pf ch nss s = (Ok (), s') \<and> shrinks st {} s s'"
proof (induction nss arbitrary: s)
  case (Cons ns nss)
  obtain s1 where "delete_names pf ns (map_get [] ch ns) s = (Ok (), s1)" "shrinks st {} s s1"
    using delete_names_live by blast
  moreover obtain s2 where "delete_namespaces pf ch nss s1 = (Ok (), s2)" "shrinks st {} s1 s2" using Cons by blast
  ultimately show ?case using sh.trans [of st "{}" s s1 s2] by auto
qed simp

lemma DeleteOutdatedGeneratedSecrets_live:
  "\<exists>s'. DeleteOutdatedGeneratedSecrets pf s = (Ok (), s') \<and> shrinks st {} s s'"
  using delete_namespaces_live by (simp add: DeleteOutdatedGeneratedSecrets_def case_prod_beta Let_def)

subsection \<open>One namespace\<close>

lemma scan_live:
  "free_or_owned pf st (sr_name (s_sr s)) ({ns} \<times> gs_SecretName ` set gs) s \<Longrightarrow>
   \<exists>s'. scan_secrets pf ns gs f sk s = (Ok (f, sk), s') \<and> st (s_world s') = st (s_world s)"
proof (induction gs arbitrary: s)
  case (Cons g gs)
  have next_one: "\<exists>s'. scan_secrets pf ns gs f sk s1 = (Ok (f, sk), s') \<and> st (s_world s') = st (s_world s)"
    if "idle s s1" "st (s_world s1) = st (s_world s)" for s1
  proof -
    have "free_or_owned pf st (sr_name (s_sr s1)) ({ns} \<times> gs_SecretName ` set gs) s1"
      using Cons.prems that by (simp add: free_or_owned_def idle_def keeps_def)
    from Cons.IH [OF this] show ?thesis using that(2) by simp
  qed
  show ?case
  proof (cases rule: GetSecret_live [where s = s and ns = ns and n = "gs_SecretName g"])
    case (1 x s1)
    then have "IsSecretOwnedBy pf x (sr_name (s_sr s1))"
      using Cons.prems by (simp add: free_or_owned_def idle_def keeps_def)
    then show ?thesis using 1 next_one [OF 1(3,4)] by simp
  next
    case (2 e s1)
    then show ?thesis using next_one [OF 2(4,5)] by simp
  qed
qed simp

lemma write_secret_live: "\<exists>s'. write_secret pf n t x s = (Ok (None, False), s')"
proof -
  obtain u w where u: "pf_UpdateSecret pf x (s_world s) = (u, w)" by fastforce
  show ?thesis
    using live_calls(2) [of "s_world s" x, unfolded u]
  proof (cases rule: outcome_cases)
    case (there y z)
    then show ?thesis using u by (simp add: write_secret_def call_def)
  next
    case (missing e)
    then obtain z where "fst (pf_CreateSecret pf x w) = Ok z" using live_calls(4) [of w x] by auto
    then show ?thesis using u missing by (simp add: write_secret_def call_def case_prod_beta Let_def prod_eq_iff if_err_def)
  qed
qed

lemma CreateOrUpdateSecrets_live:
  assumes "t \<in> {SecretTypeDocker, SecretTypeGeneric}"
  shows "\<exists>s'. CreateOrUpdateSecrets pf ns n t s = (Ok (None, False), s')"
proof (cases rule: GetSecret_live [where s = s and ns = "ns_name ns" and n = n])
  case (1 x s1)
  then show ?thesis
    using write_secret_live
    by (simp add: CreateOrUpdateSecrets_def Let_def GetSecret_def configure_secret_eq [OF assms])
next
  case (2 e s1)
  obtain y where "setSecretMetadata pf (s_sr s1) (ns_name ns)
      (empty_secret\<lparr>sc_Meta := empty_meta\<lparr>om_Name := n, om_Namespace := ns_name ns\<rparr>\<rparr>) = Ok y"
    using live_calls(5) unfolding setSecretMetadata_def Let_def by blast
  then show ?thesis
    using 2 write_secret_live
    by (simp add: CreateOrUpdateSecrets_def Let_def GetSecret_def configure_secret_eq [OF assms])
qed

lemma write_secrets_live:
  "list_all valid_secret gs \<Longrightarrow> ns_name ns \<noteq> [] \<Longrightarrow> \<exists>s'. write_secrets pf ns gs [] f s = (Ok f, s')"
proof (induction gs arbitrary: s)
  case (Cons g gs)
  then have "gs_SecretType g \<in> {SecretTypeDocker, SecretTypeGeneric}" by (simp add: valid_secret_def)
  from CreateOrUpdateSecrets_live [OF this] obtain s1 where
    "CreateOrUpdateSecrets pf ns (gs_SecretName g) (gs_SecretType g) s = (Ok (None, False), s1)" by blast
  then show ?case using Cons by simp
qed simp

lemma finish_namespace_live:
  "\<exists>s'. finish_namespace pf ns [] s = (Ok ([], []), s') \<and> shrinks st {} s s' \<and> s_td s' = (s_td s)\<lparr>td_ProvisionedNamespaces := td_ProvisionedNamespaces (s_td s) @ [ns]\<rparr>"
proof -
  obtain s1 where "DeleteOutdatedGeneratedSecrets pf s = (Ok (), s1)" "shrinks st {} s s1"
    using DeleteOutdatedGeneratedSecrets_live by blast
  moreover have "keeps s s1" using DeleteOutdatedGeneratedSecrets_keeps [of s pf] calculation(1) by simp
  ultimately show ?thesis by (simp add: finish_namespace_def report_failures_def keeps_def)
qed

lemma manage_namespace_live:
  assumes free: "free_or_owned pf st (sr_name (s_sr s)) ({ns_name ns} \<times> configured s) s"
    and gs: "list_all valid_secret (td_GeneratedSecrets (s_td s))" "ns_name ns \<noteq> []"
    and tok: "token_obtainable pf s" "token_law pf"
  shows "\<exists>s'. manage_namespace pf ns [] [] s = (Ok ([], []), s') \<and> progress s s' \<and>
    shrinks st ({ns_name ns} \<times> configured s) s s' \<and>
    td_FailedNamespaces (s_td s') = td_FailedNamespaces (s_td s) \<and> td_Token (s_td s') \<noteq> []"
proof -
  let ?K = "{ns_name ns} \<times> configured s"
  obtain s1 where s1: "scan_secrets pf (ns_name ns) (td_GeneratedSecrets (s_td s)) [] [] s = (Ok ([], []), s1)"
    "st (s_world s1) = st (s_world s)" using scan_live [OF free] by blast
  have i1: "idle s s1" using idle_scan [of s pf "ns_name ns" "td_GeneratedSecrets (s_td s)" "[]" "[]"] s1(1) by simp
  obtain s2 where s2: "HandlingToken pf s1 = (Ok (), s2)"
    using token_obtainable_idle [OF tok(1) i1] unfolding token_obtainable_def by (metis prod.collapse)
  have tf: "token_frame s1 s2" and c2: "changes st {} s1 s2"
    using tf_HandlingToken [of s1 pf] ch_HandlingToken [of "{}" s1] s2 by simp_all
  have g2: "td_GeneratedSecrets (s_td s2) = td_GeneratedSecrets (s_td s)"
    using i1 tf by (simp add: idle_def keeps_def token_frame_def)
  obtain s3 where s3: "write_secrets pf ns (td_GeneratedSecrets (s_td s2)) [] [] s2 = (Ok [], s3)"
    using write_secrets_live [of "td_GeneratedSecrets (s_td s2)" ns] gs g2 by auto
  have c3: "changes st ?K s2 s3" and w3: "write_frame (ns_name ns) (configured s) s2 s3"
    using ch_write_secrets [of ns "td_GeneratedSecrets (s_td s2)" ?K s2 "[]" "[]"]
      write_secrets_frame [of "td_GeneratedSecrets (s_td s2)" "configured s" ns s2 pf "[]" "[]"] s3 g2 by simp_all
  obtain s4 where s4: "finish_namespace pf (ns_name ns) [] s3 = (Ok ([], []), s4)" "shrinks st {} s3 s4"
    "s_td s4 = (s_td s3)\<lparr>td_ProvisionedNamespaces := td_ProvisionedNamespaces (s_td s3) @ [ns_name ns]\<rparr>"
    using finish_namespace_live by blast
  have run: "manage_namespace pf ns [] [] s = (Ok ([], []), s4)"
    using s1(1) s2 s3 s4(1) by (simp add: manage_namespace_def)
  have "shrinks st ?K s s1" using s1(2) by (simp add: shrinks_def)
  moreover have "shrinks st ?K s1 s2" "shrinks st ?K s2 s3" "shrinks st ?K s3 s4"
    using changes_shrinks [OF c2] changes_shrinks [OF c3] s4(2) by (auto intro: shrinks_mono)
  ultimately have "shrinks st ?K s s4" using sh.trans by blast
  moreover have "progress s s4" using manage_namespace_progress [of s pf ns "[]" "[]"] run by simp
  moreover have "td_FailedNamespaces (s_td s4) = td_FailedNamespaces (s_td s)"
    using i1 tf w3 s4(3) by (simp add: idle_def keeps_def token_frame_def write_frame_def)
  moreover have "td_Token (s_td s4) \<noteq> []"
    using token_nonempty [OF s2 tok(2)] write_secrets_token [of pf ns "td_GeneratedSecrets (s_td s2)" "[]" "[]" s2] s3 s4(3) by simp
  ultimately show ?thesis using run by blast
qed

subsection \<open>All namespaces\<close>

lemma manage_namespaces_live:
  "distinct (map ns_name nss) \<Longrightarrow> \<forall>n \<in> set nss. ns_name n \<noteq> [] \<Longrightarrow>
   free_or_owned pf st (sr_name (s_sr s)) (ns_name ` set nss \<times> configured s) s \<Longrightarrow>
   list_all valid_secret (td_GeneratedSecrets (s_td s)) \<Longrightarrow> token_obtainable pf s \<Longrightarrow> token_law pf \<Longrightarrow>
   \<exists>s'. manage_namespaces pf nss [] [] s = (Ok (), s') \<and> td_FailedNamespaces (s_td s') = td_FailedNamespaces (s_td s)"
proof (induction nss arbitrary: s)
  case (Cons n nss)
  let ?K = "{ns_name n} \<times> configured s"
  have other: "ns_name n \<notin> ns_name ` set nss" using Cons.prems(1) by simp
  have "free_or_owned pf st (sr_name (s_sr s)) ?K s"
    using Cons.prems(3) by (auto simp: free_or_owned_def)
  then obtain s1 where s1: "manage_namespace pf n [] [] s = (Ok ([], []), s1)" "progress s s1" "shrinks st ?K s s1"
    "td_FailedNamespaces (s_td s1) = td_FailedNamespaces (s_td s)" "td_Token (s_td s1) \<noteq> []"
    using manage_namespace_live Cons.prems by (metis list.set_intros(1))
  have same: "td_GeneratedSecrets (s_td s1) = td_GeneratedSecrets (s_td s)" "sr_Meta (s_sr s1) = sr_Meta (s_sr s)"
    using s1(2) by (simp_all add: progress_def)
  have "free_or_owned pf st (sr_name (s_sr s)) (ns_name ` set nss \<times> configured s) s"
    using Cons.prems(3) by (auto simp: free_or_owned_def)
  then have "free_or_owned pf st (sr_name (s_sr s)) (ns_name ` set nss \<times> configured s) s1"
    by (rule free_or_owned_shrinks [OF _ s1(3)]) (use other in \<open>simp add: Times_Int_distrib1 [symmetric]\<close>)
  then have "\<exists>s'. manage_namespaces pf nss [] [] s1 = (Ok (), s') \<and> td_FailedNamespaces (s_td s') = td_FailedNamespaces (s_td s1)"
    using Cons.prems same by (intro Cons.IH token_kept [OF s1(5)]) simp_all
  then show ?case using s1(1,4) by auto
qed simp

lemma ManagingSecrets_live:
  assumes "ready s" "distinct (map ns_name (td_NamespaceList (s_td s)))" "\<forall>n \<in> set (td_NamespaceList (s_td s)). ns_name n \<noteq> []"
    and "free_or_owned pf st (sr_name (s_sr s)) (ns_name ` set (td_NamespaceList (s_td s)) \<times> configured s) s"
    and "token_obtainable pf s" "token_law pf"
  shows "\<exists>s'. ManagingSecrets pf s = (Ok (), s') \<and> td_FailedNamespaces (s_td s') = []"
proof -
  obtain s1 where d: "DeleteOutdatedSecrets pf (sr_name (s_sr s)) (st_ProvisionedNamespaces (sr_Status (s_sr s))) s = (Ok [], s1)"
    "shrinks st {} s s1" unfolding DeleteOutdatedSecrets_def using delete_removed_live by blast
  have i: "idle s s1"
    using idle_delete_removed [of s pf "sr_name (s_sr s)" "td_GeneratedSecrets (s_td s)"] d(1)
    unfolding DeleteOutdatedSecrets_def by (metis snd_conv)
  define s2 where "s2 = upd_td (\<lambda>t. t\<lparr>td_FailedNamespaces := [], td_RequeueInterval := s_RequeueInterval s1,
      td_SecretManagedByNamespaces := []\<rparr>) s1"
  have tok: "token_obtainable pf s2"
    using assms(5) i by (simp add: s2_def token_obtainable_def idle_def keeps_def login_details_def)
  have "free_or_owned pf st (sr_name (s_sr s)) (ns_name ` set (td_NamespaceList (s_td s)) \<times> configured s) s2"
    using free_or_owned_shrinks [OF assms(4) d(2)] by (simp add: s2_def free_or_owned_def)
  then obtain s' where "manage_namespaces pf (td_NamespaceList (s_td s)) [] [] s2 = (Ok (), s')" "td_FailedNamespaces (s_td s') = []"
    using manage_namespaces_live [of "td_NamespaceList (s_td s)" s2] assms i tok
    by (auto simp: s2_def idle_def keeps_def ready_def)
  then show ?thesis using d(1) i by (simp add: ManagingSecrets_def s2_def Let_def idle_def keeps_def)
qed

end

text \<open>The services of the sign-in give the token.\<close>

lemma sign_in_obtains:
  assumes "sign_in_law pf" "web_identity_resource (s_sr s) (td_ArtifactoryUrl (s_td s))" "keys_derivable pf (s_cache s)"
  shows "token_obtainable pf s"
proof -
  have "fst (HandlingToken pf s') = Ok ()"
    if "s_sr s' = s_sr s" "s_cache s' = s_cache s" "login_details (s_td s') = login_details (s_td s)" for s'
  proof -
    have "td_ArtifactoryUrl (s_td s') = td_ArtifactoryUrl (s_td s)"
      using arg_cong [OF that(3), of td_ArtifactoryUrl] by (simp add: login_details_def)
    then show ?thesis
      using sign_in.HandlingToken_answers [OF sign_in.intro [OF assms(1)], of s'] assms(2,3) that(1,2) by auto
  qed
  then show ?thesis by (simp add: token_obtainable_def)
qed

interpretation mem_live: healthy memory mem_lookup
  by unfold_locales (rule memory_live_law)

lemma memory_keys: "keys_derivable memory (Some live_key)"
  by (auto simp: keys_derivable_def memory_ops retrievePrivateKey_def live_key_def Let_def)

lemma memory_web_identity:
  "sp_AuthType (sr_Spec r) = WebIdentityAuthType \<Longrightarrow> \<not> sec_Enabled (sp_Security (sr_Spec r)) \<Longrightarrow>
   web_identity_resource r ''art.example''"
  using memory_post by (auto simp: web_identity_resource_def is_Ok_iff)

section \<open>A rotation succeeds\<close>

text \<open>
  The management of the secrets ends without an error and without a failed namespace, and every secret of
  every selected namespace is current.
\<close>

lemma rotation_ends:
  assumes "store_laws pf st" "live_law pf st" "token_law pf" "token_obtainable pf s" "ready s"
    and "distinct (map ns_name (td_NamespaceList (s_td s)))" "[] \<notin> ns_name ` set (td_NamespaceList (s_td s))"
    and "free_or_owned pf st (sr_name (s_sr s)) (ns_name ` set (td_NamespaceList (s_td s)) \<times> configured s) s"
  shows "\<exists>s'. ManagingSecrets pf s = (Ok (), s') \<and> failed s' = {} \<and>
    (\<forall>n \<in> set (td_NamespaceList (s_td s)). \<forall>g \<in> set (td_GeneratedSecrets (s_td s)). is_current st s' (ns_name n) g)"
proof -
  have H: "healthy pf st" by (intro healthy.intro lawful.intro healthy_axioms.intro assms)
  have ns: "\<forall>n \<in> set (td_NamespaceList (s_td s)). ns_name n \<noteq> []" using assms(7) by force
  obtain s' where s': "ManagingSecrets pf s = (Ok (), s')" "td_FailedNamespaces (s_td s') = []"
    using healthy.ManagingSecrets_live [OF H assms(5,6) ns assms(8,4,3)] by blast
  have "configured s \<subseteq> managed s' (ns_name n)" if "n \<in> set (td_NamespaceList (s_td s))" for n
    using ManagingSecrets_ok [OF s'(1) ns] that s'(2) by auto
  moreover have "all_current st s'" "td_GeneratedSecrets (s_td s') = td_GeneratedSecrets (s_td s)"
    using lawful.ManagingSecrets_current [OF lawful.intro [OF assms(1)] s'(1) assms(3,5,6) ns] by simp_all
  ultimately show ?thesis using s' unfolding all_current_def by (auto simp: image_subset_iff)
qed

end
