(* ===== verification/Reconcile_Live.thy ===== *)
theory Reconcile_Live
  imports Rotation_Live
begin

text \<open>
  A reconciliation that must succeed: on a settled and valid resource, with a cluster, an AWS account
  and an Artifactory that answer, \<open>Reconcile\<close> ends with every secret current, an empty list of failures
  in the status, and the configured interval.
\<close>

section \<open>Resources\<close>

text \<open>What the API server keeps of a resource it is sent.\<close>

definition same_resource :: "SecretRotator \<Rightarrow> SecretRotator \<Rightarrow> bool" where
  "same_resource r x \<longleftrightarrow> sr_Spec x = sr_Spec r \<and> sr_Status x = sr_Status r \<and> sr_name x = sr_name r"

text \<open>
  Calls on resources, namespaces and pods leave the secrets alone; a status is accepted, a patch may be
  refused.
\<close>

definition resource_law :: "'w platform \<Rightarrow> ('w \<Rightarrow> string \<times> string \<Rightarrow> Secret option) \<Rightarrow> bool" where
  "resource_law pf st \<longleftrightarrow>
     (\<forall>req. only_at st {} (pf_GetRotator pf req)) \<and> (\<forall>b r. only_at st {} (pf_StatusPatch pf b r)) \<and>
     (\<forall>r. only_at st {} (pf_StatusUpdate pf r)) \<and> (\<forall>sel. only_at st {} (pf_ListNamespaces pf sel)) \<and>
     (\<forall>cs ns n. only_at st {} (pf_GetPod pf cs ns n)) \<and>
     (\<forall>cs ns n w. is_Ok (fst (pf_GetPod pf cs ns n w))) \<and>
     (\<forall>r w. \<exists>x. fst (pf_StatusUpdate pf r w) = Ok x \<and> same_resource r x) \<and>
     (\<forall>b r w. (\<exists>e. fst (pf_StatusPatch pf b r w) = Err e) \<or> (\<exists>x. fst (pf_StatusPatch pf b r w) = Ok x \<and> same_resource r x))"

lemma memory_resource_law: "resource_law memory mem_lookup"
  by (simp add: resource_law_def only_at_def memory_ops mem_get_rotator_def mem_put_rotator_def mem_lookup_def same_resource_def)

text \<open>A resource past its first cycle and not being deleted.\<close>

definition settled :: "'w platform \<Rightarrow> SecretRotator \<Rightarrow> bool" where
  "settled pf r \<longleftrightarrow> st_Conditions (sr_Status r) \<noteq> [] \<and> pf_ContainsFinalizer pf r SecretRotatorFinalizer \<and>
     om_DeletionTimestamp (sr_Meta r) = None \<and> wf_map (st_SecretManagedByNamespaces (sr_Status r))"

text \<open>A valid specification, and the namespaces it selects in a world.\<close>

definition valid_spec :: "'w platform \<Rightarrow> 'w \<Rightarrow> SecretRotatorSpec \<Rightarrow> Namespace list \<Rightarrow> bool" where
  "valid_spec pf w spec items \<longleftrightarrow>
     spec_secrets spec \<noteq> [] \<and> validate_secrets [] (spec_secrets spec) = None \<and> sp_ArtifactoryUrl spec \<noteq> [] \<and>
     items \<noteq> [] \<and> distinct (map ns_name items) \<and> [] \<notin> ns_name ` set items \<and>
     (\<exists>sel. pf_LabelSelectorAsSelector pf (sp_NamespaceSelector spec) = Ok sel \<and>
        fst (pf_ListNamespaces pf sel w) = Ok items)"

text \<open>The resource, the key cache and the secrets are left alone.\<close>

definition calm :: "('w \<Rightarrow> string \<times> string \<Rightarrow> Secret option) \<Rightarrow> 'w state \<Rightarrow> 'w state \<Rightarrow> bool" where
  "calm st s s' \<longleftrightarrow> s_sr s' = s_sr s \<and> s_cache s' = s_cache s \<and> st (s_world s') = st (s_world s)"

interpretation cm: step_rel "calm st" for st
  by unfold_locales (auto simp: calm_def)

lemma calm_call: "only_at st {} f \<Longrightarrow> calm st s (snd (call f c s))"
  by (auto simp: calm_def only_at_def call_def case_prod_beta Let_def)

lemma calm_upd [simp]: "calm st s (s'\<lparr>s_td := t\<rparr>) \<longleftrightarrow> calm st s s'" "calm st (s\<lparr>s_td := t\<rparr>) s' \<longleftrightarrow> calm st s s'"
  by (simp_all add: calm_def)

locale working = healthy pf st + sign_in pf for pf :: "'w platform" and st +
  assumes tokens: "token_law pf" and resources: "resource_law pf st"
begin

lemma res:
  "only_at st {} (pf_GetRotator pf req)" "only_at st {} (pf_StatusPatch pf b r)" "only_at st {} (pf_StatusUpdate pf r)"
  "only_at st {} (pf_ListNamespaces pf sel)" "only_at st {} (pf_GetPod pf cs ns n)" "is_Ok (fst (pf_GetPod pf cs ns n w))"
  "\<exists>x. fst (pf_StatusUpdate pf r w) = Ok x \<and> same_resource r x"
  using resources unfolding resource_law_def by blast+

lemma patch_answer:
  "(\<exists>e. fst (pf_StatusPatch pf b r w) = Err e) \<or> (\<exists>x. fst (pf_StatusPatch pf b r w) = Ok x \<and> same_resource r x)"
  using resources unfolding resource_law_def by blast

subsection \<open>Validation\<close>

lemma k8s_client: "\<exists>cs. GetK8sClient pf s = (Ok cs, s)"
proof -
  obtain config where "pf_GetConfig pf (s_world s) = Ok config" using services(1) unfolding is_Ok_iff by blast
  moreover obtain cs where "pf_NewForConfig pf config = Ok cs" using services(2) unfolding is_Ok_iff by blast
  ultimately show ?thesis by (simp add: GetK8sClient_def)
qed

lemma GetServiceAccount_live:
  "\<exists>sa s'. GetServiceAccount pf s = (Ok sa, s') \<and> calm st s s' \<and> map_get [] (om_Annotations (sa_Meta sa)) AwsRoleARNKey \<noteq> []"
proof -
  obtain cs where cs: "GetK8sClient pf s = (Ok cs, s)" using k8s_client by blast
  define ns where "ns = pf_Getenv pf ''POD_NAMESPACE'' (s_world s)"
  define f where "f = pf_GetPod pf cs ns (pf_Getenv pf ''POD_NAME'' (s_world s))"
  define c where "c = GetPodCall ns (pf_Getenv pf ''POD_NAME'' (s_world s))"
  have "is_Ok (fst (f (s_world s)))" by (simp add: f_def res)
  then obtain pod s1 where 1: "call f c s = (Ok pod, s1)" by (rule call_ok)
  define g where "g = pf_GetServiceAccount pf cs ns (pod_ServiceAccountName pod)"
  obtain sa where sa: "fst (g (s_world s1)) = Ok sa" "map_get [] (om_Annotations (sa_Meta sa)) RoleARNKey \<noteq> []"
    unfolding g_def using account by blast
  obtain s2 where 2: "call g (GetServiceAccountCall ns (pod_ServiceAccountName pod)) s1 = (Ok sa, s2)"
    using sa(1) call_fst [of g] by (metis prod.collapse)
  have "calm st s s1" "calm st s1 s2"
    using calm_call [of st f s c] calm_call [of st g s1 "GetServiceAccountCall ns (pod_ServiceAccountName pod)"] 1 2
    by (simp_all add: f_def g_def res frame)
  then have "calm st s s2" by (rule cm.trans)
  then show ?thesis
    using cs 1 2 sa(2) unfolding GetServiceAccount_def Let_def
    by (simp add: f_def c_def g_def ns_def AwsRoleARNKey_def RoleARNKey_def)
qed

lemma ValidateObjectSpec_live:
  assumes "valid_spec pf (s_world s) (sr_Spec (s_sr s)) items"
  shows "\<exists>s'. ValidateObjectSpec pf s = (Ok (), s') \<and> calm st s s' \<and> td_NamespaceList (s_td s') = items"
proof -
  define spec where "spec = sr_Spec (s_sr s)"
  obtain sel where sel: "pf_LabelSelectorAsSelector pf (sp_NamespaceSelector spec) = Ok sel"
    "fst (pf_ListNamespaces pf sel (s_world s)) = Ok items"
    using assms unfolding valid_spec_def spec_def by blast
  define s1 where "s1 = upd_td (\<lambda>t. t\<lparr>td_GeneratedSecrets := spec_secrets spec, td_NamespaceSelector := sel, td_NamespaceList := []\<rparr>) s"
  define s2 where "s2 = snd (call (pf_ListNamespaces pf sel) (ListNamespacesCall sel) s1)"
  have 2: "call (pf_ListNamespaces pf sel) (ListNamespacesCall sel) s1 = (Ok items, s2)"
    by (simp add: s2_def prod_eq_iff call_fst sel s1_def)
  define s3 where "s3 = upd_td (\<lambda>t. t\<lparr>td_NamespaceList := items,
     td_IAMRoleAwsRegion := (if sp_AwsRegion spec = [] then AwsRegion else sp_AwsRegion spec),
     td_ArtifactoryUrl := strip_scheme (sp_ArtifactoryUrl spec)\<rparr>) s2"
  obtain sa s4 where 4: "GetServiceAccount pf s3 = (Ok sa, s4)" "calm st s3 s4"
    "map_get [] (om_Annotations (sa_Meta sa)) AwsRoleARNKey \<noteq> []" using GetServiceAccount_live by blast
  have "calm st s1 s2" unfolding s2_def by (rule calm_call [OF res(4)])
  then have "calm st s s4" using 4(2) cm.trans [of st s s2 s4] by (simp add: s1_def s3_def)
  moreover have "ValidateObjectSpec pf s = (Ok (), s4)"
    using assms sel(1) 2 4(1,3) unfolding ValidateObjectSpec_def Let_def spec_def [symmetric] valid_spec_def
    by (simp add: s1_def s3_def)
  moreover have "td_NamespaceList (s_td s4) = items"
    using GetServiceAccount_keeps [OF 4(1)] by (simp add: s3_def)
  ultimately show ?thesis by blast
qed

subsection \<open>Initialisation\<close>

text \<open>Of a settled resource only the validation and the deferred patch are left.\<close>

lemma DeferPatch_live:
  "\<exists>s'. DeferPatch pf b s = (Ok (), s') \<and> s_td s' = s_td s \<and> s_cache s' = s_cache s \<and>
     st (s_world s') = st (s_world s) \<and> same_resource (s_sr s) (s_sr s')"
proof -
  let ?f = "pf_StatusPatch pf b (s_sr s)"
  obtain u s1 where c: "call ?f (StatusPatchCall (s_sr s)) s = (u, s1)" by fastforce
  then have u: "(\<exists>e. u = Err e) \<or> (\<exists>x. u = Ok x \<and> same_resource (s_sr s) x)"
    using patch_answer [of b "s_sr s" "s_world s"] call_fst [of ?f "StatusPatchCall (s_sr s)" s] by simp
  have "quiet s s1" "calm st s s1"
    using quiet_call [of s ?f "StatusPatchCall (s_sr s)"] calm_call [OF res(2), of s b "s_sr s" "StatusPatchCall (s_sr s)"] c by simp_all
  then show ?thesis
    using u c by (auto simp: DeferPatch_def quiet_def calm_def same_resource_def)
qed

lemma InitializeResource_live:
  assumes "settled pf (s_sr s)" "valid_spec pf (s_world s) (sr_Spec (s_sr s)) items"
    and sec: "sec_Enabled (sp_Security (sr_Spec (s_sr s))) \<longrightarrow> sec_InsecureSkipVerify (sp_Security (sr_Spec (s_sr s)))"
  shows "\<exists>s1 s'. ValidateObjectSpec pf s = (Ok (), s1) \<and> td_NamespaceList (s_td s1) = items \<and> InitializeResource pf req s = (Ok (), s') \<and>
    s_td s' = s_td s1 \<and> s_cache s' = s_cache s \<and> st (s_world s') = st (s_world s) \<and> same_resource (s_sr s) (s_sr s')"
proof -
  obtain s1 where 1: "ValidateObjectSpec pf s = (Ok (), s1)" "calm st s s1" "td_NamespaceList (s_td s1) = items"
    using ValidateObjectSpec_live [OF assms(2)] by blast
  obtain s2 where 2: "DeferPatch pf (s_sr s) s1 = (Ok (), s2)" "s_td s2 = s_td s1" "s_cache s2 = s_cache s1"
    "st (s_world s2) = st (s_world s1)" "same_resource (s_sr s1) (s_sr s2)" using DeferPatch_live by blast
  have "validate_and_certs pf s = (Ok (), s1)"
    using 1 sec by (auto simp: validate_and_certs_def Let_def calm_def)
  then have "InitializeResource pf req s = (Ok (), s2)"
    using assms(1) 2(1) unfolding settled_def
    by (simp add: InitializeResource_def HandleConditions_def HandleFinalizers_def SecretRotatorChecker_def with_defer_def)
  then show ?thesis using 1 2 by (auto simp: calm_def)
qed

subsection \<open>Status\<close>

lemma UpdateStatus_live:
  "\<exists>s'. UpdateStatus pf s = (Ok (), s') \<and> st (s_world s') = st (s_world s) \<and>
     last (s_calls s') = EventfCall ''Normal'' ''Secret rotated successfully'' [] [] \<and>
     s_td s' = (s_td s)\<lparr>td_ProvisionedNamespaces := sort (td_ProvisionedNamespaces (s_td s))\<rparr> \<and>
     sr_Spec (s_sr s') = sr_Spec (s_sr s) \<and>
     st_FailedNamespaces (sr_Status (s_sr s')) = ToNamespaceFailures (td_FailedNamespaces (s_td s))"
proof -
  define s1 where "s1 = set_condition pf TypeAvailableSecretRotator ''True'' ''Reconciling'' (status_message (s_td s)) s"
  define s2 where "s2 = upd_td (\<lambda>t. t\<lparr>td_ProvisionedNamespaces := sort (td_ProvisionedNamespaces t)\<rparr>) s1"
  define s3 where "s3 = upd_sr (\<lambda>r. r\<lparr>sr_Status := (sr_Status r)
                \<lparr>st_FailedNamespaces := ToNamespaceFailures (td_FailedNamespaces (s_td s2)),
                 st_AuthType := td_AuthType (s_td s2),
                 st_ProvisionedNamespaces := td_ProvisionedNamespaces (s_td s2),
                 st_SecretManagedByNamespaces := td_SecretManagedByNamespaces (s_td s2)\<rparr>\<rparr>) s2"
  let ?f = "pf_StatusUpdate pf (s_sr s3)"
  obtain x where x: "fst (?f (s_world s3)) = Ok x" "same_resource (s_sr s3) x" using res(7) by blast
  define s4 where "s4 = snd (call ?f (StatusUpdateCall (s_sr s3)) s3)"
  have c: "call ?f (StatusUpdateCall (s_sr s3)) s3 = (Ok x, s4)" by (simp add: s4_def prod_eq_iff call_fst x)
  have q: "quiet s3 s4" "calm st s3 s4" unfolding s4_def by (rule quiet_call, rule calm_call [OF res(3)])
  have "UpdateStatus pf s = (Ok (), record_call (EventfCall ''Normal'' ''Secret rotated successfully'' [] []) (s4\<lparr>s_sr := x\<rparr>))"
    using c unfolding UpdateStatus_def Let_def s1_def [symmetric] s2_def [symmetric] s3_def [symmetric]
    by (simp add: status_update_def)
  then show ?thesis
    using q x(2) by (simp add: record_call_def quiet_def calm_def same_resource_def s3_def s2_def s1_def set_condition_def)
qed

subsection \<open>The cycle\<close>

lemma Reconcile_live:
  assumes get: "pf_GetRotator pf req (s_world s) = (Ok r, w)"
    and r: "settled pf r" "valid_spec pf w (sr_Spec r) items" "web_identity_resource r (strip_scheme (sp_ArtifactoryUrl (sr_Spec r)))"
    and keys: "keys_derivable pf (s_cache s)"
    and free: "free_or_owned pf st (sr_name r) (ns_name ` set items \<times> gs_SecretName ` set (spec_secrets (sr_Spec r))) s"
  shows "\<exists>s'. Reconcile pf req s = (Ok (\<lparr>res_Requeue = False, res_RequeueAfter = next_interval s'\<rparr>, None), s') \<and>
    last (s_calls s') = EventfCall ''Normal'' ''Secret rotated successfully'' [] [] \<and>
    st_FailedNamespaces (sr_Status (s_sr s')) = [] \<and>
    (\<forall>n \<in> set items. \<forall>g \<in> set (spec_secrets (sr_Spec r)). is_current st s' (ns_name n) g)"
proof -
  define s0 where "s0 = s\<lparr>s_td := empty_TokenDetails, s_sr := empty_SecretRotator\<rparr>"
  define s1 where "s1 = s0\<lparr>s_world := w, s_calls := s_calls s0 @ [GetRotatorCall req (Ok r)], s_sr := r\<rparr>"
  have g: "get_rotator pf req s0 = (Ok (), s1)"
    using get by (simp add: get_rotator_def call_def s1_def s0_def)
  have "only_at st {} (pf_GetRotator pf req)" by (rule res)
  then have "st w = st (s_world s)" using get by (auto simp: only_at_def fun_eq_iff) (metis snd_conv)+
  then have q: "s_td s1 = empty_TokenDetails" "s_sr s1 = r" "s_cache s1 = s_cache s" "st (s_world s1) = st (s_world s)" "s_world s1 = w"
    by (simp_all add: s1_def s0_def)
  obtain sv s2 where v: "ValidateObjectSpec pf s1 = (Ok (), sv)" "td_NamespaceList (s_td sv) = items"
    and i: "InitializeResource pf req s1 = (Ok (), s2)" "s_td s2 = s_td sv" "s_cache s2 = s_cache s1"
      "st (s_world s2) = st (s_world s1)" "same_resource r (s_sr s2)"
    using InitializeResource_live [of s1 items req] r q(2,5) unfolding web_identity_resource_def by auto
  obtain sel region a b where d: "s_td s2 = empty_TokenDetails\<lparr>td_GeneratedSecrets := spec_secrets (sr_Spec r),
      td_NamespaceSelector := sel, td_NamespaceList := items, td_IAMRoleAwsRegion := region,
      td_ArtifactoryUrl := strip_scheme (sp_ArtifactoryUrl (sr_Spec r)),
      td_DefaultServiceAccountName := a, td_DefaultServiceAccountNamespace := b\<rparr>"
    using ValidateObjectSpec_details [OF v(1)] v(2) unfolding i(2) q(1,2) by auto
  have "token_obtainable pf s2"
    using r(3) keys i(3,5) q(3) d
    by (intro sign_in_obtains law) (auto simp: web_identity_resource_def same_resource_def)
  moreover have "ready s2"
    using r(1,2) i(5) d by (simp add: ready_def settled_def valid_spec_def same_resource_def validate_secrets_None_iff list_all_iff)
  moreover have "distinct (map ns_name (td_NamespaceList (s_td s2)))" "[] \<notin> ns_name ` set (td_NamespaceList (s_td s2))"
    using r(2) d by (auto simp: valid_spec_def)
  moreover have "free_or_owned pf st (sr_name (s_sr s2)) (ns_name ` set (td_NamespaceList (s_td s2)) \<times> configured s2) s2"
    using free i(4,5) q(4) d by (simp add: free_or_owned_def same_resource_def)
  ultimately obtain s3 where m: "ManagingSecrets pf s2 = (Ok (), s3)" "failed s3 = {}"
    "\<forall>n \<in> set items. \<forall>g \<in> set (spec_secrets (sr_Spec r)). is_current st s3 (ns_name n) g"
    using rotation_ends [OF laws live tokens, of s2] d by auto
  obtain s4 where u: "UpdateStatus pf s3 = (Ok (), s4)" "st (s_world s4) = st (s_world s3)"
     "last (s_calls s4) = EventfCall ''Normal'' ''Secret rotated successfully'' [] []"
     "s_td s4 = (s_td s3)\<lparr>td_ProvisionedNamespaces := sort (td_ProvisionedNamespaces (s_td s3))\<rparr>"
     "sr_Spec (s_sr s4) = sr_Spec (s_sr s3)" "st_FailedNamespaces (sr_Status (s_sr s4)) = ToNamespaceFailures (td_FailedNamespaces (s_td s3))"
    using UpdateStatus_live by blast
  define s5 where "s5 = s4\<lparr>s_RequeueInterval := next_interval s4\<rparr>"
  have next_interval: "next_interval s4 = next_interval s5" "s4\<lparr>s_RequeueInterval := next_interval s4\<rparr> = s5"
    by (simp_all add: s5_def next_interval_def split: option.split)
  have "Reconcile pf req s = (Ok (\<lparr>res_Requeue = False, res_RequeueAfter = next_interval s5\<rparr>, None), s5)"
    unfolding Reconcile_def Let_def s0_def [symmetric] using g i(1) m(1) u(1) next_interval by simp
  moreover have "is_current st s5 ns h" if "is_current st s3 ns h" for ns h
    using that u(2,4,5) desired_data_cong [of "s_td s5" "s_td s3" "s_sr s5" "s_sr s3"]
    by (simp add: s5_def is_current_def split: option.splits)
  ultimately show ?thesis using m(2,3) u(3,6) by (auto simp: s5_def ToNamespaceFailures_def)
qed

end

section \<open>A reconciliation succeeds\<close>

interpretation mem_working: working memory mem_lookup
  by unfold_locales (simp_all add: memory_resource_law token_law_def memory_ops mem_token_def)

text \<open>C4: on a settled and valid resource that uses web identity, with every secret absent or controlled by
  it and every service answering, \<open>Reconcile\<close> succeeds: it asks for the next call after the configured
  interval, its last act is the event of success, the status reports no failure, and every secret of the
  specification is current in every selected namespace.\<close>

theorem reconcile_succeeds:
  assumes "store_laws pf st" "live_law pf st" "sign_in_law pf" "token_law pf" "resource_law pf st"
    and "pf_GetRotator pf req (s_world s) = (Ok r, w)" "settled pf r" "valid_spec pf w (sr_Spec r) items"
    and "web_identity_resource r (strip_scheme (sp_ArtifactoryUrl (sr_Spec r)))" "keys_derivable pf (s_cache s)"
    and "free_or_owned pf st (sr_name r) (ns_name ` set items \<times> gs_SecretName ` set (spec_secrets (sr_Spec r))) s"
  shows "\<exists>s'. Reconcile pf req s = (Ok (\<lparr>res_Requeue = False, res_RequeueAfter = next_interval s'\<rparr>, None), s') \<and>
    last (s_calls s') = EventfCall ''Normal'' ''Secret rotated successfully'' [] [] \<and>
    st_FailedNamespaces (sr_Status (s_sr s')) = [] \<and>
    (\<forall>n \<in> set items. \<forall>g \<in> set (spec_secrets (sr_Spec r)). is_current st s' (ns_name n) g)"
proof -
  have "working pf st"
    by (intro working.intro healthy.intro lawful.intro sign_in.intro healthy_axioms.intro working_axioms.intro assms)
  from working.Reconcile_live [OF this assms(6-11)] show ?thesis .
qed

text \<open>The resource of the demonstration with web identity, read from the cluster in memory.\<close>

definition web_rotator :: SecretRotator where
  "web_rotator = live_rotator\<lparr>sr_Spec := (sr_Spec live_rotator)\<lparr>sp_AuthType := WebIdentityAuthType\<rparr>\<rparr>"

definition web_start :: "mem state" where
  "web_start = live_state\<lparr>s_world := demo_world\<lparr>m_rotators := [((''op'', ''rot''), web_rotator)]\<rparr>\<rparr>"

theorem reconcile_succeeds_witness:
  "\<exists>s'. Reconcile memory (''op'', ''rot'') web_start = (Ok (\<lparr>res_Requeue = False, res_RequeueAfter = next_interval s'\<rparr>, None), s') \<and>
     is_current mem_lookup s' ''ns'' \<lparr>gs_SecretName = ''a'', gs_SecretType = SecretTypeGeneric, gs_Scope = []\<rparr>"
proof -
  let ?w = "s_world web_start"
  have "pf_GetRotator memory (''op'', ''rot'') ?w = (Ok web_rotator, ?w)"
    by (simp add: web_start_def memory_ops mem_get_rotator_def)
  moreover have "settled memory web_rotator"
    by (simp add: settled_def web_rotator_def live_defs memory_ops)
  moreover have "valid_spec memory ?w (sr_Spec web_rotator) [demo_namespace ''ns'']"
    by (simp add: valid_spec_def web_start_def web_rotator_def live_defs memory_ops spec_secrets_def secret_types Let_def)
  moreover have "web_identity_resource web_rotator (strip_scheme (sp_ArtifactoryUrl (sr_Spec web_rotator)))"
  proof -
    have "strip_scheme (sp_ArtifactoryUrl (sr_Spec web_rotator)) = ''art.example''"
      by (simp add: web_rotator_def live_rotator_def) code_simp
    then show ?thesis by (simp add: memory_web_identity web_rotator_def live_defs)
  qed
  moreover have "keys_derivable memory (s_cache web_start)"
    by (simp add: web_start_def live_state_def memory_keys)
  moreover have "free_or_owned memory mem_lookup (sr_name web_rotator)
      (ns_name ` set [demo_namespace ''ns''] \<times> gs_SecretName ` set (spec_secrets (sr_Spec web_rotator))) web_start"
    by (simp add: free_or_owned_def web_start_def web_rotator_def live_defs mem_lookup_def IsSecretOwnedBy_def memory_ops named_def spec_secrets_def)
  moreover have "token_law memory" by (simp add: token_law_def memory_ops mem_token_def)
  ultimately have "\<exists>s'. Reconcile memory (''op'', ''rot'') web_start = (Ok (\<lparr>res_Requeue = False, res_RequeueAfter = next_interval s'\<rparr>, None), s') \<and>
    last (s_calls s') = EventfCall ''Normal'' ''Secret rotated successfully'' [] [] \<and>
    st_FailedNamespaces (sr_Status (s_sr s')) = [] \<and>
    (\<forall>n \<in> set [demo_namespace ''ns'']. \<forall>g \<in> set (spec_secrets (sr_Spec web_rotator)). is_current mem_lookup s' (ns_name n) g)"
    by (intro reconcile_succeeds [OF memory_store_laws memory_live_law memory_sign_in_law _ memory_resource_law])
  moreover have "ns_name (demo_namespace ''ns'') = ''ns''" "spec_secrets (sr_Spec web_rotator) =
      [\<lparr>gs_SecretName = ''a'', gs_SecretType = SecretTypeGeneric, gs_Scope = []\<rparr>]"
    by (simp_all add: web_rotator_def live_defs spec_secrets_def)
  ultimately show ?thesis by auto
qed

end
