(* ===== verification/Unread_Secrets.thy ===== *)
theory Unread_Secrets
  imports Operator_Demo
begin

text \<open>
  A secret that the operator cannot read in a cycle: it is skipped, so it is not recorded as managed, and
  the clean-up at the end of the round takes it for one that is no longer configured.
\<close>

section \<open>Skipped secrets are not recorded\<close>

definition unreadable :: "'w platform \<Rightarrow> string \<Rightarrow> string \<Rightarrow> bool" where
  "unreadable pf ns n \<longleftrightarrow> (\<forall>w. \<exists>e. fst (pf_GetSecret pf ns n w) = Err e \<and> \<not> pf_IsNotFound pf e)"

lemma scan_secrets_skips:
  "scan_secrets pf ns gs f sk s = (Ok (f', sk'), s') \<Longrightarrow> unreadable pf ns n \<Longrightarrow>
   (map_of sk n \<noteq> None \<longrightarrow> map_of sk' n \<noteq> None) \<and> (n \<in> gs_SecretName ` set gs \<longrightarrow> map_of sk' n \<noteq> None)"
proof (induction gs arbitrary: f sk s)
  case (Cons g gs)
  obtain r s1 where g: "GetSecret pf ns (gs_SecretName g) s = (r, s1)" by fastforce
  show ?case
  proof (cases "\<exists>m. scan_secrets pf ns gs (f @ [m]) (AList.update (gs_SecretName g) ns sk) s1 = (Ok (f', sk'), s')")
    case True
    then obtain m where "scan_secrets pf ns gs (f @ [m]) (AList.update (gs_SecretName g) ns sk) s1 = (Ok (f', sk'), s')" ..
    from Cons.IH [OF this Cons.prems(2)] show ?thesis by (auto simp: update_conv' split: if_splits)
  next
    case False
    then have other: "scan_secrets pf ns gs f sk s1 = (Ok (f', sk'), s')"
      using Cons.prems(1) g by (cases r) (auto split: if_splits)
    have "gs_SecretName g \<noteq> n"
    proof
      assume "gs_SecretName g = n"
      then obtain e where "r = Err e" "\<not> pf_IsNotFound pf e"
        using g Cons.prems(2) [unfolded unreadable_def, rule_format, of "s_world s"]
        by (auto simp: GetSecret_def call_def Let_def split: prod.splits)
      then show False using Cons.prems(1) g False by auto
    qed
    with Cons.IH [OF other Cons.prems(2)] show ?thesis by auto
  qed
qed simp

lemma write_secrets_skips:
  "gs_SecretName ` set gs \<inter> {n. map_of sk n = None} \<subseteq> names \<Longrightarrow>
   write_frame (ns_name ns) names s (snd (write_secrets pf ns gs sk f s))"
proof (induction gs arbitrary: f s)
  case (Cons g gs)
  show ?case
  proof (cases "map_of sk (gs_SecretName g) = None")
    case True
    then have g: "gs_SecretName g \<in> names" using Cons.prems by auto
    have step: "write_frame (ns_name ns) names s1
        (snd (write_secrets pf ns gs sk f (add_managed (ns_name ns) (gs_SecretName g) s1)))" for f s1
      using wr.trans [OF add_managed_frame [OF g] Cons.IH] Cons.prems by auto
    show ?thesis
      using Cons step
      by (auto intro!: wr.if_err_rel keeps_write_frame [OF CreateOrUpdateSecrets_keeps] split: option.split)
  qed (use Cons in auto)
qed simp

section \<open>The clean-up of the last round\<close>

text \<open>Calls are only added.\<close>

interpretation any: call_guard "\<lambda>_ _. True"
  by unfold_locales

abbreviation adds_calls :: "'w state \<Rightarrow> 'w state \<Rightarrow> bool" where
  "adds_calls \<equiv> guarded (\<lambda>_ _. True)"

lemma adds_calls_iff: "adds_calls s s' \<longleftrightarrow> (\<exists>cs. s_calls s' = s_calls s @ cs)"
  by (simp add: guarded_def obeys_def)

lemmas adds_intros = any.gd.if_err_rel guarded_call

lemma adds_upd: "adds_calls s (upd_td f s)"
  by (simp add: adds_calls_iff)

lemma adds_scan: "adds_calls s (snd (scan_secrets pf ns gs f sk s))"
proof (induction gs arbitrary: f sk s)
  case (Cons g gs)
  then show ?case by (auto simp: GetSecret_def intro!: adds_intros)
qed (simp add: adds_calls_iff)

lemma adds_token: "adds_calls s (snd (HandlingToken pf s))"
  using tf_HandlingToken [of s pf] by (auto simp: token_frame_def adds_calls_iff)

lemma adds_create: "adds_calls s (snd (CreateOrUpdateSecrets pf ns n t s))"
  by (auto simp: CreateOrUpdateSecrets_def write_secret_def Let_def intro!: adds_intros split: outcome.split)

lemma adds_write: "adds_calls s (snd (write_secrets pf ns gs sk f s))"
proof (induction gs arbitrary: f s)
  case (Cons g gs)
  have "adds_calls s1 (snd (write_secrets pf ns gs sk f (add_managed m n s1)))" for f s1 m n
    by (rule any.gd.trans [OF _ Cons.IH]) (simp add: add_managed_def adds_upd)
  then show ?case using Cons.IH by (auto intro!: any.gd.if_err_rel adds_create split: option.split)
qed (simp add: adds_calls_iff)

lemma finish_namespace_cleans:
  assumes "finish_namespace pf ns f s = (Ok r, s')" "wf_map (st_SecretManagedByNamespaces (sr_Status (s_sr s)))"
    and "n \<in> set (map_get [] (st_SecretManagedByNamespaces (sr_Status (s_sr s))) x)" "n \<notin> managed s x"
  shows "sr_Status (s_sr s') = sr_Status (s_sr s) \<and>
    (\<exists>cs. s_calls s' = s_calls s @ cs \<and> (managed s x \<noteq> {} \<longrightarrow> (x, n) \<in> delete_calls cs))"
proof -
  define s1 where "s1 = report_failures ns f s"
  have s1: "s_calls s1 = s_calls s" "s_sr s1 = s_sr s"
    "td_SecretManagedByNamespaces (s_td s1) = td_SecretManagedByNamespaces (s_td s)"
    by (simp_all add: s1_def report_failures_def)
  have rec: "map_of (st_SecretManagedByNamespaces (sr_Status (s_sr s))) x =
      Some (map_get [] (st_SecretManagedByNamespaces (sr_Status (s_sr s))) x)"
    using assms(3) by (cases "map_of (st_SecretManagedByNamespaces (sr_Status (s_sr s))) x") (simp_all add: map_get_def)
  then have some: "length (st_SecretManagedByNamespaces (sr_Status (s_sr s1))) > 0" using s1(2) by force
  obtain s2 where del: "DeleteOutdatedGeneratedSecrets pf s1 = (Ok (), s2)"
    and s': "s_calls s' = s_calls s2" "s_sr s' = s_sr s2"
    using assms(1) unfolding finish_namespace_def Let_def s1_def [symmetric] if_P [OF some] by (auto split: if_err_split_asm)
  have "wf_map (st_SecretManagedByNamespaces (sr_Status (s_sr s1)))" using assms(2) s1(2) by simp
  from DeleteOutdatedGeneratedSecrets_calls [OF this del] obtain cs where
    cs: "s2 = s1\<lparr>s_world := s_world s2, s_calls := s_calls s1 @ cs\<rparr>"
    and out: "Ok () = (Ok () :: unit outcome) \<longrightarrow> delete_calls cs =
      outdated (td_SecretManagedByNamespaces (s_td s1)) (st_SecretManagedByNamespaces (sr_Status (s_sr s1)))"
    by (elim exE conjE) (rule that)
  have "(x, n) \<in> delete_calls cs" if some: "managed s x \<noteq> {}"
  proof -
    obtain nws where "map_of (td_SecretManagedByNamespaces (s_td s)) x = Some nws" "map_get [] (td_SecretManagedByNamespaces (s_td s)) x = nws"
      using some by (cases "map_of (td_SecretManagedByNamespaces (s_td s)) x") (simp_all add: map_get_def)
    with rec assms(3,4) show ?thesis unfolding mp [OF out refl] s1 outdated_def by simp
  qed
  moreover have "s_calls s2 = s_calls s @ cs" by (subst cs) (simp add: s1)
  moreover have "s_sr s2 = s_sr s" by (subst cs) (simp add: s1)
  ultimately show ?thesis using s' by auto
qed

lemma manage_namespace_round:
  assumes "manage_namespace pf ns f sk s = (Ok r, s')" "unreadable pf x n" "n \<notin> managed s x"
    and "wf_map (st_SecretManagedByNamespaces (sr_Status (s_sr s)))"
    and "n \<in> set (map_get [] (st_SecretManagedByNamespaces (sr_Status (s_sr s))) x)"
  shows "n \<notin> managed s' x \<and> sr_Status (s_sr s') = sr_Status (s_sr s) \<and>
    (\<exists>cs. s_calls s' = s_calls s @ cs \<and> (managed s' x \<noteq> {} \<longrightarrow> (x, n) \<in> delete_calls cs))"
proof -
  obtain f1 sk1 s1 s2 f2 s3
    where scan: "scan_secrets pf (ns_name ns) (td_GeneratedSecrets (s_td s)) f sk s = (Ok (f1, sk1), s1)"
    and tok: "HandlingToken pf s1 = (Ok (), s2)"
    and wri: "write_secrets pf ns (td_GeneratedSecrets (s_td s2)) sk1 f1 s2 = (Ok f2, s3)"
    and fin: "finish_namespace pf (ns_name ns) f2 s3 = (Ok r, s')"
    using assms(1) unfolding manage_namespace_def by (auto split: if_err_split_asm)
  let ?names = "configured s \<inter> {n. map_of sk1 n = None}"
  have k1: "keeps s s1" using scan_secrets_keeps [of s pf "ns_name ns" _ f sk] scan by (metis snd_conv)
  have k2: "token_frame s1 s2" using tf_HandlingToken [of s1 pf] tok by simp
  have gen: "td_GeneratedSecrets (s_td s2) = td_GeneratedSecrets (s_td s)" "sr_Status (s_sr s2) = sr_Status (s_sr s)"
    "\<And>y. managed s2 y = managed s y"
    using k1 k2 by (simp_all add: keeps_def token_frame_def)
  have k3: "write_frame (ns_name ns) ?names s2 s3"
    using write_secrets_skips [of "td_GeneratedSecrets (s_td s2)" sk1 ?names ns s2 pf f1] wri gen by simp
  have st: "sr_Status (s_sr s3) = sr_Status (s_sr s)" using k3 gen by (simp add: write_frame_def)
  have "n \<notin> ?names" if "x = ns_name ns" using scan_secrets_skips [OF scan] assms(2) that by blast
  moreover have "managed s3 x \<subseteq> managed s x \<union> (if x = ns_name ns then ?names else {})"
    using k3 gen(3) unfolding write_frame_def by metis
  ultimately have n: "n \<notin> managed s3 x" using assms(3) by (cases "x = ns_name ns") auto
  have "managed s' x = managed s3 x" using finish_namespace_ok [OF fin] by blast
  moreover have "adds_calls s s3"
  proof -
    have "adds_calls s s1" using adds_scan scan by (metis snd_conv)
    moreover have "adds_calls s1 s2" using adds_token tok by (metis snd_conv)
    moreover have "adds_calls s2 s3" using adds_write wri by (metis snd_conv)
    ultimately show ?thesis by (blast intro: any.gd.trans)
  qed
  then obtain ds where "s_calls s3 = s_calls s @ ds" by (auto simp: adds_calls_iff)
  moreover obtain cs where "sr_Status (s_sr s') = sr_Status (s_sr s3)" "s_calls s' = s_calls s3 @ cs"
    "managed s3 x \<noteq> {} \<longrightarrow> (x, n) \<in> delete_calls cs"
    using finish_namespace_cleans [OF fin _ _ n] assms(4,5) unfolding st by auto
  ultimately show ?thesis using n st by (auto simp: delete_calls_def intro!: exI [of _ "ds @ cs"])
qed

lemma manage_namespaces_rounds:
  "manage_namespaces pf nss f sk s = (Ok (), s') \<Longrightarrow> unreadable pf x n \<Longrightarrow> n \<notin> managed s x \<Longrightarrow>
   wf_map (st_SecretManagedByNamespaces (sr_Status (s_sr s))) \<Longrightarrow>
   n \<in> set (map_get [] (st_SecretManagedByNamespaces (sr_Status (s_sr s))) x) \<Longrightarrow>
   n \<notin> managed s' x \<and> (\<exists>cs. s_calls s' = s_calls s @ cs \<and>
     (managed s' x \<noteq> {} \<longrightarrow> managed s x \<noteq> {} \<and> nss = [] \<or> (x, n) \<in> delete_calls cs))"
proof (induction nss arbitrary: f sk s)
  case (Cons ns nss)
  obtain r s1 where one: "manage_namespace pf ns f sk s = (Ok r, s1)" and
    rest: "manage_namespaces pf nss (fst r) (snd r) s1 = (Ok (), s')"
    using Cons.prems(1) by (auto split: if_err_split_asm)
  from manage_namespace_round [OF one Cons.prems(2-5)] obtain cs where
    r1: "n \<notin> managed s1 x" "sr_Status (s_sr s1) = sr_Status (s_sr s)" "s_calls s1 = s_calls s @ cs"
    "managed s1 x \<noteq> {} \<longrightarrow> (x, n) \<in> delete_calls cs" by auto
  from Cons.IH [OF rest Cons.prems(2) r1(1)] Cons.prems(4,5) obtain ds where
    "n \<notin> managed s' x" "s_calls s' = s_calls s1 @ ds"
    "managed s' x \<noteq> {} \<longrightarrow> managed s1 x \<noteq> {} \<and> nss = [] \<or> (x, n) \<in> delete_calls ds" by (auto simp: r1(2))
  with r1 show ?case by (auto simp: delete_calls_def intro!: exI [of _ "cs @ ds"])
qed simp

lemma adds_outdated: "adds_calls s (snd (DeleteOutdatedSecrets pf rot prov s))"
proof -
  have del: "adds_calls s (snd (DeleteSecret pf n rot ns t s))" for n ns t s
    by (auto simp: DeleteSecret_def GetSecret_def Let_def intro!: adds_intros)
  have gen: "adds_calls s (snd (delete_generated pf rot ns gs f s))" for ns gs f s
  proof (induction gs arbitrary: f s)
    case (Cons g gs)
    then show ?case by (auto intro!: any.gd.if_err_rel del)
  qed simp
  have "adds_calls s (snd (delete_removed pf rot gs nss f s))" for gs nss f s
  proof (induction nss arbitrary: f s)
    case (Cons ns nss)
    then show ?case by (auto intro!: any.gd.if_err_rel gen)
  qed simp
  then show ?thesis by (simp add: DeleteOutdatedSecrets_def)
qed

section \<open>The secret is deleted\<close>

text \<open>C39: a secret of the last status that cannot be read in this cycle is not recorded as managed; when the
  management of the secrets ends without an error and another secret of its namespace was written, the
  operator has asked for its deletion, although it may still be configured.\<close>

theorem unread_secret_deleted:
  assumes "unreadable pf ns n" "wf_map (st_SecretManagedByNamespaces (sr_Status (s_sr s)))"
    and "n \<in> set (map_get [] (st_SecretManagedByNamespaces (sr_Status (s_sr s))) ns)"
  shows "case ManagingSecrets pf s of
     (Ok _, s') \<Rightarrow> n \<notin> managed s' ns \<and>
       (if managed s' ns = {} then True else \<exists>cs r. s_calls s' = s_calls s @ cs \<and> DeleteSecretCall ns n r \<in> set cs)
   | _ \<Rightarrow> True"
proof -
  have "n \<notin> managed s' ns \<and>
      (managed s' ns \<noteq> {} \<longrightarrow> (\<exists>cs r. s_calls s' = s_calls s @ cs \<and> DeleteSecretCall ns n r \<in> set cs))"
    if ok: "ManagingSecrets pf s = (Ok u, s')" for u s'
  proof -
    obtain fl s1 where d: "DeleteOutdatedSecrets pf (sr_name (s_sr s)) (st_ProvisionedNamespaces (sr_Status (s_sr s))) s = (Ok fl, s1)"
      using ok unfolding ManagingSecrets_def by (auto split: if_err_split_asm)
    define s2 where "s2 = upd_td (\<lambda>t. t\<lparr>td_FailedNamespaces := fl, td_RequeueInterval := s_RequeueInterval s1,
        td_SecretManagedByNamespaces := []\<rparr>) s1"
    have k: "keeps s s1"
      using DeleteOutdatedSecrets_keeps [of s pf "sr_name (s_sr s)" "st_ProvisionedNamespaces (sr_Status (s_sr s))"] d by simp
    then have s2: "sr_Status (s_sr s2) = sr_Status (s_sr s)" "managed s2 ns = {}" "s_calls s2 = s_calls s1"
      by (simp_all add: s2_def keeps_def)
    have "manage_namespaces pf (td_NamespaceList (s_td s2)) [] [] s2 = (Ok (), s')"
      using ok d unfolding ManagingSecrets_def Let_def by (simp add: s2_def)
    from manage_namespaces_rounds [OF this assms(1)] assms(2,3) obtain cs where
      cs: "n \<notin> managed s' ns" "s_calls s' = s_calls s2 @ cs" "managed s' ns \<noteq> {} \<longrightarrow> (ns, n) \<in> delete_calls cs"
      by (auto simp: s2)
    have "adds_calls s s1"
      using adds_outdated d by (metis snd_conv)
    then obtain ds where "s_calls s1 = s_calls s @ ds" by (auto simp: adds_calls_iff)
    with cs s2(3) show ?thesis by (auto simp: delete_calls_def)
  qed
  then show ?thesis by (auto split: prod.split outcome.split)
qed

text \<open>A cluster in which reading the secret \<open>a\<close> fails for a while.\<close>

definition flaky :: "mem platform" where
  "flaky = memory\<lparr>pf_GetSecret := (\<lambda>ns n w. if n = ''a'' then (Err (ExtError ''timeout''), w) else mem_get ns n w)\<rparr>"

definition two_secrets :: "mem state" where
  "two_secrets = demo_state
     \<lparr>s_world := demo_world\<lparr>m_secrets := [((''ns'', ''a''), demo_secret ''ns'' ''a''), ((''ns'', ''b''), demo_secret ''ns'' ''b'')]\<rparr>,
      s_td := demo_td\<lparr>td_GeneratedSecrets := [\<lparr>gs_SecretName = ''a'', gs_SecretType = SecretTypeGeneric, gs_Scope = []\<rparr>,
                                              \<lparr>gs_SecretName = ''b'', gs_SecretType = SecretTypeGeneric, gs_Scope = []\<rparr>]\<rparr>,
      s_sr := demo_rotator\<lparr>sr_Status := (sr_Status demo_rotator)\<lparr>st_SecretManagedByNamespaces := [(''ns'', [''a'', ''b''])]\<rparr>\<rparr>\<rparr>"

lemma flaky_run:
  "\<exists>s'. ManagingSecrets flaky two_secrets = (Ok (), s') \<and> managed s' ''ns'' = {''b''} \<and>
     mem_lookup (s_world s') (''ns'', ''a'') = None"
  by (simp add: ManagingSecrets_def DeleteOutdatedSecrets_def getRemovedNamespaces_def manage_namespace_def
      GetSecret_def HandlingToken_def finish_namespace_def report_failures_def CreateOrUpdateSecrets_def
      configure_secret_def write_secret_def call_def add_managed_def IsSecretOwnedBy_def mem_defs demo_defs secret_types
      flaky_def two_secrets_def DeleteOutdatedGeneratedSecrets_def findSecretDifferences_def findStringSliceDifference_def
      range_keys_def map_get_Cons Let_def)

theorem unread_secret_deleted_witness:
  "''a'' \<in> configured two_secrets \<and>
   (\<exists>r. DeleteSecretCall ''ns'' ''a'' r \<in> set (s_calls (snd (ManagingSecrets flaky two_secrets))))"
proof -
  have unread: "unreadable flaky ''ns'' ''a''" by (simp add: unreadable_def flaky_def memory_ops not_found_def)
  have recorded: "wf_map (st_SecretManagedByNamespaces (sr_Status (s_sr two_secrets)))"
    "''a'' \<in> set (map_get [] (st_SecretManagedByNamespaces (sr_Status (s_sr two_secrets))) ''ns'')"
    by (simp_all add: two_secrets_def map_get_Cons)
  obtain s' where run: "ManagingSecrets flaky two_secrets = (Ok (), s')" "managed s' ''ns'' = {''b''}" using flaky_run by blast
  have "''a'' \<in> configured two_secrets" by (simp add: two_secrets_def demo_defs)
  moreover have "s_calls two_secrets = []" by (simp add: two_secrets_def demo_state_def fresh_def)
  moreover from unread_secret_deleted [OF unread recorded]
  have "\<exists>cs r. s_calls s' = s_calls two_secrets @ cs \<and> DeleteSecretCall ''ns'' ''a'' r \<in> set cs"
    unfolding run(1) prod.case outcome.case run(2) by simp
  ultimately show ?thesis unfolding run(1) snd_conv by simp
qed

end
