(* ===== verification/Startup.thy ===== *)
theory Startup
  imports Controller In_Memory
begin

text \<open>
  main.go and the wiring of the controller: the flags, the manager, the controller, the two checks and the
  start, and what the process ends with.  client-go, controller-runtime and zap are parameters, the fields
  of \<open>('v, 'w) launcher\<close> with the world \<open>'w\<close> they act on; the flag package of the standard library is written
  out.  Log output and the texts on standard error are left out.
\<close>

section \<open>Package flag\<close>

text \<open>\<open>strconv.ParseBool\<close>.\<close>

definition ParseBool :: "string \<Rightarrow> bool outcome" where
  "ParseBool s =
     (if s \<in> {''1'', ''t'', ''T'', ''true'', ''TRUE'', ''True''} then Ok True
      else if s \<in> {''0'', ''f'', ''F'', ''false'', ''FALSE'', ''False''} then Ok False
      else Err (ExtError ''invalid syntax''))"

text \<open>The variables the flags are bound to; those of the libraries (zap's and kubeconfig) by the name of the flag.\<close>

record flag_values =
  fv_metricsAddr :: string
  fv_probeAddr :: string
  fv_enableLeaderElection :: bool
  fv_libraries :: "string gomap"

text \<open>How a parse ends: with the values, or with a request for help or an error, after which the process exits.\<close>

datatype flag_result = Parsed flag_values | HelpRequested | FlagError

record flag_kind =
  fk_isBool :: bool
  fk_set :: "string \<Rightarrow> flag_values \<Rightarrow> flag_values outcome"

type_synonym flag_set = "flag_kind gomap"

text \<open>The dashes and the name of an argument, and the value after the first equals sign that is not in front.\<close>

definition split_flag :: "string \<Rightarrow> string \<times> string option" where
  "split_flag name =
     (case IndexByte (tl name) (CHR ''='') of
        None \<Rightarrow> (name, None)
      | Some i \<Rightarrow> (take (Suc i) name, Some (drop (Suc (Suc i)) name)))"

definition flag_name :: "string \<Rightarrow> string" where
  "flag_name s = (if s ! 1 = CHR ''-'' then drop 2 s else drop 1 s)"

definition apply_flag :: "flag_kind \<Rightarrow> string \<Rightarrow> flag_values \<Rightarrow> flag_result" where
  "apply_flag k value v =
     (case fk_set k value v of
        Ok v \<Rightarrow> Parsed v
      | _ \<Rightarrow> FlagError)"

text \<open>\<open>FlagSet.Parse\<close>: the arguments up to the first that is no flag.\<close>

fun flag_Parse :: "flag_set \<Rightarrow> string list \<Rightarrow> flag_values \<Rightarrow> flag_result" where
  "flag_Parse formal [] v = Parsed v"
| "flag_Parse formal (s # args) v =
     (if length s < 2 \<or> s ! 0 \<noteq> CHR ''-'' then Parsed v
      else if s = ''--'' then Parsed v
      else let name = flag_name s
           in if name = [] \<or> hd name \<in> {CHR ''-'', CHR ''=''} then FlagError
              else let (name, value) = split_flag name
                   in case map_of formal name of
                        None \<Rightarrow> if name \<in> {''help'', ''h''} then HelpRequested
                                else FlagError
                      | Some k \<Rightarrow>
                          (case (value, fk_isBool k, args) of
                             (Some x, _, _) \<Rightarrow>
                               (case apply_flag k x v of Parsed v \<Rightarrow> flag_Parse formal args v | r \<Rightarrow> r)
                           | (None, True, _) \<Rightarrow>
                               (case apply_flag k ''true'' v of Parsed v \<Rightarrow> flag_Parse formal args v | r \<Rightarrow> r)
                           | (None, False, []) \<Rightarrow> FlagError
                           | (None, False, x # args') \<Rightarrow>
                               (case apply_flag k x v of Parsed v \<Rightarrow> flag_Parse formal args' v | r \<Rightarrow> r)))"

section \<open>The libraries\<close>

record manager_options =
  mo_MetricsBindAddress :: string
  mo_HealthProbeBindAddress :: string
  mo_LeaderElection :: bool
  mo_LeaderElectionID :: string

text \<open>
  What the builder is given: the kinds watched, the event filter \<open>WatchNsChanges\<close> with its two functions, the
  concurrency, and the reconciler with its interval.  They act on the states of the operator over its own
  world \<open>'v\<close>.
\<close>

record 'v controller_setup =
  cs_For :: string
  cs_CreateFunc :: "event_object \<Rightarrow> 'v state \<Rightarrow> bool outcome \<times> 'v state"
  cs_UpdateFunc :: "event_object \<Rightarrow> ObjectMeta \<Rightarrow> 'v state \<Rightarrow> bool outcome \<times> 'v state"
  cs_MaxConcurrentReconciles :: int
  cs_Owns :: string
  cs_Reconcile :: "string \<times> string \<Rightarrow> 'v state \<Rightarrow> (Result \<times> goerror option) outcome \<times> 'v state"
  cs_RequeueInterval :: int

datatype 'v startup_call =
    NewManagerCall string manager_options
  | CompleteCall "'v controller_setup"
  | AddHealthzCheckCall string
  | AddReadyzCheckCall string
  | StartCall

record ('v, 'w) launcher =
  la_clientgo_AddToScheme :: "unit outcome"
  la_jfrog_AddToScheme :: "unit outcome"
  la_flags :: "(string \<times> bool) list"
  la_accepts :: "string \<Rightarrow> string \<Rightarrow> bool"
  la_GetConfig :: "string gomap \<Rightarrow> 'w \<Rightarrow> string outcome"
  la_NewManager :: "string \<Rightarrow> manager_options \<Rightarrow> 'w \<Rightarrow> unit outcome \<times> 'w"
  la_Complete :: "'v controller_setup \<Rightarrow> 'w \<Rightarrow> unit outcome \<times> 'w"
  la_AddHealthzCheck :: "string \<Rightarrow> 'w \<Rightarrow> unit outcome \<times> 'w"
  la_AddReadyzCheck :: "string \<Rightarrow> 'w \<Rightarrow> unit outcome \<times> 'w"
  la_Start :: "'w \<Rightarrow> unit outcome \<times> 'w"

section \<open>main\<close>

text \<open>The end of the process, the calls made and the world it leaves.\<close>

datatype process_end = Returned | Exited int | Crashed string

record ('v, 'w) launch =
  lc_world :: 'w
  lc_calls :: "('v startup_call \<times> unit outcome) list"

text \<open>\<open>if err := f(); err != nil { log; os.Exit(1) }\<close> and what follows.\<close>

definition or_exit ::
    "('w \<Rightarrow> unit outcome \<times> 'w) \<Rightarrow> 'v startup_call \<Rightarrow> (('v, 'w) launch \<Rightarrow> process_end \<times> ('v, 'w) launch) \<Rightarrow> ('v, 'w) launch \<Rightarrow> process_end \<times> ('v, 'w) launch" where
  "or_exit f c k s =
     (let (r, w) = f (lc_world s); s = \<lparr>lc_world = w, lc_calls = lc_calls s @ [(c, r)]\<rparr>
      in case r of Ok _ \<Rightarrow> k s | Err _ \<Rightarrow> (Exited 1, s) | Panic p \<Rightarrow> (Crashed p, s))"

definition default_flags :: flag_values where
  "default_flags = \<lparr>fv_metricsAddr = '':8080'', fv_probeAddr = '':8081'', fv_enableLeaderElection = False, fv_libraries = []\<rparr>"

definition string_flag :: "(string \<Rightarrow> flag_values \<Rightarrow> flag_values) \<Rightarrow> flag_kind" where
  "string_flag f = \<lparr>fk_isBool = False, fk_set = (\<lambda>x v. Ok (f x v))\<rparr>"

definition bool_flag :: "(bool \<Rightarrow> flag_values \<Rightarrow> flag_values) \<Rightarrow> flag_kind" where
  "bool_flag f = \<lparr>fk_isBool = True, fk_set = (\<lambda>x v. map_outcome (\<lambda>b. f b v) (ParseBool x))\<rparr>"

definition main_flags :: flag_set where
  "main_flags =
     [(''metrics-bind-address'', string_flag (\<lambda>x. fv_metricsAddr_update (\<lambda>_. x))),
      (''health-probe-bind-address'', string_flag (\<lambda>x. fv_probeAddr_update (\<lambda>_. x))),
      (''leader-elect'', bool_flag (\<lambda>b. fv_enableLeaderElection_update (\<lambda>_. b)))]"

definition library_flag :: "('v, 'w) launcher \<Rightarrow> string \<times> bool \<Rightarrow> string \<times> flag_kind" where
  "library_flag L nb = (fst nb, \<lparr>fk_isBool = snd nb, fk_set = (\<lambda>x v.
     if la_accepts L (fst nb) x then Ok (v\<lparr>fv_libraries := AList.update (fst nb) x (fv_libraries v)\<rparr>)
     else Err (ExtError ''invalid value''))\<rparr>)"

definition command_line :: "('v, 'w) launcher \<Rightarrow> flag_set" where
  "command_line L = main_flags @ map (library_flag L) (la_flags L)"

definition controller_of :: "'v platform \<Rightarrow> int \<Rightarrow> 'v controller_setup" where
  "controller_of pf interval =
     \<lparr>cs_For = ''SecretRotator'', cs_CreateFunc = CreateFunc pf, cs_UpdateFunc = UpdateFunc pf,
      cs_MaxConcurrentReconciles = 1, cs_Owns = ''Namespace'', cs_Reconcile = Reconcile pf, cs_RequeueInterval = interval\<rparr>"

definition SetupWithManager :: "'v platform \<Rightarrow> ('v, 'w) launcher \<Rightarrow> int \<Rightarrow>
    (('v, 'w) launch \<Rightarrow> process_end \<times> ('v, 'w) launch) \<Rightarrow> ('v, 'w) launch \<Rightarrow> process_end \<times> ('v, 'w) launch" where
  "SetupWithManager pf L interval = or_exit (la_Complete L (controller_of pf interval)) (CompleteCall (controller_of pf interval))"

text \<open>Both registrations with the scheme, \<open>utilruntime.Must\<close>, before \<open>main\<close>.\<close>

definition main_init :: "('v, 'w) launcher \<Rightarrow> unit outcome" where
  "main_init L =
     (case la_clientgo_AddToScheme L of
        Err e \<Rightarrow> Panic (Error e)
      | Panic p \<Rightarrow> Panic p
      | Ok _ \<Rightarrow> (case la_jfrog_AddToScheme L of Err e \<Rightarrow> Panic (Error e) | r \<Rightarrow> r))"

text \<open>The manager, the controller, the checks and the start, for a configuration.\<close>

definition manager_options_of :: "flag_values \<Rightarrow> manager_options" where
  "manager_options_of v =
     \<lparr>mo_MetricsBindAddress = fv_metricsAddr v, mo_HealthProbeBindAddress = fv_probeAddr v,
      mo_LeaderElection = fv_enableLeaderElection v, mo_LeaderElectionID = ''524bb1e7.jfrog.com''\<rparr>"

definition run_manager :: "'v platform \<Rightarrow> ('v, 'w) launcher \<Rightarrow> flag_values \<Rightarrow> string \<Rightarrow> ('v, 'w) launch \<Rightarrow> process_end \<times> ('v, 'w) launch" where
  "run_manager pf L v config =
     or_exit (la_NewManager L config (manager_options_of v)) (NewManagerCall config (manager_options_of v))
       (SetupWithManager pf L (60 * Minute)
       (or_exit (la_AddHealthzCheck L ''healthz'') (AddHealthzCheckCall ''healthz'')
       (or_exit (la_AddReadyzCheck L ''readyz'') (AddReadyzCheckCall ''readyz'')
       (or_exit (la_Start L) StartCall (\<lambda>s. (Returned, s))))))"

definition manager_main :: "'v platform \<Rightarrow> ('v, 'w) launcher \<Rightarrow> flag_values \<Rightarrow> ('v, 'w) launch \<Rightarrow> process_end \<times> ('v, 'w) launch" where
  "manager_main pf L v s =
     (case la_GetConfig L (fv_libraries v) (lc_world s) of
        Err _ \<Rightarrow> (Exited 1, s)
      | Panic p \<Rightarrow> (Crashed p, s)
      | Ok config \<Rightarrow> run_manager pf L v config s)"

definition main :: "'v platform \<Rightarrow> ('v, 'w) launcher \<Rightarrow> string list \<Rightarrow> 'w \<Rightarrow> process_end \<times> ('v, 'w) launch" where
  "main pf L args w =
     (let s = \<lparr>lc_world = w, lc_calls = []\<rparr>
      in case main_init L of
           Panic p \<Rightarrow> (Crashed p, s)
         | _ \<Rightarrow>
            (case flag_Parse (command_line L) args default_flags of
               HelpRequested \<Rightarrow> (Exited 0, s)
             | FlagError \<Rightarrow> (Exited 2, s)
             | Parsed v \<Rightarrow> manager_main pf L v s))"

section \<open>Theorems\<close>

text \<open>The calls of a complete start with given options.\<close>

definition startup_sequence :: "'v platform \<Rightarrow> string \<Rightarrow> flag_values \<Rightarrow> 'v startup_call list" where
  "startup_sequence pf config v =
     [NewManagerCall config (manager_options_of v),
      CompleteCall \<lparr>cs_For = ''SecretRotator'', cs_CreateFunc = CreateFunc pf, cs_UpdateFunc = UpdateFunc pf,
        cs_MaxConcurrentReconciles = 1, cs_Owns = ''Namespace'', cs_Reconcile = Reconcile pf, cs_RequeueInterval = 60 * Minute\<rparr>,
      AddHealthzCheckCall ''healthz'', AddReadyzCheckCall ''readyz'', StartCall]"

text \<open>The end of the process that the outcome of the last call brings.\<close>

primrec ended :: "unit outcome \<Rightarrow> process_end" where
  "ended (Ok _) = Returned"
| "ended (Err _) = Exited 1"
| "ended (Panic p) = Crashed p"

text \<open>
  A continuation makes the calls \<open>cs\<close> in order, each after the success of the one before it, and the last
  one made decides how the process ends.
\<close>

definition in_order :: "('v startup_call \<times> unit outcome) list \<Rightarrow> 'v startup_call list \<Rightarrow> process_end \<Rightarrow> bool" where
  "in_order rs cs e \<longleftrightarrow>
     map fst rs = take (length rs) cs \<and> (\<forall>r \<in> set (butlast rs). snd r = Ok ()) \<and>
     (if cs = [] then e = Returned else rs \<noteq> [] \<and> e = ended (snd (last rs)) \<and> (e = Returned \<longrightarrow> length rs = length cs))"

definition makes :: "(('v, 'w) launch \<Rightarrow> process_end \<times> ('v, 'w) launch) \<Rightarrow> 'v startup_call list \<Rightarrow> bool" where
  "makes k cs \<longleftrightarrow> (\<forall>s. \<exists>rs. lc_calls (snd (k s)) = lc_calls s @ rs \<and> in_order rs cs (fst (k s)))"

lemma in_order_stop: "\<not> (\<exists>u. r = Ok u) \<Longrightarrow> in_order [(c, r)] (c # cs) (ended r)"
  by (cases r) (simp_all add: in_order_def)

lemma in_order_Nil: "in_order rs [] e \<longleftrightarrow> rs = [] \<and> e = Returned"
  by (auto simp: in_order_def)

lemma in_order_step: "in_order rs cs e \<Longrightarrow> in_order ((c, Ok ()) # rs) (c # cs) e"
  by (cases "cs = []") (auto simp: in_order_def)

lemma makes_return: "makes (\<lambda>s. (Returned, s)) []"
  by (simp add: makes_def in_order_Nil)

lemma makes_or_exit:
  fixes k :: "('v, 'w) launch \<Rightarrow> process_end \<times> ('v, 'w) launch"
  assumes "makes k cs"
  shows "makes (or_exit f c k) (c # cs)"
  unfolding makes_def
proof
  fix s :: "('v, 'w) launch"
  obtain r w where f: "f (lc_world s) = (r, w)" by fastforce
  let ?s = "\<lparr>lc_world = w, lc_calls = lc_calls s @ [(c, r)]\<rparr>"
  show "\<exists>rs. lc_calls (snd (or_exit f c k s)) = lc_calls s @ rs \<and> in_order rs (c # cs) (fst (or_exit f c k s))"
  proof (cases "\<exists>u. r = Ok u")
    case True
    obtain rs where rs: "lc_calls (snd (k ?s)) = lc_calls ?s @ rs" "in_order rs cs (fst (k ?s))"
      using assms unfolding makes_def by blast
    from True f rs show ?thesis
      by (intro exI[where x = "(c, r) # rs"]) (auto simp: or_exit_def intro: in_order_step)
  next
    case False
    then have "or_exit f c k s = (ended r, ?s)" by (cases r) (simp_all add: or_exit_def f)
    with in_order_stop[OF False] show ?thesis by (intro exI[where x = "[(c, r)]"]) simp
  qed
qed

lemma makes_all: "makes k cs \<Longrightarrow> lc_calls s = [] \<Longrightarrow> k s = (e, s') \<Longrightarrow> in_order (lc_calls s') cs e"
  unfolding makes_def by (metis append_Nil fst_conv snd_conv)

lemma run_manager_makes: "makes (run_manager pf L v config) (startup_sequence pf config v)"
  unfolding run_manager_def startup_sequence_def SetupWithManager_def controller_of_def [symmetric]
  by (intro makes_or_exit makes_return)

lemma main_init_not_Err [simp]: "main_init L \<noteq> Err e"
  by (simp add: main_init_def split: outcome.split)

lemma run_manager_calls:
  "run_manager pf L v config \<lparr>lc_world = w, lc_calls = []\<rparr> = (e, s) \<Longrightarrow>
   in_order (lc_calls s) (startup_sequence pf config v) e"
  by (rule makes_all[OF run_manager_makes]) simp_all

lemma main_calls:
  assumes "main pf L args w = (e, s)" "lc_calls s \<noteq> []"
  obtains v config where "main_init L = Ok ()" "flag_Parse (command_line L) args default_flags = Parsed v"
    "la_GetConfig L (fv_libraries v) w = Ok config" "in_order (lc_calls s) (startup_sequence pf config v) e"
  using assms
  by (auto simp: main_def manager_main_def Let_def dest: run_manager_calls split: outcome.splits flag_result.splits)

lemma in_order_started:
  assumes "in_order rs (startup_sequence pf config v) e"
  shows "StartCall \<in> fst ` set rs \<longleftrightarrow> length rs = 5"
proof -
  have "set (map fst rs) = set (take (length rs) (startup_sequence pf config v))" "length rs \<le> 5"
    using assms by (auto simp: in_order_def startup_sequence_def dest: arg_cong[where f = length])
  moreover have "StartCall \<in> set (take n (startup_sequence pf config v)) \<longleftrightarrow> n = 5" if "n \<le> 5" for n
    using that by (cases n; auto simp: startup_sequence_def take_Cons' split: if_splits)
  ultimately show ?thesis by simp
qed

text \<open>Arguments that set the three flags, and their reading.\<close>

definition flag_arguments :: "flag_values \<Rightarrow> string list" where
  "flag_arguments v =
     [''--metrics-bind-address='' @ fv_metricsAddr v, ''-health-probe-bind-address'', fv_probeAddr v,
      ''--leader-elect='' @ (if fv_enableLeaderElection v then ''true'' else ''false'')]"

lemma command_line_main:
  "map_of (command_line L) ''metrics-bind-address'' = Some (string_flag (\<lambda>x. fv_metricsAddr_update (\<lambda>_. x)))"
  "map_of (command_line L) ''health-probe-bind-address'' = Some (string_flag (\<lambda>x. fv_probeAddr_update (\<lambda>_. x)))"
  "map_of (command_line L) ''leader-elect'' = Some (bool_flag (\<lambda>b. fv_enableLeaderElection_update (\<lambda>_. b)))"
  by (simp_all add: command_line_def main_flags_def map_add_def)

lemma split_flag_equals: "CHR ''='' \<notin> set n \<Longrightarrow> n \<noteq> [] \<Longrightarrow> split_flag (n @ ''='' @ x) = (n, Some x)"
  by (cases n) (simp_all add: split_flag_def IndexByte_append)

lemma split_flag_plain: "CHR ''='' \<notin> set n \<Longrightarrow> split_flag n = (n, None)"
  by (cases n) (simp_all add: split_flag_def IndexByte_None_iff split: option.split)

lemma flag_Parse_equals:
  assumes "map_of formal n = Some k" "CHR ''='' \<notin> set n" "n \<noteq> []" "hd n \<noteq> CHR ''-''"
  shows "flag_Parse formal ((''--'' @ n @ ''='' @ x) # args) v =
    (case apply_flag k x v of Parsed v \<Rightarrow> flag_Parse formal args v | r \<Rightarrow> r)"
  using assms split_flag_equals[OF assms(2, 3), where x = x]
  by (cases n) (auto simp: flag_name_def Let_def split: flag_result.split)

lemma flag_Parse_next:
  assumes "map_of formal n = Some k" "CHR ''='' \<notin> set n" "n \<noteq> []" "hd n \<noteq> CHR ''-''" "\<not> fk_isBool k"
  shows "flag_Parse formal ((''-'' @ n) # x # args) v =
    (case apply_flag k x v of Parsed v \<Rightarrow> flag_Parse formal args v | r \<Rightarrow> r)"
  using assms split_flag_plain[OF assms(2)]
  by (cases n) (auto simp: flag_name_def Let_def split: flag_result.split)

lemma flag_arguments_parsed:
  "flag_Parse (command_line L) (flag_arguments v @ rest) d =
   flag_Parse (command_line L) rest (d\<lparr>fv_metricsAddr := fv_metricsAddr v, fv_probeAddr := fv_probeAddr v,
     fv_enableLeaderElection := fv_enableLeaderElection v\<rparr>)"
proof -
  note equals = flag_Parse_equals[OF command_line_main(1)[where L = L]] flag_Parse_equals[OF command_line_main(3)[where L = L]]
    and separate = flag_Parse_next[OF command_line_main(2)[where L = L]]
  show ?thesis
    using equals(1)[where x = "fv_metricsAddr v"] equals(2)[where x = "''true''"] equals(2)[where x = "''false''"]
      separate[where x = "fv_probeAddr v"]
    by (cases "fv_enableLeaderElection v")
      (simp_all add: flag_arguments_def apply_flag_def string_flag_def bool_flag_def ParseBool_def del: flag_Parse.simps)
qed

text \<open>C29: whatever the arguments and whatever the libraries answer, the process acts on the cluster only after
  both schemes are registered, the command line is read and a configuration is found; it then creates the
  manager from the values read, registers the controller (with the event filter, one worker and an interval of an hour), adds
  the two checks and starts the manager, in this order, each step only when all before it succeeded.  The
  last step made decides the end of the process: a return after a successful run only, exit code 1 for an error.\<close>

theorem startup_order:
  assumes "main pf L args w = (e, s)" "lc_calls s \<noteq> []"
  shows "\<exists>v config. main_init L = Ok () \<and> flag_Parse (command_line L) args default_flags = Parsed v \<and>
     la_GetConfig L (fv_libraries v) w = Ok config \<and>
     map fst (lc_calls s) = take (length (lc_calls s)) (startup_sequence pf config v) \<and>
     (\<forall>r \<in> set (butlast (lc_calls s)). snd r = Ok ()) \<and> e = ended (snd (last (lc_calls s))) \<and>
     (StartCall \<in> fst ` set (lc_calls s) \<longleftrightarrow> length (lc_calls s) = 5) \<and>
     (e = Returned \<longrightarrow> StartCall \<in> fst ` set (lc_calls s))"
proof -
  from assms obtain v config where found: "main_init L = Ok ()" "flag_Parse (command_line L) args default_flags = Parsed v"
    "la_GetConfig L (fv_libraries v) w = Ok config" and calls: "in_order (lc_calls s) (startup_sequence pf config v) e"
    by (rule main_calls)
  have "length (startup_sequence pf config v) = 5" by (simp add: startup_sequence_def)
  with calls have "map fst (lc_calls s) = take (length (lc_calls s)) (startup_sequence pf config v)"
    "\<forall>r \<in> set (butlast (lc_calls s)). snd r = Ok ()" "e = ended (snd (last (lc_calls s)))"
    "e = Returned \<longrightarrow> length (lc_calls s) = 5"
    by (auto simp: in_order_def split: if_splits)
  with found in_order_started[OF calls] show ?thesis by blast
qed

text \<open>Libraries whose manager, given the address that the arguments name, stops with an error of the probe check.\<close>

definition sample_launcher :: "(mem, string) launcher" where
  "sample_launcher =
     \<lparr>la_clientgo_AddToScheme = Ok (), la_jfrog_AddToScheme = Ok (),
      la_flags = [(''kubeconfig'', False), (''zap-devel'', True)], la_accepts = (\<lambda>n x. True),
      la_GetConfig = (\<lambda>fs w. case map_of fs ''kubeconfig'' of Some c \<Rightarrow> Ok c | None \<Rightarrow> Ok ''in-cluster''),
      la_NewManager = (\<lambda>c mo w. (Ok (), c @ mo_MetricsBindAddress mo)),
      la_Complete = (\<lambda>cs w. (Ok (), w)), la_AddHealthzCheck = (\<lambda>n w. (Ok (), w)),
      la_AddReadyzCheck = (\<lambda>n w. (Err (ExtError ''exists''), w)), la_Start = (\<lambda>w. (Ok (), w))\<rparr>"

definition sample_launch :: "process_end \<times> (mem, string) launch" where
  "sample_launch = main memory sample_launcher [''--leader-elect'', ''-metrics-bind-address=:9090'', ''--kubeconfig'', ''k''] []"

lemma sample_launch_calls: "fst sample_launch = Exited 1" "length (lc_calls (snd sample_launch)) = 4"
  "lc_world (snd sample_launch) = ''k:9090''"
  by code_simp+

theorem startup_order_witness:
  "fst sample_launch = Exited 1 \<and> StartCall \<notin> fst ` set (lc_calls (snd sample_launch)) \<and>
   snd ` set (butlast (lc_calls (snd sample_launch))) \<subseteq> {Ok ()}"
proof -
  have "lc_calls (snd sample_launch) \<noteq> []" using sample_launch_calls by auto
  from startup_order[OF prod.collapse[of sample_launch, unfolded sample_launch_def, symmetric] this[unfolded sample_launch_def]]
  have "\<forall>r \<in> set (butlast (lc_calls (snd sample_launch))). snd r = Ok ()"
    "StartCall \<in> fst ` set (lc_calls (snd sample_launch)) \<longleftrightarrow> length (lc_calls (snd sample_launch)) = 5"
    unfolding sample_launch_def by blast+
  with sample_launch_calls show ?thesis by auto
qed

end
