(* ===== verification/Spec2Isabelle.thy ===== *)
theory Spec2Isabelle
  imports Signing_Theorems V4a_Theorems Go_Asn1 Deep_Copy_Theorems Controller_Theorems Reconcile_Theorems Reconcile_Live Unread_Secrets Startup
begin

text \<open>
  \<^bold>\<open>The JFrog registry operator.\<close>

  The operator watches \<open>SecretRotator\<close> resources in a Kubernetes cluster.  For each it obtains an
  Artifactory access token, by sending Artifactory a SigV4a-signed AWS STS \<open>GetCallerIdentity\<close>
  request, and stores the token as docker or generic secrets in every namespace the resource selects.
  It then writes the resource's status and asks to be called again before the token expires.

  \<^bold>\<open>Parts of the program and the theories that model them\<close> (paths below src/).

  \<^item> Go itself.  \<open>Rotator_Prelude\<close>: errors (\<^typ>\<open>goerror\<close>), results and panics (\<^typ>\<open>'a outcome\<close>),
    maps as association lists.  \<open>Go_Lib\<close>, \<open>Go_Codec\<close>, \<open>Go_Crypto\<close>, \<open>Go_Url\<close>, \<open>Go_Time\<close>: what the
    program uses of strings, encoding/hex and base64, crypto/sha256 and hmac, the P-256 group, net/url
    and net/http headers, float64 and time.Duration.
  \<^item> internal/sign/v4a/crypto: \<open>V4a_Crypto\<close> (constant-time comparison, keys, counter-mode key
    derivation) and \<open>Go_Asn1\<close> (the check of a DER signature).  internal/sign/v4a/v4: \<open>V4_Util\<close> (constants, space stripping, URI path) and
    \<open>V4_Request\<close> (hosts and ports, header rules, signing time, HMAC).
  \<^item> internal/sign/v4a/v4a.go and error.go, the general SigV4a signer: \<open>V4a_Signer\<close> (its options,
    its own credential key, \<open>Build\<close>, \<open>SignHTTP\<close>, \<open>PresignHTTP\<close>), with \<open>Go_Query\<close> for the encoding and
    parsing of query strings.
  \<^item> internal/sign/signer.go: \<open>Signer\<close> (key derivation and its cache, canonical request, string to
    sign, \<open>Build\<close>, \<open>SignV4a\<close>) and \<open>Signer_STS\<close>, which evaluates it on the one request the operator
    signs.
  \<^item> api/v1alpha1 and internal/operations/types.go: \<open>Api_Types\<close>, records with the fields of the
    structs and the constants.  zz_generated.deepcopy.go: \<open>Deep_Copy\<close>, over an explicit heap of objects;
    everywhere else the API objects are values.
  \<^item> \<open>Platform\<close>: the code outside the repository, as the fields of the record \<^typ>\<open>'w platform\<close> over an
    arbitrary world \<^typ>\<open>'w\<close> (API server, AWS SDK, HTTP client, file system, clock, map order), the
    state \<^typ>\<open>'w state\<close> of one operator process (world, current resource, token details, requeue
    interval, key cache) and the log of the calls made so far, \<^typ>\<open>api_call\<close> list.
  \<^item> internal/operations/operations.go and internal/client: \<open>Operations\<close>.  internal/resource:
    \<open>Resource\<close>.  internal/handler: \<open>Handler\<close>.  controllers: \<open>Controller\<close>.
  \<^item> main.go and \<open>SetupWithManager\<close>: \<open>Startup\<close>, with the parsing of package flag; the libraries that run
    the manager are the fields of \<^typ>\<open>('v, 'w) launcher\<close>.

  One Go function is one definition of the same name; a loop is a recursive function of its own,
  named after what it does.  A function that changes the resource, the token details, the cluster or
  the key cache takes a state and returns a new one with its outcome, so every early return, wrapped
  error and panic is a branch.  The reconciler calls \<open>InitializeResource\<close>, \<open>ManagingSecrets\<close> and
  \<open>UpdateStatus\<close> in this order; \<open>ManagingSecrets\<close> scans the secrets of each namespace, asks
  \<open>HandlingToken\<close> for a token when there is something to write, writes, and finally cleans up.

  \<^bold>\<open>Interfaces.\<close>  \<open>codec\<close> (hex and base64), \<open>hash_alg\<close> (SHA-256), \<open>canonical_seed\<close> (the header loop, in
  both signers), \<open>slice_difference\<close> (the two set differences of the clean-ups), \<open>step_rel\<close> and \<open>call_guard\<close> (relations
  on states closed under the composition of fallible steps, and call logs in which each call is
  justified by the ones before it), \<open>lawful\<close> (a platform whose cluster behaves as a store of
  secrets), its extension \<open>healthy\<close> (requests on secrets are answered), \<open>sign_in\<close> (the services behind
  the token answer), \<open>working\<close>, which extends both (and the resource's status is accepted), \<open>copier\<close>
  (the contract of a deep copy) and \<open>machinery\<close> (that of the structs of the API machinery).  Each is
  interpreted on the definitions of the model, the ones about platforms on the in-memory platform of
  \<open>In_Memory\<close>.  \<open>Operator_Demo\<close> runs a whole reconciliation on it.

  \<^bold>\<open>What the lemmas show.\<close>

  \<^item> \<open>Signing_Theorems\<close>: the comparison, the key derivation and its range, the coherence of the key
    cache, space stripping, independence of canonical headers from map order, hosts, header rules and
    the signed STS request written out.
  \<^item> \<open>Go_Query\<close> and \<open>V4a_Theorems\<close>: an encoded query parses back to its parameters, what a presigned
    URL carries, where presigning leaves each header, and the agreement of the two signers.
  \<^item> \<open>Operator_Theorems\<close>: validation, the label test, both clean-ups, the effect of writing and
    deleting a secret, the docker configuration, certificates, the choice of the authentication flow
    and the request for the token.
  \<^item> \<open>Controller_Safety\<close>, \<open>Controller_Store\<close>, \<open>Controller_Theorems\<close>: writes follow a read that
    allows them, a completed rotation leaves every secret current, other secrets are untouched, the
    status, requeue intervals, namespace events and finalizers.
  \<^item> \<open>Operator_Runs\<close>: an inductive relation of runs (events, changes of the world, restarts) and two
    invariants of all of them.  \<open>Reconcile_Theorems\<close>: what a successful reconciliation has recorded.
    \<open>Unread_Secrets\<close>: a secret that cannot be read in a cycle is deleted by the clean-up.
  \<^item> \<open>Sign_In\<close>, \<open>Rotation_Live\<close>, \<open>Reconcile_Live\<close>: with services that answer the sign-in, the management of
    the secrets and the whole reconciliation do succeed, through every call they make.
  \<^item> \<open>Deep_Copy_Theorems\<close>: a deep copy returns on well-typed objects, has the original's value and shares
    nothing with it.  \<open>Go_Asn1\<close>: a DER signature is read back, and one that is cut off is an error.
  \<^item> \<open>Startup\<close>: the flags are read back from their arguments, and each step of the start happens only
    after the success of the ones before it.

  \<^bold>\<open>Hypotheses.\<close>  Properties that need more of the outside than its type name it: \<open>names_law\<close> and
  \<open>namespaces_law\<close> (objects read or listed carry the names asked for, names are distinct and not
  empty), \<open>cluster_laws\<close> and \<open>store_laws\<close> (the API server is a map from keys to secrets and other calls
  do not change it), \<open>token_law\<close> (Artifactory's token is not empty), \<open>credentials_law\<close> (an access key
  has one secret), \<open>live_law\<close>, \<open>sign_in_law\<close> and \<open>resource_law\<close> (requests are answered),
  \<open>unreadable\<close> (the reads of one secret fail), \<open>copier\<close> of the API machinery's copies.  The in-memory
  platform, for \<open>unreadable\<close> with failing reads, satisfies them and the witnesses run on it.

  \<^bold>\<open>Termination.\<close>  No definition uses fuel: the loops recurse over a list or have a measure (the
  counter of the key derivation goes to 255, the one of the stream to the number of blocks).

  \<^bold>\<open>Not modelled.\<close>  User information and fragments of the URLs the general signer presigns, curves
  other than P-256 and nil keys, log output, the set-up of the logger, charts, manifests and Terraform files.
\<close>

end
